(* ===== verification/Prelude.thy ===== *)
theory Prelude
  imports Complex_Main "HOL-Library.AList" "HOL-Library.Sublist" "HOL-Library.Word"
begin

text \<open>
  Shared material of the development: the Go values and the parts of Go's standard library
  that the components of kperf use (\<^verbatim>\<open>strings\<close>, \<^verbatim>\<open>strconv\<close>, \<^verbatim>\<open>crypto/rand.Int\<close>,
  maps), fixed-width integer arithmetic, and the generic lemmas on lists and association
  lists on which the component proofs rest. A Go map over which the code ranges is an
  association list with distinct keys; its order stands for the iteration order that Go
  leaves unspecified. A Go string is its list of bytes.
\<close>

named_theorems go_str \<open>facts about the model of Go strings\<close>
named_theorems go_map \<open>facts about Go maps as association lists\<close>

section \<open>Fixed-width signed integers\<close>

text \<open>Go's \<^verbatim>\<open>int\<close> and \<^verbatim>\<open>int64\<close> have 64 bits on the platforms kperf is built for,
  \<^verbatim>\<open>int32\<close> has 32; addition wraps around.\<close>

definition wrap64 :: "int \<Rightarrow> int" where
  "wrap64 x = (x + 2 ^ 63) mod 2 ^ 64 - 2 ^ 63"

definition wrap32 :: "int \<Rightarrow> int" where
  "wrap32 x = (x + 2 ^ 31) mod 2 ^ 32 - 2 ^ 31"

definition is_int64 :: "int \<Rightarrow> bool" where
  "is_int64 x \<longleftrightarrow> - (2 ^ 63) \<le> x \<and> x < 2 ^ 63"

definition is_int32 :: "int \<Rightarrow> bool" where
  "is_int32 x \<longleftrightarrow> - (2 ^ 31) \<le> x \<and> x < 2 ^ 31"

lemma wrap64_id [simp]: "is_int64 x \<Longrightarrow> wrap64 x = x"
  by (simp add: wrap64_def is_int64_def)

lemma wrap32_id [simp]: "is_int32 x \<Longrightarrow> wrap32 x = x"
  by (simp add: wrap32_def is_int32_def)

lemma is_int_0 [simp]: "is_int64 0" "is_int32 0"
  by (simp_all add: is_int64_def is_int32_def)

lemma is_int64_wrap64 [simp]: "is_int64 (wrap64 x)"
  using pos_mod_bound [of "2 ^ 64" "x + 2 ^ 63"] pos_mod_sign [of "2 ^ 64" "x + 2 ^ 63"]
  by (simp add: wrap64_def is_int64_def)

lemma is_int32_wrap32 [simp]: "is_int32 (wrap32 x)"
  using pos_mod_bound [of "2 ^ 32" "x + 2 ^ 31"] pos_mod_sign [of "2 ^ 32" "x + 2 ^ 31"]
  by (simp add: wrap32_def is_int32_def)

lemma wrap64_add_left [simp]: "wrap64 (wrap64 x + y) = wrap64 (x + y)"
proof -
  have "(wrap64 x + y + 2 ^ 63) mod 2 ^ 64 = ((x + 2 ^ 63) mod 2 ^ 64 + y) mod 2 ^ 64"
    by (simp add: wrap64_def algebra_simps)
  also have "\<dots> = (x + y + 2 ^ 63) mod 2 ^ 64"
    using mod_add_left_eq [of "x + 2 ^ 63" "2 ^ 64" y] by (simp add: ac_simps)
  finally show ?thesis by (simp add: wrap64_def)
qed

lemma wrap32_add_left [simp]: "wrap32 (wrap32 x + y) = wrap32 (x + y)"
proof -
  have "(wrap32 x + y + 2 ^ 31) mod 2 ^ 32 = ((x + 2 ^ 31) mod 2 ^ 32 + y) mod 2 ^ 32"
    by (simp add: wrap32_def algebra_simps)
  also have "\<dots> = (x + y + 2 ^ 31) mod 2 ^ 32"
    using mod_add_left_eq [of "x + 2 ^ 31" "2 ^ 32" y] by (simp add: ac_simps)
  finally show ?thesis by (simp add: wrap32_def)
qed

text \<open>Go's \<^verbatim>\<open>/\<close> and \<^verbatim>\<open>%\<close> truncate towards zero.\<close>

definition go_div :: "int \<Rightarrow> int \<Rightarrow> int" where
  "go_div a b = sgn a * sgn b * (\<bar>a\<bar> div \<bar>b\<bar>)"

lemma go_div_nonneg [simp]: "0 \<le> a \<Longrightarrow> 0 < b \<Longrightarrow> go_div a b = a div b"
  by (cases "a = 0") (simp_all add: go_div_def)

section \<open>Outcomes\<close>

text \<open>A call returns, panics, or is still waiting for input: random bytes, an event, a message.\<close>

datatype 'a outcome = Return 'a | Panic | Pending

fun bind_outcome :: "'a outcome \<Rightarrow> ('a \<Rightarrow> 'b outcome) \<Rightarrow> 'b outcome" where
  "bind_outcome (Return x) f = f x"
| "bind_outcome Panic f = Panic"
| "bind_outcome Pending f = Pending"

definition of_option :: "'a option \<Rightarrow> 'a outcome" where
  "of_option x = (case x of None \<Rightarrow> Panic | Some y \<Rightarrow> Return y)"

section \<open>Random numbers\<close>

text \<open>
  \<^verbatim>\<open>rand.Int(rand.Reader, max)\<close> of \<^verbatim>\<open>crypto/rand\<close> panics for \<^verbatim>\<open>max <= 0\<close> and otherwise
  returns a uniform value of the interval from 0 to \<^verbatim>\<open>max\<close>, exclusive. The model takes the
  entropy as an argument: every value of the interval is the result of some draw, and
  no draw leaves it. \<^verbatim>\<open>None\<close> is the panic.
\<close>

definition rand_Int :: "int \<Rightarrow> int \<Rightarrow> int option" where
  "rand_Int m draw = (if m \<le> 0 then None else Some (draw mod m))"

lemma rand_Int_None [simp]: "rand_Int m d = None \<longleftrightarrow> m \<le> 0"
  by (simp add: rand_Int_def)

lemma rand_Int_SomeD: "rand_Int m d = Some r \<Longrightarrow> 0 \<le> r \<and> r < m"
  by (auto simp: rand_Int_def split: if_splits)

lemma rand_Int_surj: "0 \<le> r \<Longrightarrow> r < m \<Longrightarrow> rand_Int m r = Some r"
  by (simp add: rand_Int_def)

section \<open>Decimal numerals\<close>

definition digit_char :: "nat \<Rightarrow> char" where
  "digit_char d = char_of (48 + d)"

definition is_digit :: "char \<Rightarrow> bool" where
  "is_digit c \<longleftrightarrow> 48 \<le> (of_char c :: nat) \<and> (of_char c :: nat) \<le> 57"

definition digit_val :: "char \<Rightarrow> nat" where
  "digit_val c = of_char c - 48"

fun nat_digits :: "nat \<Rightarrow> string" where
  "nat_digits n =
     (if n < 10 then [digit_char n] else nat_digits (n div 10) @ [digit_char (n mod 10)])"

declare nat_digits.simps [simp del]

definition digits_val :: "string \<Rightarrow> nat" where
  "digits_val ds = foldl (\<lambda>a c. 10 * a + digit_val c) 0 ds"

text \<open>\<^verbatim>\<open>strconv.Itoa\<close> and the verb \<^verbatim>\<open>%d\<close>.\<close>

definition itoa :: "int \<Rightarrow> string" where
  "itoa i = (if i < 0 then CHR ''-'' # nat_digits (nat (- i)) else nat_digits (nat i))"

text \<open>\<^verbatim>\<open>strconv.Atoi\<close>: an optional sign, at least one decimal digit and nothing else, and a
  value in the range of \<^verbatim>\<open>int\<close>.\<close>

datatype atoi_error = ErrSyntax | ErrRange

definition atoi_digits :: "bool \<Rightarrow> string \<Rightarrow> atoi_error + int" where
  "atoi_digits neg ds =
     (if ds = [] \<or> \<not> list_all is_digit ds then Inl ErrSyntax
      else let v = (if neg then - int (digits_val ds) else int (digits_val ds))
           in if is_int64 v then Inr v else Inl ErrRange)"

fun atoi :: "string \<Rightarrow> atoi_error + int" where
  "atoi [] = Inl ErrSyntax"
| "atoi (c # cs) =
     (if c = CHR ''-'' then atoi_digits True cs
      else if c = CHR ''+'' then atoi_digits False cs
      else atoi_digits False (c # cs))"

lemma of_char_digit_char [simp]: "d < 10 \<Longrightarrow> of_char (digit_char d) = 48 + d"
  by (simp add: digit_char_def)

lemma is_digit_digit_char [simp]: "d < 10 \<Longrightarrow> is_digit (digit_char d)"
  by (simp add: is_digit_def)

lemma digit_val_digit_char [simp]: "d < 10 \<Longrightarrow> digit_val (digit_char d) = d"
  by (simp add: digit_val_def)

lemma nat_digits_neq_Nil [simp]: "nat_digits n \<noteq> []"
  by (subst nat_digits.simps) simp

lemma nat_digits_is_digit: "list_all is_digit (nat_digits n)"
proof (induction n rule: nat_digits.induct)
  case (1 n)
  then show ?case by (subst nat_digits.simps) auto
qed

lemma digits_val_nat_digits [simp]: "digits_val (nat_digits n) = n"
proof (induction n rule: nat_digits.induct)
  case (1 n)
  show ?case
  proof (cases "n < 10")
    case True
    then show ?thesis by (subst nat_digits.simps) (simp add: digits_val_def)
  next
    case False
    with 1 have "digits_val (nat_digits (n div 10)) = n div 10" by simp
    with False show ?thesis
      by (subst nat_digits.simps) (simp add: digits_val_def)
  qed
qed

lemma nat_digits_inject [simp]: "nat_digits m = nat_digits n \<longleftrightarrow> m = n"
  by (metis digits_val_nat_digits)

lemma not_is_digit [simp]: "\<not> is_digit CHR ''-''" "\<not> is_digit CHR ''+''"
  by (simp_all add: is_digit_def)

lemma minus_notin_nat_digits [simp]: "CHR ''-'' \<notin> set (nat_digits n)"
  using nat_digits_is_digit [of n] not_is_digit(1) by (auto simp: list_all_iff)

lemma hd_nat_digits_is_digit [simp]: "is_digit (hd (nat_digits n))"
  using nat_digits_is_digit [of n] by (simp add: list_all_iff)

lemma itoa_inject [simp]: "itoa i = itoa j \<longleftrightarrow> i = j"
proof -
  have *: "nat_digits n \<noteq> CHR ''-'' # xs" for xs n
    by (metis list.set_intros(1) minus_notin_nat_digits)
  show ?thesis by (auto simp: itoa_def * * [symmetric])
qed

lemma itoa_neq_Nil [simp]: "itoa i \<noteq> []"
  by (simp add: itoa_def)

lemma minus_notin_itoa: "0 \<le> i \<Longrightarrow> CHR ''-'' \<notin> set (itoa i)"
  by (simp add: itoa_def)

lemma atoi_itoa: "is_int64 i \<Longrightarrow> atoi (itoa i) = Inr i"
proof (cases "i < 0")
  case True
  assume "is_int64 i"
  with True show ?thesis
    using nat_digits_is_digit by (simp add: itoa_def atoi_digits_def)
next
  case False
  assume i: "is_int64 i"
  obtain c cs where cs: "nat_digits (nat i) = c # cs"
    by (cases "nat_digits (nat i)") simp_all
  have "is_digit c" using hd_nat_digits_is_digit [of "nat i"] cs by simp
  then have "c \<noteq> CHR ''-''" "c \<noteq> CHR ''+''" using not_is_digit by auto
  moreover have "atoi_digits False (nat_digits (nat i)) = Inr i"
    using False i nat_digits_is_digit by (simp add: atoi_digits_def)
  ultimately show ?thesis using False by (simp add: itoa_def cs)
qed

section \<open>Strings\<close>

definition has_prefix :: "string \<Rightarrow> string \<Rightarrow> bool" where
  "has_prefix s p \<longleftrightarrow> take (length p) s = p"

definition has_suffix :: "string \<Rightarrow> string \<Rightarrow> bool" where
  "has_suffix s p \<longleftrightarrow> length p \<le> length s \<and> drop (length s - length p) s = p"

lemma has_prefix_iff [go_str]: "has_prefix s p \<longleftrightarrow> (\<exists>t. s = p @ t)"
  unfolding has_prefix_def by (metis append_eq_conv_conj append_take_drop_id)

lemma has_suffix_iff [go_str]: "has_suffix s p \<longleftrightarrow> (\<exists>t. s = t @ p)"
proof
  assume "has_suffix s p"
  then have "s = take (length s - length p) s @ p"
    unfolding has_suffix_def by (metis append_take_drop_id)
  then show "\<exists>t. s = t @ p" by blast
qed (auto simp: has_suffix_def)

text \<open>\<^verbatim>\<open>strings.Cut\<close>, \<^verbatim>\<open>strings.Split\<close> and \<^verbatim>\<open>strings.SplitN\<close> at a separator of one byte.\<close>

fun str_cut :: "char \<Rightarrow> string \<Rightarrow> (string \<times> string) option" where
  "str_cut c [] = None"
| "str_cut c (x # xs) =
     (if x = c then Some ([], xs)
      else map_option (\<lambda>(l, r). (x # l, r)) (str_cut c xs))"

fun str_splitN :: "nat \<Rightarrow> char \<Rightarrow> string \<Rightarrow> string list" where
  "str_splitN 0 c s = []"
| "str_splitN (Suc 0) c s = [s]"
| "str_splitN (Suc (Suc n)) c s =
     (case str_cut c s of None \<Rightarrow> [s] | Some (l, r) \<Rightarrow> l # str_splitN (Suc n) c r)"

fun str_split :: "char \<Rightarrow> string \<Rightarrow> string list" where
  "str_split c [] = [[]]"
| "str_split c (x # xs) =
     (if x = c then [] # str_split c xs
      else (case str_split c xs of [] \<Rightarrow> [[x]] | w # ws \<Rightarrow> (x # w) # ws))"

fun str_join :: "string \<Rightarrow> string list \<Rightarrow> string" where
  "str_join sep [] = []"
| "str_join sep [w] = w"
| "str_join sep (w # v # ws) = w @ sep @ str_join sep (v # ws)"

lemma str_cut_None [go_str]: "str_cut c s = None \<longleftrightarrow> c \<notin> set s"
  by (induction s) auto

lemma str_cut_Some [go_str]: "str_cut c s = Some (l, r) \<longleftrightarrow> s = l @ c # r \<and> c \<notin> set l"
proof (induction s arbitrary: l)
  case (Cons x xs)
  then show ?case by (cases l) auto
qed simp

lemma str_split_neq_Nil [simp]: "str_split c s \<noteq> []"
  by (induction s) (auto split: list.splits)

lemma str_split_words: "w \<in> set (str_split c s) \<Longrightarrow> c \<notin> set w"
  by (induction s arbitrary: w) (auto split: list.splits if_splits)

lemma str_join_Cons: "ws \<noteq> [] \<Longrightarrow> str_join sep (w # ws) = w @ sep @ str_join sep ws"
  by (cases ws) auto

lemma str_join_str_split [go_str]: "str_join [c] (str_split c s) = s"
proof (induction s)
  case (Cons x xs)
  obtain w ws where w: "str_split c xs = w # ws"
    by (cases "str_split c xs") auto
  show ?case
  proof (cases "x = c")
    case True
    with Cons show ?thesis by (simp add: str_join_Cons)
  next
    case False
    with Cons w show ?thesis by (cases ws) auto
  qed
qed simp

lemma str_split_append_sep:
  "c \<notin> set l \<Longrightarrow> str_split c (l @ c # r) = l # str_split c r"
  by (induction l) auto

lemma str_split_no_sep: "c \<notin> set l \<Longrightarrow> str_split c l = [l]"
  by (induction l) auto

lemma str_split_str_join [go_str]:
  "ws \<noteq> [] \<Longrightarrow> \<forall>w \<in> set ws. c \<notin> set w \<Longrightarrow> str_split c (str_join [c] ws) = ws"
proof (induction ws)
  case (Cons w ws)
  then show ?case
    by (cases ws) (simp_all add: str_split_append_sep str_split_no_sep)
qed simp

text \<open>\<^verbatim>\<open>strings.TrimSpace\<close>: the UTF-8 encodings of the code points that
  \<^verbatim>\<open>unicode.IsSpace\<close> accepts, removed from both ends as long as there is one.\<close>

definition space_encodings :: "string list" where
  "space_encodings =
     [[CHR 0x09], [CHR 0x0A], [CHR 0x0B], [CHR 0x0C], [CHR 0x0D], [CHR 0x20],
      [CHR 0xC2, CHR 0x85], [CHR 0xC2, CHR 0xA0], [CHR 0xE1, CHR 0x9A, CHR 0x80],
      [CHR 0xE2, CHR 0x80, CHR 0x80], [CHR 0xE2, CHR 0x80, CHR 0x81],
      [CHR 0xE2, CHR 0x80, CHR 0x82], [CHR 0xE2, CHR 0x80, CHR 0x83],
      [CHR 0xE2, CHR 0x80, CHR 0x84], [CHR 0xE2, CHR 0x80, CHR 0x85],
      [CHR 0xE2, CHR 0x80, CHR 0x86], [CHR 0xE2, CHR 0x80, CHR 0x87],
      [CHR 0xE2, CHR 0x80, CHR 0x88], [CHR 0xE2, CHR 0x80, CHR 0x89],
      [CHR 0xE2, CHR 0x80, CHR 0x8A], [CHR 0xE2, CHR 0x80, CHR 0xA8],
      [CHR 0xE2, CHR 0x80, CHR 0xA9], [CHR 0xE2, CHR 0x80, CHR 0xAF],
      [CHR 0xE2, CHR 0x81, CHR 0x9F], [CHR 0xE3, CHR 0x80, CHR 0x80]]"

definition strip_left1 :: "string list \<Rightarrow> string \<Rightarrow> string option" where
  "strip_left1 ps s =
     map_option (\<lambda>p. drop (length p) s) (find (\<lambda>p. p \<noteq> [] \<and> has_prefix s p) ps)"

lemma strip_left1_shorter: "strip_left1 ps s = Some t \<Longrightarrow> length t < length s"
  by (auto simp: strip_left1_def has_prefix_iff find_Some_iff)

function strip_left :: "string list \<Rightarrow> string \<Rightarrow> string" where
  "strip_left ps s = (case strip_left1 ps s of None \<Rightarrow> s | Some t \<Rightarrow> strip_left ps t)"
  by pat_completeness auto
termination
  by (relation "measure (\<lambda>(ps, s). length s)") (auto simp: strip_left1_shorter)

declare strip_left.simps [simp del]

text \<open>Trimming at the right end is trimming the reversed string with reversed encodings.\<close>

definition strip_right :: "string list \<Rightarrow> string \<Rightarrow> string" where
  "strip_right ps s = rev (strip_left (map rev ps) (rev s))"

definition trim_space :: "string \<Rightarrow> string" where
  "trim_space s = strip_right space_encodings (strip_left space_encodings s)"

lemma strip_left1_None:
  "strip_left1 ps s = None \<longleftrightarrow> (\<forall>p \<in> set ps. p \<noteq> [] \<longrightarrow> \<not> has_prefix s p)"
  by (auto simp: strip_left1_def find_None_iff)

lemma strip_left_fix: "strip_left1 ps s = None \<Longrightarrow> strip_left ps s = s"
  by (subst strip_left.simps) simp

lemma strip_left_done: "strip_left1 ps (strip_left ps s) = None"
proof (induction ps s rule: strip_left.induct)
  case (1 ps s)
  then show ?case
    by (cases "strip_left1 ps s") (simp_all add: strip_left.simps [of ps s])
qed

lemma strip_left_suffix: "\<exists>t. s = t @ strip_left ps s"
proof (induction ps s rule: strip_left.induct)
  case (1 ps s)
  show ?case
  proof (cases "strip_left1 ps s")
    case None
    then show ?thesis by (simp add: strip_left_fix)
  next
    case (Some u)
    with 1 obtain t where "u = t @ strip_left ps u" by blast
    moreover obtain p where "s = p @ u"
      using Some by (auto simp: strip_left1_def has_prefix_iff find_Some_iff)
    ultimately have "s = (p @ t) @ strip_left ps u" by simp
    with Some show ?thesis by (subst strip_left.simps) auto
  qed
qed

lemma strip_right_prefix: "\<exists>t. s = strip_right ps s @ t"
proof -
  obtain t where "rev s = t @ strip_left (map rev ps) (rev s)"
    using strip_left_suffix by blast
  then have "s = rev (strip_left (map rev ps) (rev s)) @ rev t"
    by (metis rev_append rev_rev_ident)
  then show ?thesis unfolding strip_right_def by blast
qed

lemma trim_space_Nil [simp]: "trim_space [] = []"
  using strip_left_suffix [of "[]" space_encodings] strip_right_prefix [of "[]" space_encodings]
  by (simp add: trim_space_def)

lemma strip_left_strip_right:
  "strip_left1 ps s = None \<Longrightarrow> strip_left ps (strip_right qs s) = strip_right qs s"
  using strip_right_prefix [of s qs]
  by (intro strip_left_fix) (fastforce simp: strip_left1_None has_prefix_iff)

lemma strip_right_idem [simp]: "strip_right ps (strip_right ps s) = strip_right ps s"
  by (simp add: strip_right_def strip_left_fix strip_left_done)

theorem trim_space_idem [simp]: "trim_space (trim_space s) = trim_space s"
  by (simp add: trim_space_def strip_left_strip_right strip_left_done)

section \<open>Go maps as association lists\<close>

text \<open>\<^verbatim>\<open>m[k] = v\<close> is \<^term>\<open>AList.update k v m\<close>; \<^verbatim>\<open>v, ok := m[k]\<close> is \<^term>\<open>map_of m k\<close>; a map
  value is well formed when its keys are distinct.\<close>

type_synonym 'v gomap = "(string \<times> 'v) list"

abbreviation wf_gomap :: "'v gomap \<Rightarrow> bool" where
  "wf_gomap m \<equiv> distinct (map fst m)"

definition gomap_get :: "'v \<Rightarrow> 'v gomap \<Rightarrow> string \<Rightarrow> 'v" where
  "gomap_get z m k = (case map_of m k of None \<Rightarrow> z | Some v \<Rightarrow> v)"

lemma map_of_update [go_map, simp]: "map_of (AList.update k v m) = (map_of m)(k \<mapsto> v)"
  by (rule update_conv')

lemma wf_gomap_update [go_map, simp]: "wf_gomap m \<Longrightarrow> wf_gomap (AList.update k v m)"
  by (rule distinct_update)

lemma gomap_get_update [go_map, simp]:
  "gomap_get z (AList.update k v m) k' = (if k' = k then v else gomap_get z m k')"
  by (simp add: gomap_get_def)

lemma gomap_get_Nil [simp]: "gomap_get z [] k = z"
  by (simp add: gomap_get_def)

lemma update_notin: "k \<notin> fst ` set m \<Longrightarrow> AList.update k v m = m @ [(k, v)]"
  by (induction m) auto

lemma update_split:
  "k \<notin> fst ` set m1 \<Longrightarrow>
   AList.update k v (m1 @ (k, w) # m2) = m1 @ (k, v) # m2"
  by (induction m1) auto

lemma gomap_split:
  assumes "map_of m k = Some w" "wf_gomap m"
  obtains m1 m2 where "m = m1 @ (k, w) # m2" "k \<notin> fst ` set m1" "k \<notin> fst ` set m2"
proof -
  from assms(1) have "(k, w) \<in> set m" by (rule map_of_SomeD)
  then obtain m1 m2 where m: "m = m1 @ (k, w) # m2" by (auto simp: in_set_conv_decomp)
  from assms(2) m have "k \<notin> fst ` set m1" "k \<notin> fst ` set m2" by auto
  with m that show thesis by blast
qed

lemma gomap_get_map_of:
  "map_of m k = (if k \<in> fst ` set m then Some (gomap_get z m k) else None)"
  by (auto simp: gomap_get_def map_of_eq_None_iff split: option.splits)

lemma sum_list_gomap:
  assumes "wf_gomap m"
  shows "sum_list (map snd m) = (\<Sum>k\<in>fst ` set m. gomap_get 0 m k)"
proof -
  have "sum_list (map snd m) = sum_list (map (gomap_get 0 m \<circ> fst) m)"
    using assms by (intro arg_cong [of _ _ sum_list] map_cong) (auto simp: gomap_get_def)
  also have "\<dots> = sum_list (map (gomap_get 0 m) (map fst m))" by simp
  also have "\<dots> = sum (gomap_get 0 m) (set (map fst m))"
    using assms by (rule sum_list_distinct_conv_sum_set)
  finally show ?thesis by simp
qed

end
