(* ===== verification/Float64.thy ===== *)
theory Float64
  imports Prelude "HOL-Library.Log_Nat"
begin

text \<open>
  The \<^verbatim>\<open>float64\<close> values of the program. A finite value is the rational number it denotes
  (the two zeros are identified); arithmetic rounds the exact result to 53 significant bits,
  to nearest and ties to even. The exponent range is not bounded: the products and quotients
  that kperf forms lie far inside the range of normal numbers. The order of the type is the
  one of \<^verbatim>\<open>sort.Float64s\<close>, which puts NaN first; the comparison operators of the language
  are \<^term>\<open>flt\<close>, \<^term>\<open>fle\<close> and \<^term>\<open>feq\<close>, false whenever an operand is NaN.
\<close>

datatype float64 = NaN | NegInf | Fin rat | PosInf

instantiation float64 :: linorder
begin

fun less_eq_float64 :: "float64 \<Rightarrow> float64 \<Rightarrow> bool" where
  "less_eq_float64 NaN y = True"
| "less_eq_float64 NegInf y = (y \<noteq> NaN)"
| "less_eq_float64 (Fin a) (Fin b) = (a \<le> b)"
| "less_eq_float64 (Fin a) y = (y = PosInf)"
| "less_eq_float64 PosInf y = (y = PosInf)"

definition less_float64 :: "float64 \<Rightarrow> float64 \<Rightarrow> bool" where
  "less_float64 x y = (x \<le> y \<and> \<not> y \<le> x)"

instance
proof
  fix x y z :: float64
  show "x < y \<longleftrightarrow> x \<le> y \<and> \<not> y \<le> x" by (simp add: less_float64_def)
  show "x \<le> x" by (cases x) auto
  show "x \<le> y \<Longrightarrow> y \<le> z \<Longrightarrow> x \<le> z" by (cases x; cases y; cases z) auto
  show "x \<le> y \<Longrightarrow> y \<le> x \<Longrightarrow> x = y" by (cases x; cases y) auto
  show "x \<le> y \<or> y \<le> x" by (cases x; cases y) auto
qed

end

definition flt :: "float64 \<Rightarrow> float64 \<Rightarrow> bool" where
  "flt a b \<longleftrightarrow> a \<noteq> NaN \<and> b \<noteq> NaN \<and> a < b"

definition fle :: "float64 \<Rightarrow> float64 \<Rightarrow> bool" where
  "fle a b \<longleftrightarrow> a \<noteq> NaN \<and> b \<noteq> NaN \<and> a \<le> b"

definition feq :: "float64 \<Rightarrow> float64 \<Rightarrow> bool" where
  "feq a b \<longleftrightarrow> a \<noteq> NaN \<and> a = b"

lemma flt_Fin [simp]: "flt (Fin a) (Fin b) \<longleftrightarrow> a < b"
  by (auto simp: flt_def less_float64_def)

lemma flt_NaN [simp]: "\<not> flt NaN b" "\<not> flt a NaN"
  by (simp_all add: flt_def)

lemma feq_Fin [simp]: "feq (Fin a) (Fin b) \<longleftrightarrow> a = b"
  by (simp add: feq_def)

section \<open>Rounding to 53 bits\<close>

definition pow2 :: "int \<Rightarrow> rat" where
  "pow2 e = (if 0 \<le> e then 2 ^ nat e else 1 / 2 ^ nat (- e))"

text \<open>The binary exponent of a positive rational.\<close>

definition ilog2 :: "rat \<Rightarrow> int" where
  "ilog2 x =
     (let (n, d) = quotient_of x; k = bitlen n - bitlen d
      in if x < pow2 k then k - 1 else k)"

definition round_half_even :: "rat \<Rightarrow> int" where
  "round_half_even q =
     (let f = \<lfloor>q\<rfloor>; r = q - of_int f
      in if r < 1 / 2 then f else if 1 / 2 < r then f + 1 else if even f then f else f + 1)"

definition ulp :: "rat \<Rightarrow> rat" where
  "ulp x = pow2 (ilog2 x - 52)"

definition fl_pos :: "rat \<Rightarrow> rat" where
  "fl_pos x = of_int (round_half_even (x / ulp x)) * ulp x"

definition fl :: "rat \<Rightarrow> rat" where
  "fl x = (if x = 0 then 0 else if 0 < x then fl_pos x else - fl_pos (- x))"

fun float_mul :: "float64 \<Rightarrow> float64 \<Rightarrow> float64" where
  "float_mul (Fin a) (Fin b) = Fin (fl (a * b))"
| "float_mul NaN b = NaN"
| "float_mul a NaN = NaN"
| "float_mul (Fin a) b = (if a = 0 then NaN else if 0 < a then b else if b = PosInf then NegInf else PosInf)"
| "float_mul a (Fin b) = (if b = 0 then NaN else if 0 < b then a else if a = PosInf then NegInf else PosInf)"
| "float_mul a b = (if a = b then PosInf else NegInf)"

definition float_of_int :: "int \<Rightarrow> float64" where
  "float_of_int i = Fin (fl (of_int i))"

lemma pow2_pos [simp]: "0 < pow2 e"
  by (simp add: pow2_def)

lemma pow2_eq_powi: "pow2 e = 2 powi e"
  by (simp add: pow2_def power_int_def inverse_eq_divide power_one_over)

lemma pow2_add: "pow2 (a + b) = pow2 a * pow2 b"
  by (simp add: pow2_eq_powi power_int_add)

lemma pow2_diff: "pow2 (a - b) = pow2 a / pow2 b"
  by (simp add: pow2_eq_powi power_int_diff)

lemma pow2_mono: "a \<le> b \<Longrightarrow> pow2 a \<le> pow2 b"
  by (simp add: pow2_eq_powi power_int_increasing)

lemma pow2_less_cancel: "pow2 a < pow2 b \<longleftrightarrow> a < b"
proof
  show "pow2 a < pow2 b \<Longrightarrow> a < b"
    using pow2_mono [of b a] by linarith
  show "a < b \<Longrightarrow> pow2 a < pow2 b"
    by (simp add: pow2_eq_powi power_int_strict_increasing)
qed

lemma bitlen_bounds_rat:
  assumes "0 < n"
  shows "pow2 (bitlen n - 1) \<le> of_int n" "of_int n < pow2 (bitlen n)"
proof -
  have b: "2 ^ nat (bitlen n - 1) \<le> n" "n < 2 ^ nat (bitlen n)"
    using bitlen_bounds [OF assms] by auto
  have "(2::rat) ^ nat (bitlen n - 1) \<le> of_int n"
    using b(1) by (metis of_int_le_iff of_int_numeral of_int_power)
  moreover have "of_int n < (2::rat) ^ nat (bitlen n)"
    using b(2) by (metis of_int_less_iff of_int_numeral of_int_power)
  moreover have "1 \<le> bitlen n" 
    using assms bitlen_nonneg [of n] bitlen_eq_zero_iff [of n] by linarith
  ultimately show "pow2 (bitlen n - 1) \<le> of_int n" "of_int n < pow2 (bitlen n)"
    by (simp_all add: pow2_def)
qed

lemma ilog2_bounds:
  assumes "0 < x"
  shows "pow2 (ilog2 x) \<le> x" "x < pow2 (ilog2 x + 1)"
proof -
  obtain n d where q: "quotient_of x = (n, d)" by (cases "quotient_of x")
  have x: "x = of_int n / of_int d" using quotient_of_div [OF q] .
  have d: "0 < d" using quotient_of_denom_pos [OF q] .
  have n: "0 < n" using assms d x by (simp add: zero_less_divide_iff)
  define k where "k = bitlen n - bitlen d"
  note bn = bitlen_bounds_rat [OF n] and bd = bitlen_bounds_rat [OF d]
  have dpos: "(0::rat) < of_int d" using d by simp
  have "pow2 (k - 1) * of_int d \<le> pow2 (k - 1) * pow2 (bitlen d)"
    using bd(2) by (intro mult_left_mono) (auto intro: less_imp_le)
  also have "\<dots> = pow2 (bitlen n - 1)" by (simp add: k_def flip: pow2_add)
  finally have lo: "pow2 (k - 1) \<le> x" using bn(1) dpos by (simp add: x pos_le_divide_eq)
  have "of_int n < pow2 (k + 1) * pow2 (bitlen d - 1)"
    using bn(2) by (simp add: k_def flip: pow2_add)
  also have "\<dots> \<le> pow2 (k + 1) * of_int d" using bd(1) by (intro mult_left_mono) (auto intro: less_imp_le)
  finally have hi: "x < pow2 (k + 1)" using dpos by (simp add: x pos_divide_less_eq)
  have "ilog2 x = (if x < pow2 k then k - 1 else k)"
    by (simp add: ilog2_def q k_def)
  then show "pow2 (ilog2 x) \<le> x" "x < pow2 (ilog2 x + 1)" using lo hi by auto
qed

lemma ulp_pos [simp]: "0 < ulp x"
  by (simp add: ulp_def)

lemma ulp_nonzero [simp]: "ulp x \<noteq> 0"
  using ulp_pos [of x] by linarith

lemma ulp_bounds:
  assumes "0 < x"
  shows "2 ^ 52 * ulp x \<le> x" "x < 2 ^ 53 * ulp x"
proof -
  have e: "(2::rat) ^ 52 = pow2 52" "(2::rat) ^ 53 = pow2 53" by (simp_all add: pow2_def)
  show "2 ^ 52 * ulp x \<le> x" "x < 2 ^ 53 * ulp x"
    using ilog2_bounds [OF assms] unfolding ulp_def e by (simp_all flip: pow2_add add: ac_simps)
qed

lemma round_half_even_near:
  "\<bar>of_int (round_half_even q) - q\<bar> \<le> 1 / 2"
  using floor_correct [of q] by (auto simp: round_half_even_def Let_def)

lemma round_half_even_eq: "\<bar>q - of_int k\<bar> < 1 / 2 \<Longrightarrow> round_half_even q = k"
  using round_half_even_near [of q] by linarith

lemma round_half_even_gt: "of_int a + 1 / 2 < q \<Longrightarrow> a < round_half_even q"
  using round_half_even_near [of q] by linarith

lemma round_half_even_le: "q \<le> of_int b \<Longrightarrow> round_half_even q \<le> b"
  using floor_correct [of q] unfolding round_half_even_def Let_def
  by (simp split: if_splits) linarith+

lemma fl_grid_eq:
  assumes "0 < x" "\<bar>x - of_int a * ulp x\<bar> < ulp x / 2"
  shows "fl x = of_int a * ulp x"
proof -
  have "x / ulp x - of_int a = (x - of_int a * ulp x) / ulp x"
    by (simp add: diff_divide_distrib)
  then have "\<bar>x / ulp x - of_int a\<bar> = \<bar>x - of_int a * ulp x\<bar> / ulp x"
    using ulp_pos [of x] by (simp only: abs_divide abs_of_pos)
  also have "\<dots> < 1 / 2" using assms(2) by (simp add: pos_divide_less_eq)
  finally have "round_half_even (x / ulp x) = a" by (rule round_half_even_eq)
  with assms(1) show ?thesis by (simp add: fl_def fl_pos_def)
qed

lemma fl_grid_gt:
  assumes "0 < x" "of_int a * ulp x + ulp x / 2 < x"
  shows "of_int a * ulp x < fl x"
proof -
  have "(of_int a + 1 / 2) * ulp x < x" using assms(2) by (simp add: algebra_simps)
  then have "of_int a + 1 / 2 < x / ulp x" by (simp add: pos_less_divide_eq)
  then have "a < round_half_even (x / ulp x)" by (rule round_half_even_gt)
  with assms(1) show ?thesis by (simp add: fl_def fl_pos_def)
qed

lemma fl_grid_le:
  assumes "0 < x" "x \<le> of_int a * ulp x"
  shows "fl x \<le> of_int a * ulp x"
proof -
  have "x / ulp x \<le> of_int a" using assms(2) by (simp add: pos_divide_le_eq)
  then have "round_half_even (x / ulp x) \<le> a" by (rule round_half_even_le)
  with assms(1) show ?thesis by (simp add: fl_def fl_pos_def)
qed


text \<open>Integers are multiples of the unit in the last place of every number below
  \<open>2 ^ 53\<close>.\<close>

lemma int_on_grid:
  assumes "0 < x" "x < 2 ^ 53"
  shows "\<exists>a. of_int k = of_int a * ulp x"
proof -
  have "pow2 (ilog2 x) < pow2 53"
    using ilog2_bounds(1) [OF assms(1)] assms(2) by (simp add: pow2_def [of 53])
  then have "ilog2 x - 52 \<le> 0" by (simp add: pow2_less_cancel)
  then obtain m where m: "ilog2 x - 52 = - int m"
    by (metis nonneg_int_cases neg_0_le_iff_le minus_minus)
  have "ulp x * 2 ^ m = 1" by (cases m) (simp_all add: ulp_def m pow2_def nat_add_distrib)
  then have "of_int k = of_int (k * 2 ^ m) * ulp x" by (simp add: ac_simps)
  then show ?thesis by blast
qed

lemma fl_int: "0 < n \<Longrightarrow> n < 2 ^ 53 \<Longrightarrow> fl (of_int n) = of_int n"
proof -
  assume n: "0 < n" "n < 2 ^ 53"
  then have r: "(0::rat) < of_int n" "of_int n < (2::rat) ^ 53"
    by (simp, metis of_int_less_iff of_int_numeral of_int_power)
  obtain a where "of_int n = of_int a * ulp (of_int n)" using int_on_grid [OF r] by blast
  then show ?thesis using fl_grid_eq [OF r(1), of a] by simp
qed

text \<open>
  A count times a percentile: when the percentile is within a small relative error of a
  number of hundredths, the ceiling of the rounded product is the ceiling of the exact one.
\<close>

lemma ceiling_fl_mult:
  fixes n a :: int and p :: rat
  assumes n: "0 < n" "n < 2 ^ 40"
    and a: "0 < a" "a \<le> 100"
    and p: "0 < p" "\<bar>p - of_int a / 100\<bar> * 2 ^ 54 < p" "\<bar>p - of_int a / 100\<bar> \<le> 1 / 2 ^ 54"
  shows "\<lceil>fl (of_int n * p)\<rceil> = \<lceil>(of_int (n * a) / 100 :: rat)\<rceil>"
proof -
  define q :: rat where "q = of_int a / 100"
  define x where "x = of_int n * p"
  define y where "y = of_int n * q"
  have nr: "(0::rat) < of_int n" "of_int n < (2::rat) ^ 40"
    using n by (simp, metis of_int_less_iff of_int_numeral of_int_power)
  have x0: "0 < x" using nr p by (simp add: x_def)
  have dist: "\<bar>x - y\<bar> = of_int n * \<bar>p - q\<bar>"
    using nr by (simp add: x_def y_def abs_mult flip: right_diff_distrib)
  have "of_int n * \<bar>p - q\<bar> * 2 ^ 54 < of_int n * p"
    using p(2) nr by (simp add: q_def)
  with dist have "\<bar>x - y\<bar> * 2 ^ 54 < x" by (simp add: x_def)
  with ulp_bounds(2) [OF x0] have near: "\<bar>x - y\<bar> < ulp x / 2" by simp
  have "of_int n * \<bar>p - q\<bar> \<le> 2 ^ 40 * (1 / 2 ^ 54)"
    using nr p(3) by (intro mult_mono) (auto simp: q_def)
  with dist have far: "\<bar>x - y\<bar> \<le> 1 / 2 ^ 14" by simp
  have "y \<le> of_int n" using nr a by (simp add: y_def q_def)
  moreover have "x - y \<le> \<bar>x - y\<bar>" by simp
  ultimately have "x < 2 ^ 40 + 1 / 2 ^ 14" using far nr(2) by linarith
  also have "\<dots> \<le> (2::rat) ^ 41" by simp
  finally have xb: "x < 2 ^ 41" .
  then have x53: "x < 2 ^ 53" by simp
  have ulpb: "ulp x < 1 / 2 ^ 11" using ulp_bounds(1) [OF x0] xb by simp
  have yint: "y * 100 = of_int (n * a)" by (simp add: y_def q_def)
  define c where "c = \<lceil>y\<rceil>"
  have c: "of_int c - 1 < y" "y \<le> of_int c" unfolding c_def by linarith+
  have "\<lceil>fl x\<rceil> = c"
  proof (cases "y = of_int c")
    case True
    obtain k where k: "of_int c = of_int k * ulp x" using int_on_grid [OF x0 x53] by blast
    have "fl x = of_int c" using fl_grid_eq [OF x0, of k] near True k by simp
    then show ?thesis by simp
  next
    case False
    with c have "of_int (100 * (c - 1)) < y * 100" "y * 100 < of_int (100 * c)" by auto
    then have "100 * (c - 1) < n * a" "n * a < 100 * c" by (simp_all only: yint of_int_less_iff)
    then have "of_int (100 * (c - 1) + 1) \<le> y * 100" "y * 100 \<le> of_int (100 * c - 1)"
      by (simp_all only: yint of_int_le_iff)
    then have y: "of_int (c - 1) + 1 / 100 \<le> y" "y \<le> of_int c - 1 / 100" by simp_all
    obtain k where k: "of_int (c - 1) = of_int k * ulp x" using int_on_grid [OF x0 x53] by blast
    obtain m where m: "of_int c = of_int m * ulp x" using int_on_grid [OF x0 x53] by blast
    have d: "x - y \<le> 1 / 16384" "y - x \<le> 1 / 16384" and u: "ulp x < 1 / 2048"
      using far ulpb by (simp_all only: abs_le_iff) (simp_all add: field_simps)
    have "of_int (c - 1) + ulp x / 2 < x" using y(1) d(2) u by linarith
    then have "of_int (c - 1) < fl x" using fl_grid_gt [OF x0, of k] k by simp
    moreover have "x \<le> of_int c" using y(2) d(1) by linarith
    then have "fl x \<le> of_int c" using fl_grid_le [OF x0, of m] m by simp
    ultimately show ?thesis by (simp add: ceiling_eq_iff)
  qed
  then show ?thesis by (simp add: x_def c_def y_def q_def)
qed

end
