(* ===== verification/Json.thy ===== *)
theory Json
  imports Prelude
begin

text \<open>
  The validator \<^verbatim>\<open>json.Valid\<close> of Go's standard library, which
  \<^verbatim>\<open>RequestPatch.Validate\<close> (\<^verbatim>\<open>api/types/load_traffic.go\<close>) applies to a patch body. As in
  \<^verbatim>\<open>encoding/json\<close> it is a scanner with a stack of the enclosing objects and arrays: one
  step per byte, no lookahead, and a bound on the nesting depth.
\<close>

datatype parse_state = ParseObjectKey | ParseObjectValue | ParseArrayValue

datatype scan_state =
  BeginValue | BeginValueOrEmpty | BeginString | BeginStringOrEmpty | EndValue | EndTop
| InString | InStringEsc | InStringEscU nat
| Neg | Num1 | Num0 | Dot | Dot0 | Exp | ExpSign | Exp0
| Literal string

definition maxNestingDepth :: nat where
  "maxNestingDepth = 10000"

definition json_space :: "char \<Rightarrow> bool" where
  "json_space c \<longleftrightarrow> c \<in> {CHR '' '', CHR 0x09, CHR 0x0D, CHR 0x0A}"

definition is_hex_digit :: "char \<Rightarrow> bool" where
  "is_hex_digit c \<longleftrightarrow>
     is_digit c \<or> (97 \<le> (of_char c :: nat) \<and> (of_char c :: nat) \<le> 102)
       \<or> (65 \<le> (of_char c :: nat) \<and> (of_char c :: nat) \<le> 70)"

type_synonym scanner = "scan_state \<times> parse_state list"

definition push_state :: "scan_state \<Rightarrow> parse_state \<Rightarrow> parse_state list \<Rightarrow> scanner option" where
  "push_state s p ps = (if length ps < maxNestingDepth then Some (s, p # ps) else None)"

definition pop_state :: "parse_state list \<Rightarrow> scanner" where
  "pop_state ps = (if tl ps = [] then EndTop else EndValue, tl ps)"

definition step_EndTop :: "char \<Rightarrow> scanner option" where
  "step_EndTop c = (if json_space c then Some (EndTop, []) else None)"

fun step_EndValue :: "parse_state list \<Rightarrow> char \<Rightarrow> scanner option" where
  "step_EndValue [] c = step_EndTop c"
| "step_EndValue (p # ps) c =
     (if json_space c then Some (EndValue, p # ps)
      else case p of
        ParseObjectKey \<Rightarrow>
          if c = CHR '':'' then Some (BeginValue, ParseObjectValue # ps) else None
      | ParseObjectValue \<Rightarrow>
          if c = CHR '','' then Some (BeginString, ParseObjectKey # ps)
          else if c = CHR ''}'' then Some (pop_state (p # ps)) else None
      | ParseArrayValue \<Rightarrow>
          if c = CHR '','' then Some (BeginValue, p # ps)
          else if c = CHR '']'' then Some (pop_state (p # ps)) else None)"

definition step_BeginValue :: "scan_state \<Rightarrow> parse_state list \<Rightarrow> char \<Rightarrow> scanner option" where
  "step_BeginValue s ps c =
     (if json_space c then Some (s, ps)
      else if c = CHR ''{'' then push_state BeginStringOrEmpty ParseObjectKey ps
      else if c = CHR ''['' then push_state BeginValueOrEmpty ParseArrayValue ps
      else if c = CHR 0x22 then Some (InString, ps)
      else if c = CHR ''-'' then Some (Neg, ps)
      else if c = CHR ''0'' then Some (Num0, ps)
      else if is_digit c then Some (Num1, ps)
      else if c = CHR ''t'' then Some (Literal ''rue'', ps)
      else if c = CHR ''f'' then Some (Literal ''alse'', ps)
      else if c = CHR ''n'' then Some (Literal ''ull'', ps)
      else None)"

definition step_BeginString :: "scan_state \<Rightarrow> parse_state list \<Rightarrow> char \<Rightarrow> scanner option" where
  "step_BeginString s ps c =
     (if json_space c then Some (s, ps)
      else if c = CHR 0x22 then Some (InString, ps) else None)"

definition step_Num0 :: "parse_state list \<Rightarrow> char \<Rightarrow> scanner option" where
  "step_Num0 ps c =
     (if c = CHR ''.'' then Some (Dot, ps)
      else if c = CHR ''e'' \<or> c = CHR ''E'' then Some (Exp, ps)
      else step_EndValue ps c)"

definition step_ExpSign :: "parse_state list \<Rightarrow> char \<Rightarrow> scanner option" where
  "step_ExpSign ps c = (if is_digit c then Some (Exp0, ps) else None)"

fun json_step :: "scanner \<Rightarrow> char \<Rightarrow> scanner option" where
  "json_step (BeginValue, ps) c = step_BeginValue BeginValue ps c"
| "json_step (BeginValueOrEmpty, ps) c =
     (if c = CHR '']'' then step_EndValue ps c else step_BeginValue BeginValueOrEmpty ps c)"
| "json_step (BeginString, ps) c = step_BeginString BeginString ps c"
| "json_step (BeginStringOrEmpty, ps) c =
     (if c = CHR ''}'' then step_EndValue (ParseObjectValue # tl ps) c
      else step_BeginString BeginStringOrEmpty ps c)"
| "json_step (EndValue, ps) c = step_EndValue ps c"
| "json_step (EndTop, ps) c = step_EndTop c"
| "json_step (InString, ps) c =
     (if c = CHR 0x22 then Some (EndValue, ps)
      else if c = CHR 0x5C then Some (InStringEsc, ps)
      else if (of_char c :: nat) < 32 then None
      else Some (InString, ps))"
| "json_step (InStringEsc, ps) c =
     (if c \<in> {CHR ''b'', CHR ''f'', CHR ''n'', CHR ''r'', CHR ''t'', CHR 0x5C, CHR ''/'', CHR 0x22}
      then Some (InString, ps)
      else if c = CHR ''u'' then Some (InStringEscU 3, ps) else None)"
| "json_step (InStringEscU n, ps) c =
     (if is_hex_digit c
      then Some (if n = 0 then InString else InStringEscU (n - 1), ps) else None)"
| "json_step (Neg, ps) c =
     (if c = CHR ''0'' then Some (Num0, ps)
      else if is_digit c then Some (Num1, ps) else None)"
| "json_step (Num1, ps) c = (if is_digit c then Some (Num1, ps) else step_Num0 ps c)"
| "json_step (Num0, ps) c = step_Num0 ps c"
| "json_step (Dot, ps) c = (if is_digit c then Some (Dot0, ps) else None)"
| "json_step (Dot0, ps) c =
     (if is_digit c then Some (Dot0, ps)
      else if c = CHR ''e'' \<or> c = CHR ''E'' then Some (Exp, ps)
      else step_EndValue ps c)"
| "json_step (Exp, ps) c =
     (if c = CHR ''+'' \<or> c = CHR ''-'' then Some (ExpSign, ps) else step_ExpSign ps c)"
| "json_step (ExpSign, ps) c = step_ExpSign ps c"
| "json_step (Exp0, ps) c = (if is_digit c then Some (Exp0, ps) else step_EndValue ps c)"
| "json_step (Literal cs, ps) c =
     (case cs of
        [] \<Rightarrow> None
      | x # xs \<Rightarrow>
          if c \<noteq> x then None
          else Some (if xs = [] then EndValue else Literal xs, ps))"

fun json_run :: "scanner \<Rightarrow> string \<Rightarrow> scanner option" where
  "json_run s [] = Some s"
| "json_run s (c # cs) = (case json_step s c of None \<Rightarrow> None | Some s' \<Rightarrow> json_run s' cs)"

text \<open>At the end of the input the scanner takes one more step on a space, which ends a number
  at the top level.\<close>

definition json_eof :: "scanner \<Rightarrow> bool" where
  "json_eof s \<longleftrightarrow>
     fst s = EndTop \<or> (case json_step s CHR '' '' of None \<Rightarrow> False | Some s' \<Rightarrow> fst s' = EndTop)"

definition json_valid :: "string \<Rightarrow> bool" where
  "json_valid s \<longleftrightarrow> (case json_run (BeginValue, []) s of None \<Rightarrow> False | Some st \<Rightarrow> json_eof st)"

text \<open>Spot checks of the scanner.\<close>

lemma json_valid_examples: "json_valid ''[{}]''" "\<not> json_valid ''[,]''" "\<not> json_valid ''{a}''"
  by code_simp+

lemma not_json_valid_Nil [simp]: "\<not> json_valid []"
  by code_simp

end
