(* ===== verification/Types.thy ===== *)
theory Types
  imports Float64 Json
begin

text \<open>
  The load profile of \<^verbatim>\<open>api/types/load_traffic.go\<close>: its structs, and the \<^verbatim>\<open>Validate\<close>
  methods. Struct embedding is record extension; a pointer is an option; the list of
  requests is a list of pointers and so may hold nil, which \<^verbatim>\<open>Validate\<close> dereferences.
  \<^verbatim>\<open>RequestPatch.Validate\<close> stores the trimmed body through its pointer, hence every
  \<open>Validate\<close> on the path to it also returns the value as it is afterwards.
\<close>

section \<open>Data\<close>

type_synonym ContentType = string

abbreviation ContentTypeJSON :: ContentType where "ContentTypeJSON \<equiv> ''json''"
abbreviation ContentTypeProtobuffer :: ContentType where "ContentTypeProtobuffer \<equiv> ''protobuf''"

record KubeGroupVersionResource =
  Group :: string
  Version :: string
  Resource :: string

record RequestGet = KubeGroupVersionResource +
  get_Namespace :: string
  get_Name :: string

record RequestList = KubeGroupVersionResource +
  list_Namespace :: string
  list_Limit :: int
  list_Selector :: string
  list_FieldSelector :: string

record RequestWatchList = KubeGroupVersionResource +
  wl_Namespace :: string
  wl_Selector :: string
  wl_FieldSelector :: string

record RequestPut = KubeGroupVersionResource +
  put_Namespace :: string
  put_Name :: string
  put_KeySpaceSize :: int
  put_PayloadSize :: int

record RequestPatch = KubeGroupVersionResource +
  patch_Namespace :: string
  patch_Name :: string
  patch_KeySpaceSize :: int
  patch_PatchType :: string
  patch_Body :: string

record RequestGetPodLog =
  log_Namespace :: string
  log_Name :: string
  log_Container :: string
  log_TailLines :: "int option"
  log_LimitBytes :: "int option"

record RequestPostDel = KubeGroupVersionResource +
  pd_Namespace :: string
  pd_DeleteRatio :: float64
  pd_PayloadSize :: int

record WeightedRequest =
  Shares :: int
  StaleList :: "RequestList option"
  QuorumList :: "RequestList option"
  WatchList :: "RequestWatchList option"
  StaleGet :: "RequestGet option"
  QuorumGet :: "RequestGet option"
  Put :: "RequestPut option"
  Patch :: "RequestPatch option"
  GetPodLog :: "RequestGetPodLog option"
  PostDel :: "RequestPostDel option"

record LoadProfileSpec =
  Rate :: float64
  Total :: int
  Duration :: int
  Conns :: int
  Client :: int
  spec_ContentType :: ContentType
  DisableHTTP2 :: bool
  MaxRetries :: int
  Requests :: "WeightedRequest option list"

record LoadProfile =
  lp_Version :: int
  Description :: string
  Specs :: "LoadProfileSpec list"

section \<open>Validation\<close>

text \<open>One constructor per \<^verbatim>\<open>fmt.Errorf\<close> of the file, with the values it formats.\<close>

datatype (plugins only: code size) verror =
  VersionShouldBeOne | SpecsMissing | AtSpec nat verror
| ConnsNotPositive int | RateNegative float64 | TotalOrDuration int int | ClientNotPositive int
| UnsupportedContentType string | AtRequest nat verror
| SharesNegative int | EmptyRequest | KubeMetadata verror
| LimitNegative | StalePagination | NameRequired | NamespaceRequired
| PutUnsupported string string string | NamePatternRequired | KeySpaceNotPositive
| PayloadNotPositive | VersionRequired | ResourceRequired
| BodyRequired | UnknownPatchType string | InvalidPatchBody string
| DeleteRatioRange float64 | PayloadNegative int

datatype check = Valid | Invalid verror | NilDereference

definition ContentType_Validate :: "ContentType \<Rightarrow> verror option" where
  "ContentType_Validate ct =
     (if ct = ContentTypeJSON \<or> ct = ContentTypeProtobuffer then None
      else Some (UnsupportedContentType ct))"

definition KGVR_Validate :: "'a KubeGroupVersionResource_scheme \<Rightarrow> verror option" where
  "KGVR_Validate m =
     (if Version m = '''' then Some VersionRequired
      else if Resource m = '''' then Some ResourceRequired
      else None)"

definition kube_metadata ::
  "'a KubeGroupVersionResource_scheme \<Rightarrow> verror option \<Rightarrow> verror option" where
  "kube_metadata m rest = (case KGVR_Validate m of Some e \<Rightarrow> Some (KubeMetadata e) | None \<Rightarrow> rest)"

definition RequestList_Validate :: "bool \<Rightarrow> RequestList \<Rightarrow> verror option" where
  "RequestList_Validate stale r = kube_metadata r
     (if list_Limit r < 0 then Some LimitNegative
      else if stale \<and> list_Limit r \<noteq> 0 then Some StalePagination
      else None)"

definition RequestWatchList_Validate :: "RequestWatchList \<Rightarrow> verror option" where
  "RequestWatchList_Validate r = kube_metadata r None"

definition RequestGet_Validate :: "RequestGet \<Rightarrow> verror option" where
  "RequestGet_Validate r = kube_metadata r (if get_Name r = '''' then Some NameRequired else None)"

definition RequestPut_Validate :: "RequestPut \<Rightarrow> verror option" where
  "RequestPut_Validate r = kube_metadata r
     (if (Group r \<noteq> '''' \<and> Group r \<noteq> ''core'') \<or> Version r \<noteq> ''v1'' \<or> Resource r \<noteq> ''configmaps''
      then Some (PutUnsupported (Group r) (Version r) (Resource r))
      else if put_Name r = '''' then Some NamePatternRequired
      else if put_KeySpaceSize r \<le> 0 then Some KeySpaceNotPositive
      else if put_PayloadSize r \<le> 0 then Some PayloadNotPositive
      else None)"

definition RequestGetPodLog_Validate :: "RequestGetPodLog \<Rightarrow> verror option" where
  "RequestGetPodLog_Validate r =
     (if log_Namespace r = '''' then Some NamespaceRequired
      else if log_Name r = '''' then Some NameRequired
      else None)"

text \<open>The constants of \<^verbatim>\<open>k8s.io/apimachinery/pkg/types\<close> are symbols here; \<open>NoPatchType\<close> is the
  empty string that accompanies \<^verbatim>\<open>false\<close>.\<close>

datatype PatchType = JSONPatchType | MergePatchType | StrategicMergePatchType | NoPatchType

definition GetPatchType :: "string \<Rightarrow> PatchType \<times> bool" where
  "GetPatchType t =
     (if t = ''json'' then (JSONPatchType, True)
      else if t = ''merge'' then (MergePatchType, True)
      else if t = ''strategic-merge'' then (StrategicMergePatchType, True)
      else (NoPatchType, False))"

definition RequestPatch_Validate :: "RequestPatch \<Rightarrow> verror option \<times> RequestPatch" where
  "RequestPatch_Validate r =
     (case KGVR_Validate r of
        Some e \<Rightarrow> (Some (KubeMetadata e), r)
      | None \<Rightarrow>
          if patch_Name r = '''' then (Some NameRequired, r)
          else if patch_Body r = '''' then (Some BodyRequired, r)
          else if \<not> snd (GetPatchType (patch_PatchType r))
          then (Some (UnknownPatchType (patch_PatchType r)), r)
          else let trimmed = trim_space (patch_Body r)
               in if \<not> json_valid trimmed then (Some (InvalidPatchBody (patch_Body r)), r)
                  else (None, r\<lparr>patch_Body := trimmed\<rparr>))"

definition RequestPostDel_Validate :: "RequestPostDel \<Rightarrow> verror option" where
  "RequestPostDel_Validate r = kube_metadata r
     (if flt (pd_DeleteRatio r) (Fin 0) \<or> flt (Fin (1 / 2)) (pd_DeleteRatio r)
      then Some (DeleteRatioRange (pd_DeleteRatio r))
      else if pd_PayloadSize r < 0 then Some (PayloadNegative (pd_PayloadSize r))
      else None)"

definition WeightedRequest_Validate :: "WeightedRequest \<Rightarrow> verror option \<times> WeightedRequest" where
  "WeightedRequest_Validate r =
     (if Shares r < 0 then (Some (SharesNegative (Shares r)), r)
      else case StaleList r of Some q \<Rightarrow> (RequestList_Validate True q, r) | None \<Rightarrow>
        (case QuorumList r of Some q \<Rightarrow> (RequestList_Validate False q, r) | None \<Rightarrow>
        (case WatchList r of Some q \<Rightarrow> (RequestWatchList_Validate q, r) | None \<Rightarrow>
        (case StaleGet r of Some q \<Rightarrow> (RequestGet_Validate q, r) | None \<Rightarrow>
        (case QuorumGet r of Some q \<Rightarrow> (RequestGet_Validate q, r) | None \<Rightarrow>
        (case Put r of Some q \<Rightarrow> (RequestPut_Validate q, r) | None \<Rightarrow>
        (case Patch r of Some q \<Rightarrow>
           (case RequestPatch_Validate q of (e, q') \<Rightarrow> (e, r\<lparr>Patch := Some q'\<rparr>)) | None \<Rightarrow>
        (case GetPodLog r of Some q \<Rightarrow> (RequestGetPodLog_Validate q, r) | None \<Rightarrow>
        (case PostDel r of Some q \<Rightarrow> (RequestPostDel_Validate q, r) | None \<Rightarrow>
           (Some EmptyRequest, r))))))))))"

text \<open>The loop over \<^verbatim>\<open>spec.Requests\<close>.\<close>

fun validate_requests ::
  "nat \<Rightarrow> WeightedRequest option list \<Rightarrow> check \<times> WeightedRequest option list"
where
  "validate_requests idx [] = (Valid, [])"
| "validate_requests idx (None # rs) = (NilDereference, None # rs)"
| "validate_requests idx (Some r # rs) =
     (case WeightedRequest_Validate r of
        (Some e, r') \<Rightarrow> (Invalid (AtRequest idx e), Some r' # rs)
      | (None, r') \<Rightarrow>
          (case validate_requests (Suc idx) rs of (c, rs') \<Rightarrow> (c, Some r' # rs')))"

definition LoadProfileSpec_Validate :: "LoadProfileSpec \<Rightarrow> check \<times> LoadProfileSpec" where
  "LoadProfileSpec_Validate spec =
     (if Conns spec \<le> 0 then (Invalid (ConnsNotPositive (Conns spec)), spec)
      else if flt (Rate spec) (Fin 0) then (Invalid (RateNegative (Rate spec)), spec)
      else if Total spec \<le> 0 \<and> Duration spec \<le> 0
      then (Invalid (TotalOrDuration (Total spec) (Duration spec)), spec)
      else if Client spec \<le> 0 then (Invalid (ClientNotPositive (Client spec)), spec)
      else case ContentType_Validate (spec_ContentType spec) of
        Some e \<Rightarrow> (Invalid e, spec)
      | None \<Rightarrow>
          (case validate_requests 0 (Requests spec) of (c, rs) \<Rightarrow> (c, spec\<lparr>Requests := rs\<rparr>)))"

text \<open>The loop over \<^verbatim>\<open>lp.Specs\<close>.\<close>

fun validate_specs :: "nat \<Rightarrow> LoadProfileSpec list \<Rightarrow> check \<times> LoadProfileSpec list" where
  "validate_specs i [] = (Valid, [])"
| "validate_specs i (s # ss) =
     (case LoadProfileSpec_Validate s of
        (Valid, s') \<Rightarrow> (case validate_specs (Suc i) ss of (c, ss') \<Rightarrow> (c, s' # ss'))
      | (Invalid e, s') \<Rightarrow> (Invalid (AtSpec i e), s' # ss)
      | (NilDereference, s') \<Rightarrow> (NilDereference, s' # ss))"

definition LoadProfile_Validate :: "LoadProfile \<Rightarrow> check \<times> LoadProfile" where
  "LoadProfile_Validate lp =
     (if lp_Version lp \<noteq> 1 then (Invalid VersionShouldBeOne, lp)
      else if Specs lp = [] then (Invalid SpecsMissing, lp)
      else case validate_specs 0 (Specs lp) of (c, ss) \<Rightarrow> (c, lp\<lparr>Specs := ss\<rparr>))"

section \<open>Sample profiles\<close>

definition empty_request :: WeightedRequest where
  "empty_request = \<lparr>Shares = 1, StaleList = None, QuorumList = None, WatchList = None,
     StaleGet = None, QuorumGet = None, Put = None, Patch = None, GetPodLog = None, PostDel = None\<rparr>"

definition sample_get :: "WeightedRequest option" where
  "sample_get = Some (empty_request\<lparr>Shares := 3, StaleGet := Some \<lparr>Group = [], Version = ''v1'',
     Resource = ''pods'', get_Namespace = ''default'', get_Name = ''x1''\<rparr>\<rparr>)"

definition sample_patch :: "string \<Rightarrow> WeightedRequest option" where
  "sample_patch body = Some (empty_request\<lparr>Shares := 1, Patch := Some \<lparr>Group = [], Version = ''v1'',
     Resource = ''configmaps'', patch_Namespace = ''default'', patch_Name = ''cm'',
     patch_KeySpaceSize = 10, patch_PatchType = ''merge'', patch_Body = body\<rparr>\<rparr>)"

definition sample_spec :: "WeightedRequest option list \<Rightarrow> LoadProfileSpec" where
  "sample_spec rs = \<lparr>Rate = Fin 10, Total = 100, Duration = 0, Conns = 2, Client = 4,
     spec_ContentType = ContentTypeJSON, DisableHTTP2 = False, MaxRetries = 0, Requests = rs\<rparr>"

definition sample_profile :: LoadProfile where
  "sample_profile = \<lparr>lp_Version = 1, Description = ''sample'',
     Specs = [sample_spec [sample_get, sample_patch '' [] '']]\<rparr>"

section \<open>What validation accepts\<close>

text \<open>The request that a weighted request stands for, as the switch of
  \<^verbatim>\<open>WeightedRequest.Validate\<close> picks it when several are set.\<close>

datatype (plugins only: code size) request_kind =
  KStaleList RequestList | KQuorumList RequestList | KWatchList RequestWatchList
| KStaleGet RequestGet | KQuorumGet RequestGet | KPut RequestPut | KPatch RequestPatch
| KGetPodLog RequestGetPodLog | KPostDel RequestPostDel

definition set_kinds :: "WeightedRequest \<Rightarrow> request_kind list" where
  "set_kinds r = concat (map (case_option [] (\<lambda>k. [k]))
     [map_option KStaleList (StaleList r), map_option KQuorumList (QuorumList r),
      map_option KWatchList (WatchList r), map_option KStaleGet (StaleGet r),
      map_option KQuorumGet (QuorumGet r), map_option KPut (Put r),
      map_option KPatch (Patch r), map_option KGetPodLog (GetPodLog r),
      map_option KPostDel (PostDel r)])"

definition kgvr_ok :: "'a KubeGroupVersionResource_scheme \<Rightarrow> bool" where
  "kgvr_ok m \<longleftrightarrow> Version m \<noteq> '''' \<and> Resource m \<noteq> ''''"

fun kind_ok :: "request_kind \<Rightarrow> bool" where
  "kind_ok (KStaleList q) \<longleftrightarrow> kgvr_ok q \<and> list_Limit q = 0"
| "kind_ok (KQuorumList q) \<longleftrightarrow> kgvr_ok q \<and> 0 \<le> list_Limit q"
| "kind_ok (KWatchList q) \<longleftrightarrow> kgvr_ok q"
| "kind_ok (KStaleGet q) \<longleftrightarrow> kgvr_ok q \<and> get_Name q \<noteq> ''''"
| "kind_ok (KQuorumGet q) \<longleftrightarrow> kgvr_ok q \<and> get_Name q \<noteq> ''''"
| "kind_ok (KPut q) \<longleftrightarrow>
     Group q \<in> {'''', ''core''} \<and> Version q = ''v1'' \<and> Resource q = ''configmaps'' \<and>
     put_Name q \<noteq> '''' \<and> 0 < put_KeySpaceSize q \<and> 0 < put_PayloadSize q"
| "kind_ok (KPatch q) \<longleftrightarrow>
     kgvr_ok q \<and> patch_Name q \<noteq> '''' \<and>
     patch_PatchType q \<in> {''json'', ''merge'', ''strategic-merge''} \<and>
     json_valid (trim_space (patch_Body q))"
| "kind_ok (KGetPodLog q) \<longleftrightarrow> log_Namespace q \<noteq> '''' \<and> log_Name q \<noteq> ''''"
| "kind_ok (KPostDel q) \<longleftrightarrow>
     kgvr_ok q \<and> \<not> flt (pd_DeleteRatio q) (Fin 0) \<and> \<not> flt (Fin (1 / 2)) (pd_DeleteRatio q) \<and>
     0 \<le> pd_PayloadSize q"

definition request_ok :: "WeightedRequest \<Rightarrow> bool" where
  "request_ok r \<longleftrightarrow> 0 \<le> Shares r \<and> (\<exists>k ks. set_kinds r = k # ks \<and> kind_ok k)"

definition spec_ok :: "LoadProfileSpec \<Rightarrow> bool" where
  "spec_ok s \<longleftrightarrow>
     0 < Conns s \<and> \<not> flt (Rate s) (Fin 0) \<and> (0 < Total s \<or> 0 < Duration s) \<and> 0 < Client s \<and>
     spec_ContentType s \<in> {ContentTypeJSON, ContentTypeProtobuffer} \<and>
     (\<forall>r \<in> set (Requests s). \<exists>q. r = Some q \<and> request_ok q)"

lemma KGVR_Validate_None [simp]: "KGVR_Validate m = None \<longleftrightarrow> kgvr_ok m"
  by (auto simp: KGVR_Validate_def kgvr_ok_def)

lemma kube_metadata_None [simp]: "kube_metadata m x = None \<longleftrightarrow> kgvr_ok m \<and> x = None"
  by (cases "KGVR_Validate m") (auto simp: kube_metadata_def simp flip: KGVR_Validate_None)


lemma RequestPatch_Validate_None:
  "fst (RequestPatch_Validate q) = None \<longleftrightarrow> kind_ok (KPatch q)"
  by (cases "KGVR_Validate q")
    (auto simp: RequestPatch_Validate_def GetPatchType_def Let_def simp flip: KGVR_Validate_None)

lemma RequestPatch_Validate_idem:
  "RequestPatch_Validate q = (None, q') \<Longrightarrow> RequestPatch_Validate q' = (None, q')"
  by (auto simp: RequestPatch_Validate_def Let_def KGVR_Validate_def split: option.splits if_splits)

lemma case_set_kinds:
  "(case set_kinds r of [] \<Rightarrow> a | k # ks \<Rightarrow> f k) =
     (case StaleList r of Some q \<Rightarrow> f (KStaleList q) | None \<Rightarrow>
     (case QuorumList r of Some q \<Rightarrow> f (KQuorumList q) | None \<Rightarrow>
     (case WatchList r of Some q \<Rightarrow> f (KWatchList q) | None \<Rightarrow>
     (case StaleGet r of Some q \<Rightarrow> f (KStaleGet q) | None \<Rightarrow>
     (case QuorumGet r of Some q \<Rightarrow> f (KQuorumGet q) | None \<Rightarrow>
     (case Put r of Some q \<Rightarrow> f (KPut q) | None \<Rightarrow>
     (case Patch r of Some q \<Rightarrow> f (KPatch q) | None \<Rightarrow>
     (case GetPodLog r of Some q \<Rightarrow> f (KGetPodLog q) | None \<Rightarrow>
     (case PostDel r of Some q \<Rightarrow> f (KPostDel q) | None \<Rightarrow> a)))))))))"
  by (cases "StaleList r"; simp add: set_kinds_def; cases "QuorumList r"; simp;
      cases "WatchList r"; simp; cases "StaleGet r"; simp; cases "QuorumGet r"; simp;
      cases "Put r"; simp; cases "Patch r"; simp; cases "GetPodLog r"; simp;
      cases "PostDel r"; simp)

text \<open>The switch of \<^verbatim>\<open>WeightedRequest.Validate\<close> as a function of the first kind that is set.\<close>

fun kind_Validate :: "request_kind \<Rightarrow> verror option" where
  "kind_Validate (KStaleList q) = RequestList_Validate True q"
| "kind_Validate (KQuorumList q) = RequestList_Validate False q"
| "kind_Validate (KWatchList q) = RequestWatchList_Validate q"
| "kind_Validate (KStaleGet q) = RequestGet_Validate q"
| "kind_Validate (KQuorumGet q) = RequestGet_Validate q"
| "kind_Validate (KPut q) = RequestPut_Validate q"
| "kind_Validate (KPatch q) = fst (RequestPatch_Validate q)"
| "kind_Validate (KGetPodLog q) = RequestGetPodLog_Validate q"
| "kind_Validate (KPostDel q) = RequestPostDel_Validate q"

fun kind_store :: "request_kind \<Rightarrow> WeightedRequest \<Rightarrow> WeightedRequest" where
  "kind_store (KPatch q) r = r\<lparr>Patch := Some (snd (RequestPatch_Validate q))\<rparr>"
| "kind_store _ r = r"

lemma WeightedRequest_Validate_alt:
  "WeightedRequest_Validate r =
     (if Shares r < 0 then (Some (SharesNegative (Shares r)), r)
      else case set_kinds r of
        [] \<Rightarrow> (Some EmptyRequest, r)
      | k # _ \<Rightarrow> (kind_Validate k, kind_store k r))"
  unfolding WeightedRequest_Validate_def case_set_kinds
  by (simp add: split_def cong: option.case_cong)

lemma kind_Validate_None: "kind_Validate k = None \<longleftrightarrow> kind_ok k"
  using RequestPatch_Validate_None
  by (cases k)
    (auto simp: RequestList_Validate_def RequestWatchList_Validate_def RequestGet_Validate_def
      RequestPut_Validate_def RequestGetPodLog_Validate_def RequestPostDel_Validate_def kgvr_ok_def)

lemma WeightedRequest_Validate_None:
  "fst (WeightedRequest_Validate r) = None \<longleftrightarrow> request_ok r"
  by (auto simp: WeightedRequest_Validate_alt request_ok_def kind_Validate_None split: list.splits)

lemma set_kinds_Patch:
  assumes "set_kinds r = KPatch q # ks"
  shows "set_kinds (r\<lparr>Patch := Some p\<rparr>) = KPatch p # ks" and "Patch r = Some q"
  using assms
  by (cases "StaleList r"; simp add: set_kinds_def; cases "QuorumList r"; simp;
      cases "WatchList r"; simp; cases "StaleGet r"; simp; cases "QuorumGet r"; simp;
      cases "Put r"; simp; cases "Patch r"; auto split: option.splits)+

lemma kind_store_other: "(\<And>q. k \<noteq> KPatch q) \<Longrightarrow> kind_store k r = r"
  by (cases k) auto

lemma Shares_kind_store [simp]: "Shares (kind_store k r) = Shares r"
  by (cases k) auto

lemma WeightedRequest_Validate_idem:
  assumes "WeightedRequest_Validate r = (None, r')"
  shows "WeightedRequest_Validate r' = (None, r')"
proof -
  from assms obtain k ks where k: "set_kinds r = k # ks" "kind_Validate k = None" "r' = kind_store k r"
    and s: "\<not> Shares r < 0"
    by (auto simp: WeightedRequest_Validate_alt split: if_splits list.splits)
  show ?thesis
  proof (cases "\<exists>q. k = KPatch q")
    case True
    then obtain q where q: "k = KPatch q" by blast
    obtain q' where q': "RequestPatch_Validate q = (None, q')"
      using k(2) q by (cases "RequestPatch_Validate q") simp
    with k q have "set_kinds r' = KPatch q' # ks" "r' = r\<lparr>Patch := Some q'\<rparr>"
      using set_kinds_Patch(1) [of r q ks q'] by simp_all
    with s RequestPatch_Validate_idem [OF q'] show ?thesis
      by (simp add: WeightedRequest_Validate_alt)
  next
    case False
    with k have "r' = r" using kind_store_other by blast
    with assms show ?thesis by simp
  qed
qed

lemma validate_requests_Valid:
  "validate_requests i rs = (Valid, rs') \<longleftrightarrow>
     list_all2 (\<lambda>r r'. \<exists>q q'. r = Some q \<and> r' = Some q' \<and> WeightedRequest_Validate q = (None, q'))
       rs rs'"
proof (induction i rs arbitrary: rs' rule: validate_requests.induct)
  case (3 idx r rs)
  obtain e r' where v: "WeightedRequest_Validate r = (e, r')" by fastforce
  show ?case
  proof (cases e)
    case None
    with v have "validate_requests idx (Some r # rs) = (Valid, rs') \<longleftrightarrow>
        (\<exists>ts. rs' = Some r' # ts \<and> validate_requests (Suc idx) rs = (Valid, ts))"
      by (auto split: prod.splits)
    with v None 3 [OF v [symmetric] None] show ?thesis by (auto simp: list_all2_Cons1)
  next
    case (Some x)
    with v show ?thesis by (auto simp: list_all2_Cons1)
  qed
qed (auto simp: list_all2_Cons1)

lemma validate_requests_total:
  "(\<exists>rs'. validate_requests i rs = (Valid, rs')) \<longleftrightarrow>
     (\<forall>r \<in> set rs. \<exists>q. r = Some q \<and> request_ok q)"
proof (induction i rs rule: validate_requests.induct)
  case (3 idx r rs)
  obtain e r' where v: "WeightedRequest_Validate r = (e, r')" by fastforce
  have ok: "request_ok r \<longleftrightarrow> e = None" using WeightedRequest_Validate_None [of r] v by simp
  show ?case
  proof (cases e)
    case None
    with v have "(\<exists>rs'. validate_requests idx (Some r # rs) = (Valid, rs')) \<longleftrightarrow>
        (\<exists>ts. validate_requests (Suc idx) rs = (Valid, ts))"
      by (auto split: prod.splits)
    with ok None 3 [OF v [symmetric] None] show ?thesis by simp
  qed (use v ok in simp)
qed auto

lemma validate_requests_idem:
  "validate_requests i rs = (Valid, rs') \<Longrightarrow> validate_requests i rs' = (Valid, rs')"
  unfolding validate_requests_Valid
  by (induction rule: list_all2_induct) (auto dest: WeightedRequest_Validate_idem)

lemma LoadProfileSpec_Validate_Valid:
  "LoadProfileSpec_Validate s = (Valid, s') \<longleftrightarrow>
     0 < Conns s \<and> \<not> flt (Rate s) (Fin 0) \<and> (0 < Total s \<or> 0 < Duration s) \<and> 0 < Client s \<and>
     spec_ContentType s \<in> {ContentTypeJSON, ContentTypeProtobuffer} \<and>
     (\<exists>rs. validate_requests 0 (Requests s) = (Valid, rs) \<and> s' = s\<lparr>Requests := rs\<rparr>)"
  by (auto simp: LoadProfileSpec_Validate_def ContentType_Validate_def split: prod.splits)

lemma spec_ok_iff: "spec_ok s \<longleftrightarrow> fst (LoadProfileSpec_Validate s) = Valid"
proof -
  have "fst (LoadProfileSpec_Validate s) = Valid \<longleftrightarrow> (\<exists>s'. LoadProfileSpec_Validate s = (Valid, s'))"
    by (cases "LoadProfileSpec_Validate s") auto
  then show ?thesis
    unfolding spec_ok_def LoadProfileSpec_Validate_Valid
    using validate_requests_total [of 0 "Requests s"] by auto
qed

lemma LoadProfileSpec_Validate_idem:
  "LoadProfileSpec_Validate s = (Valid, s') \<Longrightarrow> LoadProfileSpec_Validate s' = (Valid, s')"
  unfolding LoadProfileSpec_Validate_Valid using validate_requests_idem by auto

lemma validate_specs_Valid:
  "validate_specs i ss = (Valid, ss') \<longleftrightarrow>
     list_all2 (\<lambda>s s'. LoadProfileSpec_Validate s = (Valid, s')) ss ss'"
proof (induction ss arbitrary: i ss')
  case (Cons s ss)
  obtain c s' where v: "LoadProfileSpec_Validate s = (c, s')" by fastforce
  then show ?case
    by (cases c)
      (auto simp: list_all2_Cons1 simp flip: Cons.IH [of "Suc i"] split: prod.splits)
qed auto

lemma validate_specs_total:
  "fst (validate_specs i ss) = Valid \<longleftrightarrow> list_all spec_ok ss"
proof (induction ss arbitrary: i)
  case (Cons s ss)
  obtain c s' where v: "LoadProfileSpec_Validate s = (c, s')" by fastforce
  then show ?case using Cons.IH [of "Suc i"]
    by (cases c) (auto simp: spec_ok_iff split: prod.splits)
qed simp

lemma validate_specs_idem:
  "validate_specs i ss = (Valid, ss') \<Longrightarrow> validate_specs i ss' = (Valid, ss')"
  unfolding validate_specs_Valid
  by (induction rule: list_all2_induct) (auto dest: LoadProfileSpec_Validate_idem)

lemma validate_specs_Invalid:
  "validate_specs i ss = (Invalid e, ss') \<Longrightarrow>
     \<exists>k e'. k < length ss \<and> e = AtSpec (i + k) e' \<and>
       fst (LoadProfileSpec_Validate (ss ! k)) = Invalid e' \<and> list_all spec_ok (take k ss)"
proof (induction ss arbitrary: i ss')
  case (Cons s ss)
  obtain c s' where v: "LoadProfileSpec_Validate s = (c, s')" by fastforce
  show ?case
  proof (cases c)
    case Valid
    with v Cons.prems obtain ts where "validate_specs (Suc i) ss = (Invalid e, ts)"
      by (auto split: prod.splits)
    from Cons.IH [OF this] obtain k e' where
      "k < length ss" "e = AtSpec (i + Suc k) e'"
      "fst (LoadProfileSpec_Validate (ss ! k)) = Invalid e'" "list_all spec_ok (take k ss)"
      by auto
    moreover have "spec_ok s" using v Valid by (simp add: spec_ok_iff)
    ultimately show ?thesis by (intro exI [of _ "Suc k"]) auto
  next
    case (Invalid x)
    with v Cons.prems show ?thesis by (intro exI [of _ 0]) auto
  qed (use v Cons.prems in auto)
qed simp

lemma trim_sample: "trim_space '' [] '' = ''[]''" "trim_space ''[]'' = ''[]''"
  by (simp_all add: trim_space_def strip_right_def strip_left.simps strip_left1_def
      space_encodings_def has_prefix_def)

lemma json_valid_sample: "json_valid ''[]''"
  by code_simp

lemma sample_profile_Valid:
  "LoadProfile_Validate sample_profile =
     (Valid, sample_profile\<lparr>Specs := [sample_spec [sample_get, sample_patch ''[]'']]\<rparr>)"
  by (simp add: sample_profile_def sample_spec_def sample_get_def sample_patch_def empty_request_def
      LoadProfile_Validate_def LoadProfileSpec_Validate_def ContentType_Validate_def
      WeightedRequest_Validate_def RequestGet_Validate_def kube_metadata_def KGVR_Validate_def
      RequestPatch_Validate_def GetPatchType_def trim_sample json_valid_sample
      del: KGVR_Validate_None kube_metadata_None)

section \<open>Properties\<close>

text \<open>
  C23: \<^verbatim>\<open>LoadProfile.Validate\<close> accepts exactly the profiles of version 1 with at least one spec
  in which every spec has positive connections and clients, a rate that is not below zero, a
  positive total or a positive duration, a supported content type, and requests that are
  non-nil, have non-negative shares and whose first set request type meets its own
  conditions.
\<close>

theorem validate_accepts:
  "fst (LoadProfile_Validate lp) = Valid \<longleftrightarrow>
     lp_Version lp = 1 \<and> Specs lp \<noteq> [] \<and> list_all spec_ok (Specs lp)"
  using validate_specs_total [of 0 "Specs lp"]
  by (auto simp: LoadProfile_Validate_def split: prod.splits)

text \<open>
  C24: validation is idempotent. It trims patch bodies in place, and the profile it
  leaves behind is accepted again without any further change.
\<close>

theorem validate_idempotent:
  assumes "LoadProfile_Validate lp = (Valid, lp')"
  shows "LoadProfile_Validate lp' = (Valid, lp')"
proof -
  obtain ss where ss: "validate_specs 0 (Specs lp) = (Valid, ss)" "lp' = lp\<lparr>Specs := ss\<rparr>"
    and ok: "lp_Version lp = 1" "Specs lp \<noteq> []"
    using assms by (auto simp: LoadProfile_Validate_def split: if_splits prod.splits)
  have "length ss = length (Specs lp)"
    using ss(1) list_all2_lengthD unfolding validate_specs_Valid by fastforce
  with ss ok validate_specs_idem [OF ss(1)] show ?thesis
    by (auto simp: LoadProfile_Validate_def)
qed

theorem validate_idempotent_witness:
  "LoadProfile_Validate sample_profile =
     (Valid, sample_profile\<lparr>Specs := [sample_spec [sample_get, sample_patch ''[]'']]\<rparr>)
   \<and> LoadProfile_Validate (sample_profile\<lparr>Specs := [sample_spec [sample_get, sample_patch ''[]'']]\<rparr>) =
     (Valid, sample_profile\<lparr>Specs := [sample_spec [sample_get, sample_patch ''[]'']]\<rparr>)"
  using validate_idempotent [OF sample_profile_Valid] sample_profile_Valid by simp

text \<open>
  The error that validation reports for a spec is the one of the first spec that fails:
  its index is in range, that spec on its own is rejected for the wrapped reason, and every
  spec before it is acceptable.
\<close>

theorem validate_reports_first:
  assumes "LoadProfile_Validate lp = (Invalid (AtSpec i e), lp')"
  shows "i < length (Specs lp) \<and>
    fst (LoadProfileSpec_Validate (Specs lp ! i)) = Invalid e \<and>
    list_all spec_ok (take i (Specs lp))"
proof -
  obtain ss where "validate_specs 0 (Specs lp) = (Invalid (AtSpec i e), ss)"
    using assms by (auto simp: LoadProfile_Validate_def split: if_splits prod.splits)
  from validate_specs_Invalid [OF this] show ?thesis by auto
qed

theorem validate_reports_first_witness:
  "list_all spec_ok (take 1 [sample_spec [], sample_spec [Some empty_request]])"
proof -
  have "LoadProfile_Validate (sample_profile\<lparr>Specs := [sample_spec [], sample_spec [Some empty_request]]\<rparr>) =
      (Invalid (AtSpec 1 (AtRequest 0 EmptyRequest)),
       sample_profile\<lparr>Specs := [sample_spec [], sample_spec [Some empty_request]]\<rparr>)"
    by (simp add: LoadProfile_Validate_def LoadProfileSpec_Validate_def ContentType_Validate_def
        WeightedRequest_Validate_def sample_profile_def sample_spec_def empty_request_def)
  from validate_reports_first [OF this] show ?thesis by (simp add: sample_profile_def)
qed

end
