(* ===== verification/Cache.thy ===== *)
theory Cache
  imports Prelude
begin

text \<open>
  The name cache of \<^verbatim>\<open>request/cache.go\<close>: a mutex-protected FIFO of object names, shared by
  every request of one post/delete builder. Each method holds the mutex for its whole body,
  so a concurrent use of the cache is a sequence of the operations below. The interface
  \<open>fifo_queue\<close> states what the builder relies on.
\<close>

section \<open>The code\<close>

record Cache =
  items :: "string list"

definition InitCache :: Cache where
  "InitCache = \<lparr>items = []\<rparr>"

definition Cache_Pop :: "Cache \<Rightarrow> (string \<times> bool) \<times> Cache" where
  "Cache_Pop c =
     (case items c of
        [] \<Rightarrow> (('''', False), c)
      | front # rest \<Rightarrow> ((front, True), c\<lparr>items := rest\<rparr>))"

definition Cache_Push :: "string \<Rightarrow> Cache \<Rightarrow> Cache" where
  "Cache_Push name c = c\<lparr>items := items c @ [name]\<rparr>"

definition Cache_Len :: "Cache \<Rightarrow> int" where
  "Cache_Len c = int (length (items c))"

section \<open>The contract of a name queue\<close>

datatype queue_op = Push string | Pop

text \<open>A sequence of operations, with the names the successful pops returned.\<close>

primrec run_ops ::
  "(string \<Rightarrow> 'q \<Rightarrow> 'q) \<Rightarrow> ('q \<Rightarrow> (string \<times> bool) \<times> 'q) \<Rightarrow> queue_op list \<Rightarrow> 'q \<Rightarrow> string list \<times> 'q"
where
  "run_ops push pop [] q = ([], q)"
| "run_ops push pop (x # xs) q =
     (case x of
        Push n \<Rightarrow> run_ops push pop xs (push n q)
      | Pop \<Rightarrow>
          (case pop q of ((n, ok), q') \<Rightarrow>
             case run_ops push pop xs q' of (out, q'') \<Rightarrow> (if ok then n # out else out, q'')))"

definition pushed :: "queue_op list \<Rightarrow> string list" where
  "pushed xs = concat (map (\<lambda>x. case x of Push n \<Rightarrow> [n] | Pop \<Rightarrow> []) xs)"

lemma pushed_simps [simp]:
  "pushed [] = []"
  "pushed (Push n # xs) = n # pushed xs"
  "pushed (Pop # xs) = pushed xs"
  by (simp_all add: pushed_def)

locale fifo_queue =
  fixes emp :: 'q
    and push :: "string \<Rightarrow> 'q \<Rightarrow> 'q"
    and pop :: "'q \<Rightarrow> (string \<times> bool) \<times> 'q"
    and len :: "'q \<Rightarrow> int"
    and contents :: "'q \<Rightarrow> string list"
  assumes contents_emp: "contents emp = []"
    and contents_push: "contents (push n q) = contents q @ [n]"
    and pop_empty: "contents q = [] \<Longrightarrow> pop q = (('''', False), q)"
    and pop_front: "contents q = n # ns \<Longrightarrow> \<exists>q'. pop q = ((n, True), q') \<and> contents q' = ns"
    and len_contents: "len q = int (length (contents q))"
begin

lemma run_ops_order:
  "run_ops push pop xs q = (out, q') \<Longrightarrow> out @ contents q' = contents q @ pushed xs"
proof (induction xs arbitrary: q out)
  case (Cons x xs)
  show ?case
  proof (cases x)
    case (Push n)
    with Cons.prems have "run_ops push pop xs (push n q) = (out, q')" by simp
    from Cons.IH [OF this] Push show ?thesis by (simp add: contents_push)
  next
    case Pop
    show ?thesis
    proof (cases "contents q")
      case Nil
      with Cons.prems Pop Cons.IH [of q out] show ?thesis
        by (auto simp: pop_empty split: prod.splits)
    next
      case (Cons n ns)
      then obtain r where r: "pop q = ((n, True), r)" "contents r = ns" using pop_front by blast
      obtain out' q2 where run: "run_ops push pop xs r = (out', q2)" by fastforce
      with Cons.prems Pop r have eq: "out = n # out'" "q2 = q'" by (simp_all split: prod.splits)
      from Cons.IH [OF run [unfolded eq]] Cons Pop r eq show ?thesis by simp
    qed
  qed
qed simp

lemma run_ops_from_empty:
  "run_ops push pop xs emp = (out, q') \<Longrightarrow> pushed xs = out @ contents q'"
  using run_ops_order contents_emp by fastforce

lemma len_balance:
  assumes "run_ops push pop xs q = (out, q')"
  shows "len q' = len q + int (length (pushed xs)) - int (length out)"
proof -
  have "length (out @ contents q') = length (contents q @ pushed xs)"
    using run_ops_order [OF assms] by simp
  then show ?thesis by (simp add: len_contents)
qed

end

interpretation name_cache: fifo_queue InitCache Cache_Push Cache_Pop Cache_Len items
  by unfold_locales (auto simp: InitCache_def Cache_Push_def Cache_Pop_def Cache_Len_def)

section \<open>Properties\<close>

text \<open>
  The cache is first-in first-out under every interleaving of its operations. Starting
  from \<^const>\<open>InitCache\<close>, the names that pops returned, followed by the names still cached,
  are exactly the pushed names in the order of the pushes: none is lost, duplicated or
  reordered, and \<^const>\<open>Cache_Len\<close> is the number of those not yet returned.
\<close>

theorem cache_fifo:
  assumes "run_ops Cache_Push Cache_Pop xs InitCache = (out, c)"
  shows "pushed xs = out @ items c \<and> Cache_Len c = int (length (pushed xs)) - int (length out)"
  using name_cache.run_ops_from_empty [OF assms] by (simp add: Cache_Len_def)

theorem cache_fifo_witness:
  "pushed [Pop, Push ''a'', Push ''b'', Pop, Push ''c''] = [''a''] @ [''b'', ''c'']"
proof -
  have "run_ops Cache_Push Cache_Pop [Pop, Push ''a'', Push ''b'', Pop, Push ''c''] InitCache
      = ([''a''], \<lparr>items = [''b'', ''c'']\<rparr>)"
    by (simp add: Cache_Push_def Cache_Pop_def InitCache_def)
  from cache_fifo [OF this] show ?thesis by simp
qed

end
