(* ===== verification/Go_Path.thy ===== *)
theory Go_Path
  imports Prelude
begin

text \<open>
  The lexical path operations of Go's \<^verbatim>\<open>path\<close> (and, on Unix, \<^verbatim>\<open>path/filepath\<close>) package that
  kperf uses: \<^verbatim>\<open>Clean\<close>, \<^verbatim>\<open>Join\<close>, \<^verbatim>\<open>Dir\<close> and \<^verbatim>\<open>Base\<close>. A path is split at its slashes; \<^verbatim>\<open>Clean\<close>
  drops empty and \<^verbatim>\<open>.\<close> elements and resolves \<^verbatim>\<open>..\<close> against the element before it.
\<close>

definition rooted :: "string \<Rightarrow> bool" where
  "rooted p \<longleftrightarrow> has_prefix p ''/''"

text \<open>One element of the path; the elements kept so far are in reverse order.\<close>

definition clean_elem :: "bool \<Rightarrow> string \<Rightarrow> string list \<Rightarrow> string list" where
  "clean_elem abs_path e acc =
     (if e = '''' \<or> e = ''.'' then acc
      else if e = ''..'' then
        (case acc of
           [] \<Rightarrow> (if abs_path then [] else [''..''])
         | x # xs \<Rightarrow> (if x = ''..'' then ''..'' # acc else xs))
      else e # acc)"

definition path_clean :: "string \<Rightarrow> string" where
  "path_clean p =
     (let es = rev (fold (clean_elem (rooted p)) (str_split CHR ''/'' p) [])
      in if rooted p then ''/'' @ str_join ''/'' es
         else if es = [] then ''.'' else str_join ''/'' es)"

definition path_join :: "string list \<Rightarrow> string" where
  "path_join es =
     (let es' = filter (\<lambda>e. e \<noteq> '''') es
      in if es' = [] then '''' else path_clean (str_join ''/'' es'))"

text \<open>The part of a path up to and including its last slash, and the rest.\<close>

definition path_split :: "string \<Rightarrow> string \<times> string" where
  "path_split p =
     (case str_split CHR ''/'' p of ws \<Rightarrow>
        (if length ws = 1 then '''' else str_join ''/'' (butlast ws) @ ''/'', last ws))"

definition path_dir :: "string \<Rightarrow> string" where
  "path_dir p = path_clean (fst (path_split p))"

text \<open>\<^verbatim>\<open>filepath.Base\<close>: the last element, after removing trailing slashes.\<close>

definition path_base :: "string \<Rightarrow> string" where
  "path_base p =
     (if p = '''' then ''.''
      else let q = rev (dropWhile (\<lambda>c. c = CHR ''/'') (rev p))
           in if q = '''' then ''/'' else last (str_split CHR ''/'' q))"

section \<open>Plain elements\<close>

definition plain_elem :: "string \<Rightarrow> bool" where
  "plain_elem e \<longleftrightarrow> e \<noteq> '''' \<and> e \<noteq> ''.'' \<and> e \<noteq> ''..'' \<and> CHR ''/'' \<notin> set e"

lemma plain_elem_no_slash: "list_all plain_elem es \<Longrightarrow> \<forall>w \<in> set es. CHR ''/'' \<notin> set w"
  by (induction es) (auto simp: plain_elem_def)

lemma fold_clean_plain:
  "list_all plain_elem es \<Longrightarrow> fold (clean_elem r) es acc = rev es @ acc"
  by (induction es arbitrary: acc) (simp_all add: clean_elem_def plain_elem_def)

lemma str_split_rooted: "str_split c (c # s) = [] # str_split c s"
  by simp

lemma split_plain:
  assumes "list_all plain_elem es" "es \<noteq> []"
  shows "str_split CHR ''/'' (''/'' @ str_join ''/'' es) = [] # es"
  using str_split_str_join [of es "CHR ''/''"] assms plain_elem_no_slash
  by (auto simp: list_all_iff plain_elem_def)

lemma path_clean_plain:
  assumes "list_all plain_elem es"
  shows "path_clean (''/'' @ str_join ''/'' es) = ''/'' @ str_join ''/'' es"
proof (cases "es = []")
  case True
  then show ?thesis by (simp add: path_clean_def rooted_def has_prefix_def clean_elem_def)
next
  case False
  then show ?thesis using split_plain [OF assms False] fold_clean_plain [OF assms]
    by (simp add: path_clean_def rooted_def has_prefix_def clean_elem_def)
qed

lemma str_join_snoc: "ws \<noteq> [] \<Longrightarrow> str_join sep (ws @ [w]) = str_join sep ws @ sep @ w"
  by (induction sep ws rule: str_join.induct) simp_all

lemma path_split_plain:
  assumes "list_all plain_elem es" "plain_elem e"
  shows "path_split (''/'' @ str_join ''/'' (es @ [e])) =
    (if es = [] then ''/'' else ''/'' @ str_join ''/'' es @ ''/'', e)"
proof -
  have "str_split CHR ''/'' (''/'' @ str_join ''/'' (es @ [e])) = [] # es @ [e]"
    using assms by (intro split_plain) auto
  then show ?thesis by (cases es) (simp_all add: path_split_def butlast_append)
qed

lemma path_clean_trailing:
  assumes "list_all plain_elem es" "es \<noteq> []"
  shows "path_clean (''/'' @ str_join ''/'' es @ ''/'') = ''/'' @ str_join ''/'' es"
proof -
  have "str_split CHR ''/'' (''/'' @ str_join ''/'' es @ ''/'') = [] # es @ [[]]"
    using str_split_str_join [of "es @ [[]]" "CHR ''/''"] assms plain_elem_no_slash [of es]
    by (auto simp: str_join_snoc)
  then show ?thesis using fold_clean_plain [OF assms(1)]
    by (simp add: path_clean_def rooted_def has_prefix_def clean_elem_def)
qed

lemma path_dir_plain:
  assumes "list_all plain_elem es" "plain_elem e"
  shows "path_dir (''/'' @ str_join ''/'' (es @ [e])) = ''/'' @ str_join ''/'' es"
proof (cases "es = []")
  case True
  then show ?thesis using path_split_plain [OF assms] path_clean_plain [of "[]"]
    by (simp add: path_dir_def)
next
  case False
  then show ?thesis using path_split_plain [OF assms] path_clean_trailing [OF assms(1) False]
    by (simp add: path_dir_def)
qed

lemma path_join_dir_plain:
  assumes "list_all plain_elem es" "plain_elem e"
  shows "path_join [''/'' @ str_join ''/'' es, e] = ''/'' @ str_join ''/'' (es @ [e])"
proof (cases "es = []")
  case True
  have "str_split CHR ''/'' (''//'' @ e) = [[], [], e]"
    using assms(2) str_split_no_sep [of "CHR ''/''" e] by (simp add: plain_elem_def)
  with True assms(2) show ?thesis
    by (simp add: path_join_def path_clean_def rooted_def has_prefix_def clean_elem_def plain_elem_def)
next
  case False
  then show ?thesis using path_clean_plain [of "es @ [e]"] assms
    by (auto simp: path_join_def str_join_snoc plain_elem_def)
qed

end
