(* ===== verification/Go_Errors.thy ===== *)
theory Go_Errors
  imports Prelude
begin

text \<open>
  Go error values as kperf inspects them: the text that \<^verbatim>\<open>Error()\<close> returns and the chain of
  wrapped errors that \<^verbatim>\<open>errors.As\<close> and \<^verbatim>\<open>errors.Is\<close> walk, outermost first. A link of the
  chain records which of the tested types it has: the error structs of
  \<^verbatim>\<open>golang.org/x/net/http2\<close>, the interfaces \<^verbatim>\<open>net.Error\<close> and \<^verbatim>\<open>apierrors.APIStatus\<close>, the
  type \<^verbatim>\<open>syscall.Errno\<close> and the values \<^verbatim>\<open>io.EOF\<close> and \<^verbatim>\<open>io.ErrUnexpectedEOF\<close>.
\<close>

type_synonym ErrCode = nat

record err_link =
  as_ConnectionError :: "ErrCode option"
  as_StreamError :: "ErrCode option"
  as_GoAwayError :: "(ErrCode \<times> string) option"
  as_NetError :: "bool option"
  as_Errno :: "int option"
  as_APIStatus :: "int option"
  is_EOF :: bool
  is_UnexpectedEOF :: bool

record goerr =
  err_text :: string
  err_chain :: "err_link list"

definition plain_link :: err_link where
  "plain_link = \<lparr>as_ConnectionError = None, as_StreamError = None, as_GoAwayError = None,
     as_NetError = None, as_Errno = None, as_APIStatus = None,
     is_EOF = False, is_UnexpectedEOF = False\<rparr>"

text \<open>\<^verbatim>\<open>errors.As\<close>: the first link of the requested type. The type assertion that the code tries
  first, \<^verbatim>\<open>err.(T)\<close>, looks at the outermost link and so agrees with it.\<close>

fun first_as :: "(err_link \<Rightarrow> 'a option) \<Rightarrow> err_link list \<Rightarrow> 'a option" where
  "first_as sel [] = None"
| "first_as sel (l # ls) = (case sel l of Some x \<Rightarrow> Some x | None \<Rightarrow> first_as sel ls)"

definition errors_As :: "(err_link \<Rightarrow> 'a option) \<Rightarrow> goerr \<Rightarrow> 'a option" where
  "errors_As sel e = first_as sel (err_chain e)"

definition errors_Is :: "(err_link \<Rightarrow> bool) \<Rightarrow> goerr \<Rightarrow> bool" where
  "errors_Is p e = list_ex p (err_chain e)"

definition str_contains :: "string \<Rightarrow> string \<Rightarrow> bool" where
  "str_contains s sub \<longleftrightarrow> list_ex (\<lambda>t. has_prefix t sub) (suffixes s)"

definition ECONNREFUSED :: int where "ECONNREFUSED = 111"
definition ECONNRESET :: int where "ECONNRESET = 104"

text \<open>\<^verbatim>\<open>fmt.Errorf("...: %w", err)\<close>: a new outermost link of no tested type.\<close>

definition wrap_err :: "string \<Rightarrow> goerr \<Rightarrow> goerr" where
  "wrap_err msg e = \<lparr>err_text = msg @ '': '' @ err_text e, err_chain = plain_link # err_chain e\<rparr>"

lemma first_as_None: "first_as sel ls = None \<longleftrightarrow> (\<forall>l \<in> set ls. sel l = None)"
  by (induction ls) (auto split: option.splits)

lemma str_contains_iff [go_str]: "str_contains s sub \<longleftrightarrow> (\<exists>p q. s = p @ sub @ q)"
  unfolding str_contains_def list_ex_iff has_prefix_iff in_set_suffixes suffix_def Bex_def
  by metis

lemma errors_As_wrap [simp]:
  "errors_As as_ConnectionError (wrap_err p e) = errors_As as_ConnectionError e"
  "errors_As as_StreamError (wrap_err p e) = errors_As as_StreamError e"
  "errors_As as_GoAwayError (wrap_err p e) = errors_As as_GoAwayError e"
  "errors_As as_NetError (wrap_err p e) = errors_As as_NetError e"
  "errors_As as_Errno (wrap_err p e) = errors_As as_Errno e"
  "errors_As as_APIStatus (wrap_err p e) = errors_As as_APIStatus e"
  by (simp_all add: errors_As_def wrap_err_def plain_link_def)

lemma errors_Is_wrap [simp]:
  "errors_Is is_EOF (wrap_err p e) = errors_Is is_EOF e"
  "errors_Is is_UnexpectedEOF (wrap_err p e) = errors_Is is_UnexpectedEOF e"
  by (simp_all add: errors_Is_def wrap_err_def plain_link_def)

end
