(* ===== verification/Requests.thy ===== *)
theory Requests
  imports Types Cache Go_Path Go_Errors
begin

text \<open>
  The request generator of \<^verbatim>\<open>request/random.go\<close> and the requesters of
  \<^verbatim>\<open>request/requester.go\<close>: a weighted random choice among builders, one builder per request
  type, and the random payload. A \<^verbatim>\<open>rest.Request\<close> of client-go is the record of the calls
  that assemble it; what client-go makes of it (its URL, the stream it opens) is a
  parameter. Randomness and the clock are arguments.
\<close>

section \<open>Entropy\<close>

record entropy =
  ent_int :: int
  ent_now :: int
  ent_bytes :: "8 word list"

section \<open>Random payload\<close>

definition alphabet :: string where
  "alphabet = ''abcdefghijklmnopqrstuvwxyzABCDEFGHIJKLMNOPQRSTUVWXYZ0123456789''"

definition threshold :: "8 word" where
  "threshold = of_nat (256 - 256 mod length alphabet)"

definition payload_char :: "8 word \<Rightarrow> char" where
  "payload_char b = alphabet ! (unat b mod length alphabet)"

fun scan_buf :: "nat \<Rightarrow> string \<Rightarrow> 8 word list \<Rightarrow> string" where
  "scan_buf n out [] = out"
| "scan_buf n out (b # bs) =
     (if threshold \<le> b then scan_buf n out bs
      else let out' = out @ [payload_char b]
           in if length out' = n then out' else scan_buf n out' bs)"

text \<open>\<^verbatim>\<open>rand.Read\<close> fills the whole buffer from the random source; a source that has no full
  buffer left keeps the call waiting.\<close>

function payload_loop :: "nat \<Rightarrow> nat \<Rightarrow> string \<Rightarrow> 8 word list \<Rightarrow> string outcome" where
  "payload_loop n bufSize out src =
     (if n \<le> length out then Return out
      else if bufSize = 0 \<or> length src < bufSize then Pending
      else payload_loop n bufSize (scan_buf n out (take bufSize src)) (drop bufSize src))"
  by pat_completeness auto
termination
  by (relation "measure (\<lambda>(n, bufSize, out, src). length src)") auto

declare payload_loop.simps [simp del]

definition randomPayload :: "int \<Rightarrow> 8 word list \<Rightarrow> string outcome" where
  "randomPayload n src =
     (if n \<le> 0 then Return ''''
      else payload_loop (nat n) (if n > 4096 then 4096 else nat n) [] src)"

section \<open>Requests\<close>

record GroupVersion =
  gv_Group :: string
  gv_Version :: string

text \<open>The option structs of apimachinery that the builders fill in.\<close>

datatype ResourceVersionMatch = NoResourceVersionMatch | ResourceVersionMatchNotOlderThan

record ListOptions =
  lo_LabelSelector :: string
  lo_FieldSelector :: string
  lo_ResourceVersion :: string
  lo_Limit :: int
  lo_Watch :: bool
  lo_SendInitialEvents :: "bool option"
  lo_ResourceVersionMatch :: ResourceVersionMatch
  lo_AllowWatchBookmarks :: bool

datatype params =
  NoParams
| GetOptions string
| ListParams ListOptions
| PodLogOptions string "int option" "int option"

text \<open>\<open>ConfigMapJSON name namespace payload\<close> is the marshalled ConfigMap that has the payload as
  its only datum.\<close>

datatype body = NoBody | RawBody string | ConfigMapJSON string string string

record rest_Request =
  rq_verb :: string
  rq_patchType :: PatchType
  rq_path :: "string list"
  rq_params :: params
  rq_body :: body
  rq_maxRetries :: int
  rq_timeout :: int

definition rest_verb :: "string \<Rightarrow> string list \<Rightarrow> int \<Rightarrow> rest_Request" where
  "rest_verb verb comps maxRetries =
     \<lparr>rq_verb = verb, rq_patchType = NoPatchType, rq_path = comps, rq_params = NoParams,
      rq_body = NoBody, rq_maxRetries = maxRetries, rq_timeout = 0\<rparr>"

record BaseRequester =
  br_method :: string
  br_req :: rest_Request

datatype Requester =
  DiscardRequester BaseRequester
| WatchListRequester BaseRequester
| PostDelDiscardRequester string string BaseRequester

primrec base :: "Requester \<Rightarrow> BaseRequester" where
  "base (DiscardRequester b) = b"
| "base (WatchListRequester b) = b"
| "base (PostDelDiscardRequester name operation b) = b"

section \<open>Builders\<close>

text \<open>The leading path elements that all builders share: API group, version and namespace.\<close>

definition api_comps :: "GroupVersion \<Rightarrow> string list" where
  "api_comps v =
     (if gv_Group v = '''' then [''api'', gv_Version v] else [''apis'', gv_Group v, gv_Version v])"

definition ns_comps :: "string \<Rightarrow> string list" where
  "ns_comps ns = (if ns \<noteq> '''' then [''namespaces'', ns] else [])"

record requestGetBuilder =
  gb_version :: GroupVersion
  gb_resource :: string
  gb_namespace :: string
  gb_name :: string
  gb_resourceVersion :: string
  gb_maxRetries :: int

definition newRequestGetBuilder :: "RequestGet \<Rightarrow> string \<Rightarrow> int \<Rightarrow> requestGetBuilder" where
  "newRequestGetBuilder src resourceVersion maxRetries =
     \<lparr>gb_version = \<lparr>gv_Group = Group src, gv_Version = Version src\<rparr>, gb_resource = Resource src,
      gb_namespace = get_Namespace src, gb_name = get_Name src,
      gb_resourceVersion = resourceVersion, gb_maxRetries = maxRetries\<rparr>"

definition Build_get :: "requestGetBuilder \<Rightarrow> Requester" where
  "Build_get b = DiscardRequester
     \<lparr>br_method = ''GET'',
      br_req = (rest_verb ''GET''
          (api_comps (gb_version b) @ ns_comps (gb_namespace b) @ [gb_resource b, gb_name b])
          (gb_maxRetries b))\<lparr>rq_params := GetOptions (gb_resourceVersion b)\<rparr>\<rparr>"

record requestListBuilder =
  lb_version :: GroupVersion
  lb_resource :: string
  lb_namespace :: string
  lb_limit :: int
  lb_labelSelector :: string
  lb_fieldSelector :: string
  lb_resourceVersion :: string
  lb_maxRetries :: int

definition newRequestListBuilder :: "RequestList \<Rightarrow> string \<Rightarrow> int \<Rightarrow> requestListBuilder" where
  "newRequestListBuilder src resourceVersion maxRetries =
     \<lparr>lb_version = \<lparr>gv_Group = Group src, gv_Version = Version src\<rparr>, lb_resource = Resource src,
      lb_namespace = list_Namespace src, lb_limit = list_Limit src,
      lb_labelSelector = list_Selector src, lb_fieldSelector = list_FieldSelector src,
      lb_resourceVersion = resourceVersion, lb_maxRetries = maxRetries\<rparr>"

definition Build_list :: "requestListBuilder \<Rightarrow> Requester" where
  "Build_list b = DiscardRequester
     \<lparr>br_method = ''LIST'',
      br_req = (rest_verb ''GET''
          (api_comps (lb_version b) @ ns_comps (lb_namespace b) @ [lb_resource b])
          (lb_maxRetries b))
        \<lparr>rq_params := ListParams
           \<lparr>lo_LabelSelector = lb_labelSelector b, lo_FieldSelector = lb_fieldSelector b,
            lo_ResourceVersion = lb_resourceVersion b, lo_Limit = lb_limit b, lo_Watch = False,
            lo_SendInitialEvents = None, lo_ResourceVersionMatch = NoResourceVersionMatch,
            lo_AllowWatchBookmarks = False\<rparr>\<rparr>\<rparr>"

record requestWatchListBuilder =
  wb_version :: GroupVersion
  wb_resource :: string
  wb_namespace :: string
  wb_labelSelector :: string
  wb_fieldSelector :: string
  wb_maxRetries :: int

definition newRequestWatchListBuilder :: "RequestWatchList \<Rightarrow> int \<Rightarrow> requestWatchListBuilder" where
  "newRequestWatchListBuilder src maxRetries =
     \<lparr>wb_version = \<lparr>gv_Group = Group src, gv_Version = Version src\<rparr>, wb_resource = Resource src,
      wb_namespace = wl_Namespace src, wb_labelSelector = wl_Selector src,
      wb_fieldSelector = wl_FieldSelector src, wb_maxRetries = maxRetries\<rparr>"

definition Build_watchlist :: "requestWatchListBuilder \<Rightarrow> Requester" where
  "Build_watchlist b = WatchListRequester
     \<lparr>br_method = ''WATCHLIST'',
      br_req = (rest_verb ''GET''
          (api_comps (wb_version b) @ ns_comps (wb_namespace b) @ [wb_resource b])
          (wb_maxRetries b))
        \<lparr>rq_params := ListParams
           \<lparr>lo_LabelSelector = wb_labelSelector b, lo_FieldSelector = wb_fieldSelector b,
            lo_ResourceVersion = '''', lo_Limit = 0, lo_Watch = True,
            lo_SendInitialEvents = Some True,
            lo_ResourceVersionMatch = ResourceVersionMatchNotOlderThan,
            lo_AllowWatchBookmarks = True\<rparr>\<rparr>\<rparr>"

record requestGetPodLogBuilder =
  plb_namespace :: string
  plb_name :: string
  plb_container :: string
  plb_tailLines :: "int option"
  plb_limitBytes :: "int option"
  plb_maxRetries :: int

definition newRequestGetPodLogBuilder :: "RequestGetPodLog \<Rightarrow> int \<Rightarrow> requestGetPodLogBuilder" where
  "newRequestGetPodLogBuilder src maxRetries =
     (let b = \<lparr>plb_namespace = log_Namespace src, plb_name = log_Name src,
               plb_container = log_Container src, plb_tailLines = None, plb_limitBytes = None,
               plb_maxRetries = maxRetries\<rparr>;
          b = (case log_TailLines src of None \<Rightarrow> b | Some n \<Rightarrow> b\<lparr>plb_tailLines := Some n\<rparr>)
      in case log_LimitBytes src of None \<Rightarrow> b | Some n \<Rightarrow> b\<lparr>plb_limitBytes := Some n\<rparr>)"

definition Build_podlog :: "requestGetPodLogBuilder \<Rightarrow> Requester" where
  "Build_podlog b = DiscardRequester
     \<lparr>br_method = ''POD_LOG'',
      br_req = (rest_verb ''GET''
          [''api'', ''v1'', ''namespaces'', plb_namespace b, ''pods'', plb_name b, ''log'']
          (plb_maxRetries b))
        \<lparr>rq_params := PodLogOptions (plb_container b) (plb_tailLines b) (plb_limitBytes b)\<rparr>\<rparr>"

record requestPatchBuilder =
  pb_version :: GroupVersion
  pb_resource :: string
  pb_resourceVersion :: string
  pb_namespace :: string
  pb_name :: string
  pb_keySpaceSize :: int
  pb_patchType :: PatchType
  pb_body :: string
  pb_maxRetries :: int

definition newRequestPatchBuilder :: "RequestPatch \<Rightarrow> string \<Rightarrow> int \<Rightarrow> requestPatchBuilder" where
  "newRequestPatchBuilder src resourceVersion maxRetries =
     \<lparr>pb_version = \<lparr>gv_Group = Group src, gv_Version = Version src\<rparr>, pb_resource = Resource src,
      pb_resourceVersion = resourceVersion, pb_namespace = patch_Namespace src,
      pb_name = patch_Name src, pb_keySpaceSize = patch_KeySpaceSize src,
      pb_patchType = fst (GetPatchType (patch_PatchType src)), pb_body = patch_Body src,
      pb_maxRetries = maxRetries\<rparr>"

text \<open>\<^verbatim>\<open>fmt.Sprintf("%s-%d", name, suffix)\<close>.\<close>

definition suffixed :: "string \<Rightarrow> int \<Rightarrow> string" where
  "suffixed name i = name @ ''-'' @ itoa i"

definition Build_patch :: "requestPatchBuilder \<Rightarrow> entropy \<Rightarrow> Requester outcome" where
  "Build_patch b ent =
     bind_outcome (of_option (rand_Int (pb_keySpaceSize b) (ent_int ent))) (\<lambda>suffix.
       let finalName = suffixed (pb_name b) suffix
       in Return (DiscardRequester
            \<lparr>br_method = ''PATCH'',
             br_req = (rest_verb ''PATCH''
                 (api_comps (pb_version b) @ ns_comps (pb_namespace b) @ [pb_resource b, finalName])
                 (pb_maxRetries b))
               \<lparr>rq_patchType := pb_patchType b, rq_body := RawBody (pb_body b)\<rparr>\<rparr>))"

record requestPostDelBuilder =
  pdb_version :: GroupVersion
  pdb_resource :: string
  pdb_resourceVersion :: string
  pdb_namespace :: string
  pdb_deleteRatio :: float64
  pdb_payloadSize :: int
  pdb_maxRetries :: int
  pdb_cache :: Cache
  pdb_resourceCounter :: int

definition newRequestPostDelBuilder :: "RequestPostDel \<Rightarrow> string \<Rightarrow> int \<Rightarrow> requestPostDelBuilder" where
  "newRequestPostDelBuilder src resourceVersion maxRetries =
     \<lparr>pdb_version = \<lparr>gv_Group = Group src, gv_Version = Version src\<rparr>, pdb_resource = Resource src,
      pdb_resourceVersion = resourceVersion, pdb_namespace = pd_Namespace src,
      pdb_deleteRatio = pd_DeleteRatio src, pdb_payloadSize = pd_PayloadSize src,
      pdb_maxRetries = maxRetries, pdb_cache = InitCache, pdb_resourceCounter = 0\<rparr>"

text \<open>\<^verbatim>\<open>utils.RenderTemplate\<close>: only pods have a template. Executing the embedded template and
  converting its YAML to JSON is the parameter \<open>pod_template\<close>, a function of the name, the
  namespace and the payload.\<close>

type_synonym template = "string \<Rightarrow> string \<Rightarrow> string \<Rightarrow> string option"

definition RenderTemplate :: "template \<Rightarrow> string \<Rightarrow> string \<Rightarrow> string \<Rightarrow> string \<Rightarrow> string option" where
  "RenderTemplate pod_template resource namePattern namespace payload =
     (if resource = ''pods'' then pod_template namePattern namespace payload else None)"

definition should_delete :: "requestPostDelBuilder \<Rightarrow> int \<Rightarrow> bool" where
  "should_delete b draw = flt (Fin (fl (of_int draw / 1000))) (pdb_deleteRatio b)"

definition Build_post ::
  "template \<Rightarrow> requestPostDelBuilder \<Rightarrow> entropy \<Rightarrow> (Requester \<times> requestPostDelBuilder) outcome" where
  "Build_post pod_template b ent =
     (let comps = api_comps (pdb_version b) @ ns_comps (pdb_namespace b) @ [pdb_resource b];
          counter = wrap64 (pdb_resourceCounter b + 1);
          b' = b\<lparr>pdb_resourceCounter := counter\<rparr>;
          name = suffixed (itoa (ent_now ent)) counter
      in bind_outcome (randomPayload (pdb_payloadSize b) (ent_bytes ent)) (\<lambda>payload.
           case RenderTemplate pod_template (pdb_resource b) name (pdb_namespace b) payload of
             None \<Rightarrow> Panic
           | Some bdy \<Rightarrow> Return (PostDelDiscardRequester name ''POST''
               \<lparr>br_method = ''POST'',
                br_req = (rest_verb ''POST'' comps (pdb_maxRetries b))\<lparr>rq_body := RawBody bdy\<rparr>\<rparr>,
               b')))"

definition Build_postdel ::
  "template \<Rightarrow> requestPostDelBuilder \<Rightarrow> entropy \<Rightarrow> (Requester \<times> requestPostDelBuilder) outcome" where
  "Build_postdel pod_template b ent =
     bind_outcome (of_option (rand_Int 1000 (ent_int ent))) (\<lambda>draw.
       if should_delete b draw then
         (case Cache_Pop (pdb_cache b) of
            ((name, True), c) \<Rightarrow> Return (PostDelDiscardRequester name ''DELETE''
               \<lparr>br_method = ''DELETE'',
                br_req = rest_verb ''DELETE''
                  (api_comps (pdb_version b) @ ns_comps (pdb_namespace b) @ [pdb_resource b, name])
                  (pdb_maxRetries b)\<rparr>, b\<lparr>pdb_cache := c\<rparr>)
          | ((name, False), c) \<Rightarrow> Build_post pod_template (b\<lparr>pdb_cache := c\<rparr>) ent)
       else Build_post pod_template b ent)"

record requestPutBuilder =
  ub_version :: GroupVersion
  ub_resource :: string
  ub_namespace :: string
  ub_name :: string
  ub_keySpaceSize :: int
  ub_payloadSize :: int
  ub_maxRetries :: int

definition newRequestPutBuilder :: "RequestPut \<Rightarrow> int \<Rightarrow> requestPutBuilder" where
  "newRequestPutBuilder src maxRetries =
     \<lparr>ub_version = \<lparr>gv_Group = Group src, gv_Version = Version src\<rparr>, ub_resource = Resource src,
      ub_namespace = put_Namespace src, ub_name = put_Name src,
      ub_keySpaceSize = put_KeySpaceSize src, ub_payloadSize = put_PayloadSize src,
      ub_maxRetries = maxRetries\<rparr>"

definition Build_put :: "requestPutBuilder \<Rightarrow> entropy \<Rightarrow> Requester outcome" where
  "Build_put b ent =
     bind_outcome (of_option (rand_Int (ub_keySpaceSize b) (ent_int ent))) (\<lambda>i.
       let finalName = suffixed (ub_name b) i
       in bind_outcome (randomPayload (ub_payloadSize b) (ent_bytes ent)) (\<lambda>payload.
            Return (DiscardRequester
              \<lparr>br_method = ''PUT'',
               br_req = (rest_verb ''PUT''
                   ([''api'', gv_Version (ub_version b), ''namespaces'', ub_namespace b, ub_resource b]
                      @ [finalName])
                   (ub_maxRetries b))
                 \<lparr>rq_body := ConfigMapJSON finalName (ub_namespace b) payload\<rparr>\<rparr>)))"

section \<open>The generator\<close>

datatype RESTRequestBuilder =
  GetBuilder requestGetBuilder
| ListBuilder requestListBuilder
| WatchListBuilder requestWatchListBuilder
| PodLogBuilder requestGetPodLogBuilder
| PatchBuilder requestPatchBuilder
| PostDelBuilder requestPostDelBuilder
| PutBuilder requestPutBuilder

text \<open>\<^verbatim>\<open>Build\<close> of the interface, with the builder as it is afterwards: only post/delete builders
  have state.\<close>

fun Build ::
  "template \<Rightarrow> RESTRequestBuilder \<Rightarrow> entropy \<Rightarrow> (Requester \<times> RESTRequestBuilder) outcome" where
  "Build tpl (GetBuilder b) ent = Return (Build_get b, GetBuilder b)"
| "Build tpl (ListBuilder b) ent = Return (Build_list b, ListBuilder b)"
| "Build tpl (WatchListBuilder b) ent = Return (Build_watchlist b, WatchListBuilder b)"
| "Build tpl (PodLogBuilder b) ent = Return (Build_podlog b, PodLogBuilder b)"
| "Build tpl (PatchBuilder b) ent =
     bind_outcome (Build_patch b ent) (\<lambda>r. Return (r, PatchBuilder b))"
| "Build tpl (PostDelBuilder b) ent =
     bind_outcome (Build_postdel tpl b ent) (\<lambda>(r, b'). Return (r, PostDelBuilder b'))"
| "Build tpl (PutBuilder b) ent =
     bind_outcome (Build_put b ent) (\<lambda>r. Return (r, PutBuilder b))"

record WeightedRandomRequests =
  shares :: "int list"
  reqBuilders :: "RESTRequestBuilder list"

datatype new_error = InvalidSpec verror | UnknownRequestType WeightedRequest

text \<open>The switch over the request types, in the order of the generator.\<close>

definition request_builder :: "int \<Rightarrow> WeightedRequest \<Rightarrow> RESTRequestBuilder option" where
  "request_builder maxRetries r =
     (case StaleList r of Some q \<Rightarrow> Some (ListBuilder (newRequestListBuilder q ''0'' maxRetries)) | None \<Rightarrow>
     (case QuorumList r of Some q \<Rightarrow> Some (ListBuilder (newRequestListBuilder q '''' maxRetries)) | None \<Rightarrow>
     (case WatchList r of Some q \<Rightarrow> Some (WatchListBuilder (newRequestWatchListBuilder q maxRetries)) | None \<Rightarrow>
     (case StaleGet r of Some q \<Rightarrow> Some (GetBuilder (newRequestGetBuilder q ''0'' maxRetries)) | None \<Rightarrow>
     (case QuorumGet r of Some q \<Rightarrow> Some (GetBuilder (newRequestGetBuilder q '''' maxRetries)) | None \<Rightarrow>
     (case GetPodLog r of Some q \<Rightarrow> Some (PodLogBuilder (newRequestGetPodLogBuilder q maxRetries)) | None \<Rightarrow>
     (case Patch r of Some q \<Rightarrow> Some (PatchBuilder (newRequestPatchBuilder q '''' maxRetries)) | None \<Rightarrow>
     (case PostDel r of Some q \<Rightarrow> Some (PostDelBuilder (newRequestPostDelBuilder q '''' maxRetries)) | None \<Rightarrow>
     (case Put r of Some q \<Rightarrow> Some (PutBuilder (newRequestPutBuilder q maxRetries)) | None \<Rightarrow> None)))))))))"

fun build_all ::
  "int \<Rightarrow> WeightedRequest option list \<Rightarrow> (new_error + int list \<times> RESTRequestBuilder list) outcome" where
  "build_all maxRetries [] = Return (Inr ([], []))"
| "build_all maxRetries (None # rs) = Panic"
| "build_all maxRetries (Some r # rs) =
     (case request_builder maxRetries r of
        None \<Rightarrow> Return (Inl (UnknownRequestType r))
      | Some b \<Rightarrow>
          bind_outcome (build_all maxRetries rs) (\<lambda>res.
            case res of
              Inl e \<Rightarrow> Return (Inl e)
            | Inr (ss, bs) \<Rightarrow> Return (Inr (Shares r # ss, b # bs))))"

text \<open>The spec is passed by pointer: validation may trim its patch bodies.\<close>

definition NewWeightedRandomRequests ::
  "LoadProfileSpec \<Rightarrow> (new_error + WeightedRandomRequests) outcome \<times> LoadProfileSpec" where
  "NewWeightedRandomRequests spec =
     (case LoadProfileSpec_Validate spec of
        (Invalid e, spec') \<Rightarrow> (Return (Inl (InvalidSpec e)), spec')
      | (NilDereference, spec') \<Rightarrow> (Panic, spec')
      | (Valid, spec') \<Rightarrow>
          (bind_outcome (build_all (MaxRetries spec') (Requests spec')) (\<lambda>res.
             case res of
               Inl e \<Rightarrow> Return (Inl e)
             | Inr (ss, bs) \<Rightarrow> Return (Inr \<lparr>shares = ss, reqBuilders = bs\<rparr>)), spec'))"

definition sum_shares :: "int list \<Rightarrow> int" where
  "sum_shares ss = foldl (\<lambda>sum s. wrap64 (sum + s)) 0 ss"

fun pick_index :: "int list \<Rightarrow> int \<Rightarrow> nat option" where
  "pick_index [] rnd = None"
| "pick_index (s # ss) rnd =
     (if rnd < s then Some 0 else map_option Suc (pick_index ss (wrap64 (rnd - s))))"

text \<open>The index of the builder that \<^verbatim>\<open>randomPick\<close> returns; \<open>None\<close> is a panic, either of
  \<^verbatim>\<open>rand.Int\<close> or of the unreachable end of the loop.\<close>

definition randomPick :: "WeightedRandomRequests \<Rightarrow> int \<Rightarrow> nat option" where
  "randomPick r draw =
     (case rand_Int (sum_shares (shares r)) draw of
        None \<Rightarrow> None
      | Some rnd \<Rightarrow> pick_index (shares r) rnd)"

section \<open>Requesters\<close>

record url =
  url_prefix :: string
  url_path :: string
  url_query :: string

text \<open>\<^verbatim>\<open>MaskedURL\<close>: the object name of requests to a single object is replaced, so that their
  metrics are aggregated. \<open>request_url\<close> is \<^verbatim>\<open>Request.URL\<close> of client-go; parsing the printed
  form of a URL gives the URL back.\<close>

definition MaskedURL :: "(rest_Request \<Rightarrow> url) \<Rightarrow> BaseRequester \<Rightarrow> url" where
  "MaskedURL request_url reqr =
     (let originalURL = request_url (br_req reqr)
      in if br_method reqr = ''DELETE'' \<or> br_method reqr = ''PATCH'' \<or> br_method reqr = ''PUT''
         then originalURL\<lparr>url_path := path_join [path_dir (url_path originalURL), '':name'']\<rparr>
         else originalURL)"

definition Timeout :: "int \<Rightarrow> BaseRequester \<Rightarrow> BaseRequester" where
  "Timeout t reqr = reqr\<lparr>br_req := (br_req reqr)\<lparr>rq_timeout := t\<rparr>\<rparr>"

text \<open>\<^verbatim>\<open>Stream\<close> of client-go either fails or opens a body; copying the body to nowhere gives
  the number of bytes read and possibly an error.\<close>

definition DiscardRequester_Do :: "goerr + (int \<times> goerr option) \<Rightarrow> int \<times> goerr option" where
  "DiscardRequester_Do stream =
     (case stream of Inl err \<Rightarrow> (0, Some err) | Inr (n, err) \<Rightarrow> (n, err))"

text \<open>\<^verbatim>\<open>Watch\<close> and the event loop \<^verbatim>\<open>handleAnyWatch\<close> of client-go, which reports whether the
  bookmark that ends the initial events was received.\<close>

definition no_bookmark :: goerr where
  "no_bookmark = \<lparr>err_text = ''don't receive bookmark'', err_chain = [plain_link]\<rparr>"

definition WatchListRequester_Do :: "goerr + (goerr + bool) \<Rightarrow> int \<times> goerr option" where
  "WatchListRequester_Do watch =
     (case watch of
        Inl err \<Rightarrow> (0, Some err)
      | Inr (Inl err) \<Rightarrow> (0, Some err)
      | Inr (Inr True) \<Rightarrow> (0, None)
      | Inr (Inr False) \<Rightarrow> (0, Some no_bookmark))"

definition PostDelDiscardRequester_Do ::
  "string \<Rightarrow> string \<Rightarrow> goerr + (int \<times> goerr option) \<Rightarrow> Cache \<Rightarrow> (int \<times> goerr option) \<times> Cache" where
  "PostDelDiscardRequester_Do name operation stream cache =
     (case DiscardRequester_Do stream of
        (n, err) \<Rightarrow>
          ((n, err),
           if operation = ''POST'' then (if err = None then Cache_Push name cache else cache)
           else if operation = ''DELETE'' then (if err \<noteq> None then Cache_Push name cache else cache)
           else cache))"

section \<open>The weighted choice\<close>

lemma sum_shares_foldl:
  "is_int64 a \<Longrightarrow> foldl (\<lambda>sum s. wrap64 (sum + s)) a ss = wrap64 (a + sum_list ss)"
  by (induction ss arbitrary: a) (simp_all add: add.assoc)

lemma sum_shares_eq: "is_int64 (sum_list ss) \<Longrightarrow> sum_shares ss = sum_list ss"
  by (simp add: sum_shares_def sum_shares_foldl)

lemma pick_index_iff:
  assumes "list_all (\<lambda>s. 0 \<le> s) ss" "0 \<le> rnd" "rnd < 2 ^ 63"
  shows "pick_index ss rnd = Some i \<longleftrightarrow>
    i < length ss \<and> sum_list (take i ss) \<le> rnd \<and> rnd < sum_list (take (Suc i) ss)"
  using assms
proof (induction ss arbitrary: rnd i)
  case (Cons s ss)
  show ?case
  proof (cases "rnd < s")
    case True
    have nonneg: "0 \<le> sum_list (take j ss)" for j
      using Cons.prems by (intro sum_list_nonneg) (auto simp: list_all_iff dest: in_set_takeD)
    with True Cons.prems(2) show ?thesis by (cases i) (auto, smt (verit) nonneg)
  next
    case False
    with Cons.prems have w: "wrap64 (rnd - s) = rnd - s" by (simp add: is_int64_def)
    show ?thesis
    proof (cases i)
      case (Suc j)
      have "pick_index ss (rnd - s) = Some j \<longleftrightarrow>
          j < length ss \<and> sum_list (take j ss) \<le> rnd - s \<and> rnd - s < sum_list (take (Suc j) ss)"
        using Cons.prems False by (intro Cons.IH) auto
      with False w Suc show ?thesis by auto
    qed (use False w in auto)
  qed
qed simp

lemma prefix_covers:
  fixes ss :: "int list"
  assumes "list_all (\<lambda>s. 0 \<le> s) ss" "0 \<le> rnd" "rnd < sum_list ss"
  shows "\<exists>i < length ss. sum_list (take i ss) \<le> rnd \<and> rnd < sum_list (take (Suc i) ss)"
  using assms
proof (induction ss arbitrary: rnd)
  case (Cons s ss)
  show ?case
  proof (cases "rnd < s")
    case True
    with Cons.prems show ?thesis by (intro exI [of _ 0]) auto
  next
    case False
    with Cons.prems Cons.IH [of "rnd - s"] obtain i where
      "i < length ss" "sum_list (take i ss) \<le> rnd - s" "rnd - s < sum_list (take (Suc i) ss)"
      by auto
    then show ?thesis by (intro exI [of _ "Suc i"]) auto
  qed
qed simp

lemma randomPick_Some:
  assumes "list_all (\<lambda>s. 0 \<le> s) (shares r)" "0 < sum_list (shares r)" "sum_list (shares r) < 2 ^ 63"
  shows "randomPick r d = Some i \<longleftrightarrow>
    i < length (shares r) \<and> sum_list (take i (shares r)) \<le> d mod sum_list (shares r) \<and>
    d mod sum_list (shares r) < sum_list (take (Suc i) (shares r))"
proof -
  let ?S = "sum_list (shares r)"
  have "sum_shares (shares r) = ?S" using assms by (intro sum_shares_eq) (simp add: is_int64_def)
  moreover have "pick_index (shares r) (d mod ?S) = Some i \<longleftrightarrow>
      i < length (shares r) \<and> sum_list (take i (shares r)) \<le> d mod ?S \<and>
      d mod ?S < sum_list (take (Suc i) (shares r))"
    using assms less_trans [OF pos_mod_bound [OF assms(2)] assms(3)]
    by (intro pick_index_iff) simp_all
  ultimately show ?thesis using assms(2) by (simp add: randomPick_def rand_Int_def)
qed

lemma randomPick_total:
  assumes "list_all (\<lambda>s. 0 \<le> s) (shares r)" "0 < sum_list (shares r)" "sum_list (shares r) < 2 ^ 63"
  shows "\<exists>i < length (shares r). randomPick r d = Some i"
  using randomPick_Some [OF assms] prefix_covers [OF assms(1), of "d mod sum_list (shares r)"] assms(2)
  by (auto simp: pos_mod_bound)

lemma sum_list_take_le:
  "list_all (\<lambda>s. 0 \<le> s) ss \<Longrightarrow> sum_list (take i ss) \<le> sum_list (ss :: int list)"
proof -
  assume a: "list_all (\<lambda>s. 0 \<le> s) ss"
  have "0 \<le> sum_list (drop i ss)"
    using a by (intro sum_list_nonneg) (auto simp: list_all_iff dest: in_set_dropD)
  then show ?thesis by (metis append_take_drop_id sum_list_append le_add_same_cancel1)
qed

section \<open>The payload\<close>

lemma length_alphabet [simp]: "length alphabet = 62"
  by (simp add: alphabet_def)

lemma threshold_eq: "threshold = 248"
  by (simp add: threshold_def)

lemma distinct_alphabet: "distinct alphabet"
  by (simp add: alphabet_def)

definition accepted :: "8 word \<Rightarrow> bool" where
  "accepted b \<longleftrightarrow> b < threshold"

lemma scan_buf_eq:
  "length out < n \<Longrightarrow>
     scan_buf n out bs = take n (out @ map payload_char (filter accepted bs))"
  by (induction bs arbitrary: out) (auto simp: Let_def accepted_def not_le take_Cons')

lemma take_take_append:
  "take n (take n xs @ ys) = take n (xs @ ys)"
  "n \<le> length (take n xs @ ys) \<longleftrightarrow> n \<le> length (xs @ ys)"
  by (cases "n \<le> length xs"; simp)+

lemma payload_loop_eq:
  assumes "0 < m" "length out \<le> n"
  shows "payload_loop n m out src =
    (let chars = out @ map payload_char (filter accepted (take (m * (length src div m)) src))
     in if n \<le> length chars then Return (take n chars) else Pending)"
  using assms
proof (induction n m out src rule: payload_loop.induct)
  case (1 n m out src)
  show ?case
  proof (cases "n \<le> length out \<or> length src < m")
    case True
    with "1.prems" show ?thesis by (subst payload_loop.simps) auto
  next
    case False
    let ?buf = "take m src" and ?rest = "drop m src"
    let ?k = "m * (length src div m)"
    have buf: "scan_buf n out ?buf = take n (out @ map payload_char (filter accepted ?buf))"
      using False by (intro scan_buf_eq) simp
    have k: "?k = m + m * (length ?rest div m)"
      using False "1.prems"(1) by (simp add: le_div_geq)
    then have split: "take ?k src = ?buf @ take (m * (length ?rest div m)) ?rest"
      by (simp add: take_add)
    have "payload_loop n m out src = payload_loop n m (scan_buf n out ?buf) ?rest"
      using False "1.prems" by (subst payload_loop.simps) auto
    also have "\<dots> = (let chars = scan_buf n out ?buf @
        map payload_char (filter accepted (take (m * (length ?rest div m)) ?rest))
      in if n \<le> length chars then Return (take n chars) else Pending)"
      using False "1.prems" buf by (intro "1.IH") auto
    finally show ?thesis
      unfolding buf split Let_def take_take_append by (simp only: map_append filter_append append_assoc)
  qed
qed

lemma randomPayload_eq:
  assumes "0 < n"
  shows "randomPayload n src =
    (let m = nat (min n 4096);
         chars = map payload_char (filter accepted (take (m * (length src div m)) src))
     in if nat n \<le> length chars then Return (take (nat n) chars) else Pending)"
  using assms payload_loop_eq [of "if n > 4096 then 4096 else nat n" "[]" "nat n" src]
  by (auto simp: randomPayload_def min_def Let_def)

lemma randomPayload_Return:
  assumes "randomPayload n src = Return s"
  shows "length s = nat n \<and> set s \<subseteq> set alphabet \<and> s = map payload_char (take (nat n) (filter accepted src))"
proof (cases "0 < n")
  case True
  define k where "k = nat (min n 4096) * (length src div nat (min n 4096))"
  from assms True have s: "s = take (nat n) (map payload_char (filter accepted (take k src)))"
    and len: "nat n \<le> length (filter accepted (take k src))"
    by (auto simp: randomPayload_eq Let_def k_def split: if_splits)
  have "filter accepted src = filter accepted (take k src) @ filter accepted (drop k src)"
    by (metis append_take_drop_id filter_append)
  with s len have eq: "s = map payload_char (take (nat n) (filter accepted src))"
    by (simp add: take_map)
  have "payload_char b \<in> set alphabet" for b by (simp add: payload_char_def)
  moreover have "length s = nat n" using s len by simp
  ultimately show ?thesis using eq by auto
qed (use assms in \<open>simp add: randomPayload_def\<close>)

lemma residues_62: "i < 62 \<Longrightarrow> {j :: nat. j < 248 \<and> j mod 62 = i} = {i, i + 62, i + 124, i + 186}"
proof (intro set_eqI iffI)
  fix j assume i: "i < 62" and "j \<in> {j. j < 248 \<and> j mod 62 = i}"
  then have j: "j = 62 * (j div 62) + i" and "j div 62 < 4" by auto
  then have "j div 62 \<in> {0, 1, 2, 3}" by auto
  then show "j \<in> {i, i + 62, i + 124, i + 186}" by (elim insertE) (use j in auto)
next
  fix j assume "i < 62" "j \<in> {i, i + 62, i + 124, i + 186}"
  then show "j \<in> {j. j < 248 \<and> j mod 62 = i}"
    using mod_mult_self1 [of i 2 62] mod_mult_self1 [of i 3 62] by auto
qed

lemma card_word8:
  assumes "\<And>j. P j \<Longrightarrow> j < 256"
  shows "card {b :: 8 word. P (unat b)} = card {j. P j}"
proof (rule bij_betw_same_card [of unat])
  have "unat (of_nat j :: 8 word) = j" if "P j" for j
    using assms [OF that] by (simp add: unat_of_nat)
  then show "bij_betw unat {b :: 8 word. P (unat b)} {j. P j}"
    by (intro bij_betw_byWitness [where f' = of_nat]) auto
qed

section \<open>From a validated spec to builders\<close>

text \<open>The builder for one kind of request.\<close>

fun kind_builder :: "int \<Rightarrow> request_kind \<Rightarrow> RESTRequestBuilder" where
  "kind_builder m (KStaleList q) = ListBuilder (newRequestListBuilder q ''0'' m)"
| "kind_builder m (KQuorumList q) = ListBuilder (newRequestListBuilder q '''' m)"
| "kind_builder m (KWatchList q) = WatchListBuilder (newRequestWatchListBuilder q m)"
| "kind_builder m (KStaleGet q) = GetBuilder (newRequestGetBuilder q ''0'' m)"
| "kind_builder m (KQuorumGet q) = GetBuilder (newRequestGetBuilder q '''' m)"
| "kind_builder m (KPut q) = PutBuilder (newRequestPutBuilder q m)"
| "kind_builder m (KPatch q) = PatchBuilder (newRequestPatchBuilder q '''' m)"
| "kind_builder m (KGetPodLog q) = PodLogBuilder (newRequestGetPodLogBuilder q m)"
| "kind_builder m (KPostDel q) = PostDelBuilder (newRequestPostDelBuilder q '''' m)"

lemma set_kinds_Nil:
  "set_kinds r = [] \<longleftrightarrow>
     StaleList r = None \<and> QuorumList r = None \<and> WatchList r = None \<and> StaleGet r = None \<and>
     QuorumGet r = None \<and> Put r = None \<and> Patch r = None \<and> GetPodLog r = None \<and> PostDel r = None"
  using case_set_kinds [of True "\<lambda>_. False" r] by (cases "set_kinds r") (simp_all split: option.splits)

lemma request_builder_None: "request_builder m r = None \<longleftrightarrow> set_kinds r = []"
  unfolding set_kinds_Nil request_builder_def by (simp split: option.split)

lemma request_builder_mem:
  "request_builder m r = Some b \<Longrightarrow> b \<in> kind_builder m ` set (set_kinds r)"
  unfolding request_builder_def
  by (cases "StaleList r"; simp add: set_kinds_def; cases "QuorumList r"; simp;
      cases "WatchList r"; simp; cases "StaleGet r"; simp; cases "QuorumGet r"; simp;
      cases "GetPodLog r"; simp; cases "Patch r"; simp; cases "PostDel r"; simp;
      cases "Put r"; simp)

lemma request_builder_single:
  "set_kinds r = [k] \<Longrightarrow> request_builder m r = Some (kind_builder m k)"
  using request_builder_mem [of m r] request_builder_None [of m r]
  by (cases "request_builder m r") auto

lemma build_all_ok:
  assumes "\<forall>r \<in> set rs. \<exists>q. r = Some q \<and> set_kinds q \<noteq> []"
  shows "build_all m rs =
    Return (Inr (map (Shares \<circ> the) rs, map (the \<circ> request_builder m \<circ> the) rs))"
  using assms
proof (induction rs)
  case (Cons r rs)
  then obtain q where q: "r = Some q" "set_kinds q \<noteq> []" by auto
  then obtain b where "request_builder m q = Some b"
    using request_builder_None [of m q] by (cases "request_builder m q") auto
  with q Cons show ?case by simp
qed simp

lemma Valid_requests:
  assumes "LoadProfileSpec_Validate spec = (Valid, spec')"
  shows "\<forall>r \<in> set (Requests spec'). \<exists>q. r = Some q \<and> request_ok q"
    and "map (Shares \<circ> the) (Requests spec') = map (Shares \<circ> the) (Requests spec)"
    and "MaxRetries spec' = MaxRetries spec"
proof -
  obtain rs where rs: "validate_requests 0 (Requests spec) = (Valid, rs)" "spec' = spec\<lparr>Requests := rs\<rparr>"
    using assms unfolding LoadProfileSpec_Validate_Valid by blast
  have "validate_requests 0 rs = (Valid, rs)" using rs(1) validate_requests_idem by blast
  then show "\<forall>r \<in> set (Requests spec'). \<exists>q. r = Some q \<and> request_ok q"
    using validate_requests_total [of 0 rs] rs(2) by auto
  have "Shares q' = Shares q" if "WeightedRequest_Validate q = (None, q')" for q q'
    using that by (auto simp: WeightedRequest_Validate_alt split: if_splits list.splits)
  then show "map (Shares \<circ> the) (Requests spec') = map (Shares \<circ> the) (Requests spec)"
    using rs unfolding validate_requests_Valid
    by (auto simp: list_all2_conv_all_nth intro!: nth_equalityI)
  show "MaxRetries spec' = MaxRetries spec" using rs(2) by simp
qed

lemma NewWeightedRandomRequests_ok:
  assumes "LoadProfileSpec_Validate spec = (Valid, spec')"
  shows "NewWeightedRandomRequests spec =
    (Return (Inr \<lparr>shares = map (Shares \<circ> the) (Requests spec),
       reqBuilders = map (the \<circ> request_builder (MaxRetries spec) \<circ> the) (Requests spec')\<rparr>), spec')"
proof -
  have "\<forall>r \<in> set (Requests spec'). \<exists>q. r = Some q \<and> set_kinds q \<noteq> []"
    using Valid_requests(1) [OF assms] by (auto simp: request_ok_def)
  from build_all_ok [OF this, of "MaxRetries spec'"] show ?thesis
    using assms Valid_requests(2,3) [OF assms] by (simp add: NewWeightedRandomRequests_def)
qed

lemma Valid_shares_nonneg:
  assumes "LoadProfileSpec_Validate spec = (Valid, spec')"
  shows "list_all (\<lambda>s. 0 \<le> s) (map (Shares \<circ> the) (Requests spec))"
proof -
  have "list_all (\<lambda>s. 0 \<le> s) (map (Shares \<circ> the) (Requests spec'))"
    using Valid_requests(1) [OF assms] by (auto simp: list_all_iff request_ok_def)
  then show ?thesis using Valid_requests(2) [OF assms] by simp
qed


section \<open>Paths and masked URLs\<close>

lemma plain_suffixed:
  assumes "CHR ''/'' \<notin> set name" "0 \<le> i"
  shows "plain_elem (suffixed name i)"
proof -
  have "CHR ''/'' \<notin> set (nat_digits n)" for n
    using nat_digits_is_digit [of n] by (auto simp: list_all_iff is_digit_def)
  then have "CHR ''/'' \<notin> set (itoa i)" using assms(2) by (simp add: itoa_def)
  then have "CHR ''/'' \<notin> set (suffixed name i)" using assms(1) by (simp add: suffixed_def)
  moreover have "CHR ''-'' \<in> set (suffixed name i)" by (simp add: suffixed_def)
  ultimately show ?thesis by (auto simp: plain_elem_def)
qed

text \<open>What kperf relies on from \<^verbatim>\<open>Request.URL\<close> of client-go: the path of a request whose elements
  are plain is these elements joined by slashes, and nothing else of the URL depends on
  the path.\<close>

definition url_of_path :: "(rest_Request \<Rightarrow> url) \<Rightarrow> bool" where
  "url_of_path request_url \<longleftrightarrow>
     (\<forall>rq. list_all plain_elem (rq_path rq) \<longrightarrow>
        url_path (request_url rq) = ''/'' @ str_join ''/'' (rq_path rq)) \<and>
     (\<forall>rq comps. url_prefix (request_url (rq\<lparr>rq_path := comps\<rparr>)) = url_prefix (request_url rq) \<and>
        url_query (request_url (rq\<lparr>rq_path := comps\<rparr>)) = url_query (request_url rq))"

lemma MaskedURL_plain:
  assumes "url_of_path request_url" "br_method reqr \<in> {''DELETE'', ''PATCH'', ''PUT''}"
    and "rq_path (br_req reqr) = comps @ [e]" "list_all plain_elem comps" "plain_elem e"
  shows "MaskedURL request_url reqr =
    (request_url (br_req reqr))\<lparr>url_path := ''/'' @ str_join ''/'' (comps @ ['':name''])\<rparr>"
proof -
  have "url_path (request_url (br_req reqr)) = ''/'' @ str_join ''/'' (comps @ [e])"
    using assms by (simp add: url_of_path_def)
  moreover have "plain_elem '':name''" by (simp add: plain_elem_def)
  ultimately show ?thesis
    using assms path_dir_plain [OF assms(4,5)] path_join_dir_plain [OF assms(4), of "'':name''"]
    by (auto simp: MaskedURL_def Let_def)
qed

lemma url_same_but_path:
  assumes "url_of_path request_url" "rq' = rq\<lparr>rq_path := comps\<rparr>"
  shows "(request_url rq')\<lparr>url_path := p\<rparr> = (request_url rq)\<lparr>url_path := p\<rparr>"
  using assms by (auto simp: url_of_path_def)


lemma of_option_rand_Int [simp]:
  "of_option (rand_Int m d) = (if m \<le> 0 then Panic else Return (d mod m))"
  by (simp add: of_option_def rand_Int_def)

lemma randomPayload_no_panic [simp]: "randomPayload n src \<noteq> Panic"
proof (cases "0 < n")
  case True
  then show ?thesis by (simp add: randomPayload_eq Let_def)
qed (simp add: randomPayload_def)

lemma Build_postdel_empty:
  "items (pdb_cache b) = [] \<Longrightarrow> Build_postdel tpl b ent = Build_post tpl b ent"
  by (simp add: Build_postdel_def Cache_Pop_def)

lemma Build_post_Panic:
  "Build_post tpl b ent = Panic \<longleftrightarrow>
     (\<exists>s. randomPayload (pdb_payloadSize b) (ent_bytes ent) = Return s \<and>
        RenderTemplate tpl (pdb_resource b)
          (suffixed (itoa (ent_now ent)) (wrap64 (pdb_resourceCounter b + 1))) (pdb_namespace b) s = None)"
  by (cases "randomPayload (pdb_payloadSize b) (ent_bytes ent)")
    (auto simp: Build_post_def Let_def split: option.splits)

lemma bind_outcome_Panic:
  "bind_outcome x f = Panic \<longleftrightarrow> x = Panic \<or> (\<exists>y. x = Return y \<and> f y = Panic)"
  by (cases x) auto

lemma Build_patch_Panic: "Build_patch b ent = Panic \<longleftrightarrow> pb_keySpaceSize b \<le> 0"
  by (simp add: Build_patch_def bind_outcome_Panic Let_def)

lemma Build_put_Panic: "Build_put b ent = Panic \<longleftrightarrow> ub_keySpaceSize b \<le> 0"
  by (simp add: Build_put_def bind_outcome_Panic Let_def)

lemma kind_builder_panics:
  assumes "kind_ok k"
  shows "Build tpl (kind_builder m k) ent = Panic \<longleftrightarrow>
    (case k of
       KPatch q \<Rightarrow> patch_KeySpaceSize q \<le> 0
     | KPostDel q \<Rightarrow>
         (\<exists>s. randomPayload (pd_PayloadSize q) (ent_bytes ent) = Return s \<and>
            RenderTemplate tpl (Resource q) (suffixed (itoa (ent_now ent)) 1) (pd_Namespace q) s = None)
     | _ \<Rightarrow> False)"
proof (cases k)
  case (KPostDel q)
  let ?b = "newRequestPostDelBuilder q [] m"
  have "Build_postdel tpl ?b ent = Build_post tpl ?b ent"
    by (intro Build_postdel_empty) (simp add: newRequestPostDelBuilder_def InitCache_def)
  moreover have "wrap64 1 = 1" by (simp add: is_int64_def)
  ultimately show ?thesis using KPostDel Build_post_Panic [of tpl ?b ent]
    by (simp add: bind_outcome_Panic split_paired_Ex newRequestPostDelBuilder_def)
qed (use assms in \<open>simp_all add: bind_outcome_Panic Build_patch_Panic Build_put_Panic
    newRequestPatchBuilder_def newRequestPutBuilder_def\<close>)

section \<open>Properties\<close>

text \<open>
  C8: the weighted choice has exactly the configured distribution. For non-negative shares
  with a positive sum below 2^63, no draw makes \<^verbatim>\<open>randomPick\<close> panic, and of the equally
  likely values that \<^verbatim>\<open>rand.Int\<close> may return, exactly \<^verbatim>\<open>shares[i]\<close> select builder \<^verbatim>\<open>i\<close>.
\<close>

theorem random_pick_distribution:
  assumes "list_all (\<lambda>s. 0 \<le> s) (shares r)" "0 < sum_list (shares r)" "sum_list (shares r) < 2 ^ 63"
    and "i < length (shares r)"
  shows "card {d \<in> {0..<sum_list (shares r)}. randomPick r d = Some i} = nat (shares r ! i) \<and>
    (\<exists>j. randomPick r draw = Some j)"
proof -
  let ?lo = "sum_list (take i (shares r))"
  have step: "sum_list (take (Suc i) (shares r)) = ?lo + shares r ! i"
    using assms(4) by (simp add: take_Suc_conv_app_nth)
  have "0 \<le> ?lo"
    using assms(1) by (intro sum_list_nonneg) (auto simp: list_all_iff dest: in_set_takeD)
  moreover have "?lo + shares r ! i \<le> sum_list (shares r)"
    using sum_list_take_le [OF assms(1), of "Suc i"] step by simp
  moreover have "randomPick r d = Some i \<longleftrightarrow> ?lo \<le> d \<and> d < ?lo + shares r ! i"
    if "0 \<le> d" "d < sum_list (shares r)" for d
    using randomPick_Some [OF assms(1-3), of d i] that assms(4) by (simp only: step mod_pos_pos_trivial) simp
  ultimately have "{d \<in> {0..<sum_list (shares r)}. randomPick r d = Some i} = {?lo..<?lo + shares r ! i}"
    by fastforce
  then show ?thesis using randomPick_total [OF assms(1-3)] by auto
qed

theorem random_pick_distribution_witness:
  "card {d \<in> {0..<sum_list [2, 0, 3 :: int]}.
     randomPick \<lparr>shares = [2, 0, 3], reqBuilders = []\<rparr> d = Some 2} = 3"
  using random_pick_distribution [of "\<lparr>shares = [2, 0, 3], reqBuilders = []\<rparr>" 2 0] by simp

text \<open>
  C32: every spec that validation accepts yields a generator: no request is left without a
  builder, shares are kept and non-negative, and a request with a single request type set
  gets the builder of that type.
\<close>

theorem validated_spec_generates:
  assumes "LoadProfileSpec_Validate spec = (Valid, spec')"
  shows "\<exists>w. NewWeightedRandomRequests spec = (Return (Inr w), spec') \<and>
    shares w = map (Shares \<circ> the) (Requests spec) \<and> list_all (\<lambda>s. 0 \<le> s) (shares w) \<and>
    length (reqBuilders w) = length (shares w) \<and>
    (\<forall>i < length (Requests spec'). \<forall>k. set_kinds (the (Requests spec' ! i)) = [k] \<longrightarrow>
       reqBuilders w ! i = kind_builder (MaxRetries spec) k)"
proof -
  have "length (Requests spec') = length (Requests spec)"
    using arg_cong [OF Valid_requests(2) [OF assms], of length] by simp
  then show ?thesis
    using NewWeightedRandomRequests_ok [OF assms] Valid_shares_nonneg [OF assms]
    by (auto simp: request_builder_single)
qed

theorem validated_spec_generates_witness:
  "LoadProfileSpec_Validate (sample_spec [sample_get]) = (Valid, sample_spec [sample_get]) \<and>
   (\<exists>w. NewWeightedRandomRequests (sample_spec [sample_get]) = (Return (Inr w), sample_spec [sample_get])
      \<and> shares w = [3])"
proof -
  have v: "LoadProfileSpec_Validate (sample_spec [sample_get]) = (Valid, sample_spec [sample_get])"
    by (simp add: sample_spec_def sample_get_def empty_request_def LoadProfileSpec_Validate_def
        ContentType_Validate_def WeightedRequest_Validate_def RequestGet_Validate_def
        kube_metadata_def KGVR_Validate_def del: KGVR_Validate_None kube_metadata_None)
  with validated_spec_generates [OF v] show ?thesis
    by (auto simp: sample_spec_def sample_get_def)
qed

text \<open>
  C35: validation does not exclude a generator that cannot pick. For an accepted spec whose
  shares stay below 2^63, \<^verbatim>\<open>randomPick\<close> panics on a draw exactly when all shares are zero,
  in particular when the spec has no requests.
\<close>

theorem pick_panics_iff_no_shares:
  assumes "LoadProfileSpec_Validate spec = (Valid, spec')"
    and "NewWeightedRandomRequests spec = (Return (Inr w), spec')"
    and "sum_list (shares w) < 2 ^ 63"
  shows "randomPick w draw = None \<longleftrightarrow> (\<forall>s \<in> set (shares w). s = 0)"
proof -
  have nonneg: "list_all (\<lambda>s. 0 \<le> s) (shares w)"
    using assms(2) NewWeightedRandomRequests_ok [OF assms(1)] Valid_shares_nonneg [OF assms(1)] by auto
  then have sum: "0 \<le> sum_list (shares w)"
    "sum_list (shares w) = 0 \<longleftrightarrow> (\<forall>s \<in> set (shares w). s = 0)"
    by (auto simp: list_all_iff sum_list_nonneg sum_list_nonneg_eq_0_iff)
  show ?thesis
  proof (cases "sum_list (shares w) = 0")
    case True
    then show ?thesis using sum by (simp add: randomPick_def sum_shares_eq is_int64_def rand_Int_def)
  next
    case False
    then show ?thesis using randomPick_total [OF nonneg _ assms(3), of draw] sum by auto
  qed
qed

theorem pick_panics_iff_no_shares_witness:
  "LoadProfileSpec_Validate (sample_spec []) = (Valid, sample_spec []) \<and>
   randomPick \<lparr>shares = [], reqBuilders = []\<rparr> 7 = None"
proof -
  have v: "LoadProfileSpec_Validate (sample_spec []) = (Valid, sample_spec [])"
    by (simp add: sample_spec_def LoadProfileSpec_Validate_def ContentType_Validate_def)
  moreover have "NewWeightedRandomRequests (sample_spec []) =
      (Return (Inr \<lparr>shares = [], reqBuilders = []\<rparr>), sample_spec [])"
    using v by (simp add: NewWeightedRandomRequests_def sample_spec_def)
  ultimately show ?thesis using pick_panics_iff_no_shares [OF v, of _ 7] by simp
qed



text \<open>
  A payload that \<^verbatim>\<open>randomPayload\<close> returns has exactly \<^verbatim>\<open>n\<close> characters (none for
  \<^verbatim>\<open>n <= 0\<close>), all of the alphabet, and is the image of the first \<^verbatim>\<open>n\<close> accepted bytes of the
  source, across the boundaries of the 4096-byte buffers.
\<close>

theorem random_payload_exact:
  assumes "randomPayload n src = Return s"
  shows "length s = nat n \<and> set s \<subseteq> set alphabet \<and>
    s = map payload_char (take (nat n) (filter accepted src))"
  by (rule randomPayload_Return [OF assms])

theorem random_payload_exact_witness:
  "randomPayload 2 [255, 61, 62, 7] = Return [payload_char 61, payload_char 62] \<and>
   set [payload_char 61, payload_char 62] \<subseteq> set alphabet"
proof -
  have "randomPayload 2 [255, 61, 62, 7] = Return [payload_char 61, payload_char 62]"
    by (simp add: randomPayload_def payload_loop.simps threshold_eq Let_def)
  with random_payload_exact [OF this] show ?thesis by blast
qed

text \<open>
  \<^verbatim>\<open>randomPayload\<close> returns as soon as the source has produced enough accepted bytes: if
  the first \<open>k\<close> buffers contain \<^verbatim>\<open>n\<close> of them, the loop ends with the result.
\<close>

theorem random_payload_terminates:
  assumes "0 < n"
    and "nat n \<le> length (filter accepted (take (nat (min n 4096) * k) src))"
    and "nat (min n 4096) * k \<le> length src"
  shows "randomPayload n src = Return (map payload_char (take (nat n) (filter accepted src)))"
proof -
  let ?m = "nat (min n 4096)"
  have m: "0 < ?m" using assms(1) by simp
  then have "?m * k \<le> ?m * (length src div ?m)"
    using assms(3) by (simp add: less_eq_div_iff_mult_less_eq mult.commute)
  then have "take (?m * (length src div ?m)) src =
      take (?m * k) src @ take (?m * (length src div ?m) - ?m * k) (drop (?m * k) src)"
    by (metis le_add_diff_inverse take_add)
  then have "nat n \<le> length (filter accepted (take (?m * (length src div ?m)) src))"
    using assms(2) by simp
  then obtain s where "randomPayload n src = Return s"
    using assms(1) by (auto simp: randomPayload_eq Let_def)
  with randomPayload_Return [OF this] show ?thesis by simp
qed

theorem random_payload_terminates_witness:
  "randomPayload 2 [255, 61, 62, 7] = Return (map payload_char (take 2 (filter accepted [255, 61, 62, 7])))"
  using random_payload_terminates [of 2 2 "[255, 61, 62, 7]"]
  by (simp add: accepted_def threshold_eq)

text \<open>
  There is no modulo bias: every character of the alphabet is the image of exactly four
  of the accepted bytes.
\<close>

theorem random_payload_uniform:
  assumes "i < length alphabet"
  shows "card {b. accepted b \<and> payload_char b = alphabet ! i} = 4"
proof -
  have "{b. accepted b \<and> payload_char b = alphabet ! i} = {b. unat b < 248 \<and> unat b mod 62 = i}"
    using assms distinct_alphabet
    by (auto simp: accepted_def threshold_eq payload_char_def nth_eq_iff_index_eq word_less_nat_alt)
  also have "card \<dots> = card {j :: nat. j < 248 \<and> j mod 62 = i}"
    by (rule card_word8) auto
  also have "\<dots> = 4" using assms by (simp add: residues_62)
  finally show ?thesis .
qed

theorem random_payload_uniform_witness:
  "card {b. accepted b \<and> payload_char b = alphabet ! 61} = 4"
  by (rule random_payload_uniform) simp

text \<open>
  The masked URL aggregates the requests of one builder. Whatever objects two PATCH
  requests of a builder address, their masked URLs are equal and end in \<^verbatim>\<open>:name\<close>, provided
  the configured path elements contain no slash and client-go forms the URL path by
  joining the elements.
\<close>

theorem masked_url_aggregates:
  assumes "url_of_path request_url"
    and "list_all plain_elem (api_comps (pb_version b) @ ns_comps (pb_namespace b) @ [pb_resource b])"
    and "CHR ''/'' \<notin> set (pb_name b)"
    and "Build_patch b ent = Return r" "Build_patch b ent' = Return r'"
  shows "MaskedURL request_url (base r) = MaskedURL request_url (base r') \<and>
    url_path (MaskedURL request_url (base r)) = ''/'' @ str_join ''/''
      (api_comps (pb_version b) @ ns_comps (pb_namespace b) @ [pb_resource b, '':name''])"
proof -
  let ?cs = "api_comps (pb_version b) @ ns_comps (pb_namespace b) @ [pb_resource b]"
  have masked: "MaskedURL request_url (base q) =
      (request_url (br_req (base q)))\<lparr>url_path := ''/'' @ str_join ''/'' (?cs @ ['':name''])\<rparr>"
    if q: "Build_patch b e = Return q" for e q
  proof (rule MaskedURL_plain [OF assms(1) _ _ assms(2)])
    have pos: "0 < pb_keySpaceSize b" using q Build_patch_Panic [of b e] by force
    then show "plain_elem (suffixed (pb_name b) (ent_int e mod pb_keySpaceSize b))"
      by (intro plain_suffixed [OF assms(3)]) simp
  qed (use q in \<open>auto simp: Build_patch_def Let_def rest_verb_def split: if_splits\<close>)
  obtain comps where "br_req (base r') = (br_req (base r))\<lparr>rq_path := comps\<rparr>"
    using assms(4,5) by (auto simp: Build_patch_def Let_def rest_verb_def split: if_splits)
  from url_same_but_path [OF assms(1) this] masked [OF assms(4)] masked [OF assms(5)]
  show ?thesis by simp
qed

theorem masked_url_aggregates_witness:
  "url_path (MaskedURL (\<lambda>rq. \<lparr>url_prefix = ''https://h'', url_path = ''/'' @ str_join ''/'' (rq_path rq),
       url_query = []\<rparr>)
     \<lparr>br_method = ''PATCH'', br_req = (rest_verb ''PATCH'' [''api'', ''v1'', ''configmaps'', ''cm-3''] 0)
        \<lparr>rq_patchType := MergePatchType, rq_body := RawBody ''{}''\<rparr>\<rparr>) = ''/api/v1/configmaps/:name''"
proof -
  let ?u = "\<lambda>rq. \<lparr>url_prefix = ''https://h'', url_path = ''/'' @ str_join ''/'' (rq_path rq),
      url_query = []\<rparr>"
  let ?b = "\<lparr>pb_version = \<lparr>gv_Group = [], gv_Version = ''v1''\<rparr>, pb_resource = ''configmaps'',
    pb_resourceVersion = [], pb_namespace = [], pb_name = ''cm'', pb_keySpaceSize = 10,
    pb_patchType = MergePatchType, pb_body = ''{}'', pb_maxRetries = 0\<rparr>"
  let ?r = "DiscardRequester \<lparr>br_method = ''PATCH'',
    br_req = (rest_verb ''PATCH'' [''api'', ''v1'', ''configmaps'', ''cm-3''] 0)
        \<lparr>rq_patchType := MergePatchType, rq_body := RawBody ''{}''\<rparr>\<rparr>"
  have "nat_digits 3 = ''3''" by code_simp
  then have r: "Build_patch ?b \<lparr>ent_int = 13, ent_now = 0, ent_bytes = []\<rparr> = Return ?r"
    by (simp add: Build_patch_def api_comps_def ns_comps_def suffixed_def itoa_def)
  have u: "url_of_path ?u" by (simp add: url_of_path_def)
  show ?thesis using masked_url_aggregates [OF u _ _ r r]
    by (simp add: api_comps_def ns_comps_def plain_elem_def)
qed

end
