(* ===== verification/Post_Delete.thy ===== *)
theory Post_Delete
  imports Requests
begin

text \<open>
  The life of the objects of one post/delete builder (\<^verbatim>\<open>requestPostDelBuilder\<close> and
  \<^verbatim>\<open>PostDelDiscardRequester\<close> of \<^verbatim>\<open>request/random.go\<close>) under concurrent workers. A worker
  builds a request, and some time later its \<^verbatim>\<open>Do\<close> returns; requests of other workers may be
  built and completed in between. The builder's cache and counter are shared.
\<close>

section \<open>Steps\<close>

text \<open>\<open>inflight\<close> holds the requests that were built and have not returned, as pairs of name and
  operation. \<open>created\<close> and \<open>deleted\<close> are the names whose POST and DELETE returned no error,
  and \<open>posts\<close> counts the POST requests built.\<close>

record pd_state =
  builder :: requestPostDelBuilder
  inflight :: "(string \<times> string) list"
  created :: "string set"
  deleted :: "string set"
  posts :: nat

definition pd_init :: "requestPostDelBuilder \<Rightarrow> pd_state" where
  "pd_init b = \<lparr>builder = b, inflight = [], created = {}, deleted = {}, posts = 0\<rparr>"

inductive pd_step :: "template \<Rightarrow> pd_state \<Rightarrow> pd_state \<Rightarrow> bool" for tpl where
  build: "pd_step tpl s (s\<lparr>builder := b', inflight := (name, operation) # inflight s,
      posts := (if operation = ''POST'' then Suc (posts s) else posts s)\<rparr>)"
    if "Build_postdel tpl (builder s) ent = Return (PostDelDiscardRequester name operation reqr, b')"
      and "0 \<le> ent_now ent"
| complete: "pd_step tpl s (s\<lparr>builder := (builder s)\<lparr>pdb_cache := c\<rparr>, inflight := xs @ ys,
      created := (if operation = ''POST'' \<and> err = None then insert name (created s) else created s),
      deleted := (if operation = ''DELETE'' \<and> err = None then insert name (deleted s) else deleted s)\<rparr>)"
    if "inflight s = xs @ (name, operation) # ys"
      and "PostDelDiscardRequester_Do name operation stream (pdb_cache (builder s)) = ((n, err), c)"

inductive pd_reach :: "template \<Rightarrow> RequestPostDel \<Rightarrow> int \<Rightarrow> pd_state \<Rightarrow> bool" for tpl src maxRetries where
  start: "pd_reach tpl src maxRetries (pd_init (newRequestPostDelBuilder src [] maxRetries))"
| step: "pd_reach tpl src maxRetries t"
    if "pd_reach tpl src maxRetries s" and "pd_step tpl s t"

section \<open>Names\<close>

lemma suffixed_inject:
  assumes "0 \<le> i" "0 \<le> j"
  shows "suffixed a i = suffixed b j \<longleftrightarrow> a = b \<and> i = j"
proof
  assume eq: "suffixed a i = suffixed b j"
  have tail: "takeWhile (\<lambda>c. c \<noteq> CHR ''-'') (rev (suffixed n k)) = rev (itoa k)" if "0 \<le> k" for n k
    using minus_notin_itoa [OF that] by (auto simp: suffixed_def takeWhile_append)
  have "rev (itoa i) = rev (itoa j)" using tail [OF assms(1), of a] tail [OF assms(2), of b] eq by simp
  then show "a = b \<and> i = j" using eq by (simp add: suffixed_def)
qed simp

text \<open>The names given out so far: one per value of the counter.\<close>

definition issued :: "nat \<Rightarrow> string \<Rightarrow> bool" where
  "issued n name \<longleftrightarrow> (\<exists>t i. name = suffixed (itoa t) i \<and> 1 \<le> i \<and> i \<le> int n)"

lemma issued_mono: "issued n name \<Longrightarrow> n \<le> m \<Longrightarrow> issued m name"
  by (fastforce simp: issued_def)

lemma issued_fresh: "\<not> issued n (suffixed (itoa t) (1 + int n))"
  by (auto simp: issued_def suffixed_inject)

lemma issued_new: "issued (Suc n) (suffixed (itoa t) (1 + int n))"
  unfolding issued_def by (intro exI [of _ t] exI [of _ "1 + int n"]) auto

section \<open>What a built request is\<close>

lemma not_should_delete:
  "\<not> should_delete b (ent_int ent mod 1000) \<Longrightarrow> Build_postdel tpl b ent = Build_post tpl b ent"
  by (simp add: Build_postdel_def)

lemma Build_postdel_cases:
  assumes "Build_postdel tpl b ent = Return (PostDelDiscardRequester name operation reqr, b')"
  obtains (post) "operation = ''POST''" "pdb_cache b' = pdb_cache b"
      "pdb_resourceCounter b' = wrap64 (pdb_resourceCounter b + 1)"
      "name = suffixed (itoa (ent_now ent)) (wrap64 (pdb_resourceCounter b + 1))"
    | (delete) "operation = ''DELETE''" "items (pdb_cache b) = name # items (pdb_cache b')"
      "pdb_resourceCounter b' = pdb_resourceCounter b"
proof -
  have postcase: thesis if "Build_post tpl b ent = Return (PostDelDiscardRequester name operation reqr, b')"
    using that post
    by (cases "randomPayload (pdb_payloadSize b) (ent_bytes ent)")
      (auto simp: Build_post_def Let_def split: option.splits)
  show thesis
  proof (cases "should_delete b (ent_int ent mod 1000) \<and> items (pdb_cache b) \<noteq> []")
    case True
    then obtain n ns where c: "items (pdb_cache b) = n # ns" by (cases "items (pdb_cache b)") auto
    with True assms show thesis by (intro delete) (auto simp: Build_postdel_def Cache_Pop_def)
  next
    case False
    then have "Build_postdel tpl b ent = Build_post tpl b ent"
      by (metis (no_types, lifting) Build_postdel_empty not_should_delete)
    with assms show thesis by (intro postcase) simp
  qed
qed

section \<open>The invariant\<close>

definition deleting :: "pd_state \<Rightarrow> string set" where
  "deleting s = fst ` {x \<in> set (inflight s). snd x = ''DELETE''}"

definition pd_inv :: "pd_state \<Rightarrow> bool" where
  "pd_inv s \<longleftrightarrow>
     pdb_resourceCounter (builder s) = int (posts s) \<and>
     (\<forall>name. name \<in> set (items (pdb_cache (builder s))) \<union> fst ` set (inflight s) \<union> created s \<longrightarrow>
        issued (posts s) name) \<and>
     (\<forall>x \<in> set (inflight s). snd x = ''POST'' \<longrightarrow> fst x \<notin> created s) \<and>
     (\<forall>x \<in> set (inflight s). snd x \<in> {''POST'', ''DELETE''}) \<and>
     deleted s \<subseteq> created s \<and>
     distinct (items (pdb_cache (builder s)) @ map fst (inflight s)) \<and>
     set (items (pdb_cache (builder s))) \<union> deleting s = created s - deleted s"

lemma pd_inv_init: "pd_inv (pd_init (newRequestPostDelBuilder src [] m))"
  by (simp add: pd_inv_def pd_init_def newRequestPostDelBuilder_def InitCache_def deleting_def)

lemma pd_inv_post:
  assumes inv: "pd_inv s" and lim: "Suc (posts s) < 2 ^ 63"
    and b': "pdb_cache b' = pdb_cache (builder s)"
      "pdb_resourceCounter b' = wrap64 (pdb_resourceCounter (builder s) + 1)"
    and name: "name = suffixed (itoa t) (wrap64 (pdb_resourceCounter (builder s) + 1))"
  shows "pd_inv (s\<lparr>builder := b', inflight := (name, ''POST'') # inflight s, posts := Suc (posts s)\<rparr>)"
proof -
  have "is_int64 (1 + int (posts s))" using lim by (simp add: is_int64_def)
  then have w: "wrap64 (pdb_resourceCounter (builder s) + 1) = 1 + int (posts s)"
    using inv by (simp add: pd_inv_def add.commute)
  have fresh: "\<not> issued (posts s) name" and new: "issued (Suc (posts s)) name"
    using issued_fresh issued_new name w by simp_all
  have "name \<notin> set (items (pdb_cache (builder s))) \<union> fst ` set (inflight s) \<union> created s"
    using inv fresh unfolding pd_inv_def by blast
  moreover have "deleting (s\<lparr>builder := b', inflight := (name, ''POST'') # inflight s,
      posts := Suc (posts s)\<rparr>) = deleting s"
    by (auto simp: deleting_def)
  ultimately show ?thesis
    using inv new w b' issued_mono [of "posts s" _ "Suc (posts s)"] by (auto simp: pd_inv_def)
qed

lemma pd_inv_delete:
  assumes inv: "pd_inv s"
    and b': "items (pdb_cache (builder s)) = name # items (pdb_cache b')"
      "pdb_resourceCounter b' = pdb_resourceCounter (builder s)"
  shows "pd_inv (s\<lparr>builder := b', inflight := (name, ''DELETE'') # inflight s\<rparr>)"
proof -
  have "deleting (s\<lparr>builder := b', inflight := (name, ''DELETE'') # inflight s\<rparr>) = insert name (deleting s)"
    by (auto simp: deleting_def image_iff)
  with inv b' show ?thesis by (auto simp: pd_inv_def)
qed

lemma Do_cache:
  assumes "PostDelDiscardRequester_Do name operation stream c = ((n, err), c')"
    and "operation \<in> {''POST'', ''DELETE''}"
  shows "items c' = (if (operation = ''POST'') = (err = None) then items c @ [name] else items c)"
  using assms
  by (auto simp: PostDelDiscardRequester_Do_def Cache_Push_def split: prod.splits if_splits)

lemma pd_inv_complete:
  assumes inv: "pd_inv s" and infl: "inflight s = xs @ (name, operation) # ys"
    and run: "PostDelDiscardRequester_Do name operation stream (pdb_cache (builder s)) = ((n, err), c)"
  shows "pd_inv (s\<lparr>builder := (builder s)\<lparr>pdb_cache := c\<rparr>, inflight := xs @ ys,
      created := (if operation = ''POST'' \<and> err = None then insert name (created s) else created s),
      deleted := (if operation = ''DELETE'' \<and> err = None then insert name (deleted s) else deleted s)\<rparr>)"
    (is "pd_inv ?t")
proof -
  have operation: "operation \<in> {''POST'', ''DELETE''}" using inv infl by (auto simp: pd_inv_def)
  note items = Do_cache [OF run operation]
  have dis: "name \<notin> fst ` set (xs @ ys)" "name \<notin> set (items (pdb_cache (builder s)))"
  proof -
    have "distinct (items (pdb_cache (builder s)) @ map fst (inflight s))"
      using inv unfolding pd_inv_def by blast
    then show "name \<notin> fst ` set (xs @ ys)" "name \<notin> set (items (pdb_cache (builder s)))"
      using infl by auto
  qed
  then have del: "deleting ?t = deleting s - {name}"
    using infl by (fastforce simp: deleting_def)
  have del_in: "name \<in> deleting s \<longleftrightarrow> operation = ''DELETE''"
    using infl dis(1) by (force simp: deleting_def)
  show ?thesis
  proof (cases "operation = ''POST''")
    case True
    then show ?thesis using inv infl items del del_in dis
      by (cases "err = None") (auto simp: pd_inv_def)
  next
    case False
    with operation have "operation = ''DELETE''" by simp
    then show ?thesis using inv infl items del del_in dis
      by (cases "err = None") (auto simp: pd_inv_def)
  qed
qed

lemma pd_inv_step:
  assumes "pd_step tpl s t" "posts t < 2 ^ 63" "pd_inv s"
  shows "pd_inv t"
  using assms
proof (induction rule: pd_step.induct)
  case (build s ent name operation reqr b')
  from build(1) show ?case
  proof (cases rule: Build_postdel_cases)
    case post
    with build pd_inv_post [OF build(4), of b' name "ent_now ent"] show ?thesis by simp
  next
    case delete
    with pd_inv_delete [OF build(4) delete(2,3)] show ?thesis by simp
  qed
next
  case (complete s xs name operation ys stream n err c)
  then show ?case using pd_inv_complete by blast
qed

lemma posts_mono: "pd_step tpl s t \<Longrightarrow> posts s \<le> posts t"
  by (cases rule: pd_step.cases) auto

lemma pd_reach_inv: "pd_reach tpl src m s \<Longrightarrow> posts s < 2 ^ 63 \<Longrightarrow> pd_inv s"
proof (induction rule: pd_reach.induct)
  case (step s t)
  then show ?case using posts_mono [OF step(2)] pd_inv_step by simp
qed (rule pd_inv_init)

section \<open>Properties\<close>

text \<open>
  C4: a name is handed to a DELETE only while its object exists and to one DELETE at a time.
  In every state that concurrent workers of a post/delete builder can reach, with fewer
  than 2^63 POST requests built, the cached names and the names in flight are pairwise
  distinct, and the cached names together with those of the DELETEs in flight are exactly
  the objects whose POST succeeded and whose DELETE has not: none is lost and none is
  deleted twice, whatever requests fail.
\<close>

theorem post_delete_tracks_objects:
  assumes "pd_reach tpl src maxRetries s" "posts s < 2 ^ 63"
  shows "distinct (items (pdb_cache (builder s)) @ map fst (inflight s)) \<and>
    set (items (pdb_cache (builder s))) \<union> deleting s = created s - deleted s \<and> deleted s \<subseteq> created s"
  using pd_reach_inv [OF assms] by (simp add: pd_inv_def)

theorem post_delete_tracks_objects_witness:
  "\<exists>s. pd_reach (\<lambda>_ _ _. Some []) \<lparr>Group = [], Version = ''v1'', Resource = ''pods'',
       pd_Namespace = ''ns'', pd_DeleteRatio = Fin 0, pd_PayloadSize = 0\<rparr> 0 s \<and>
     created s = {suffixed (itoa 5) 1} \<and>
     set (items (pdb_cache (builder s))) \<union> deleting s = {suffixed (itoa 5) 1}"
proof -
  let ?src = "\<lparr>Group = [], Version = ''v1'', Resource = ''pods'',
       pd_Namespace = ''ns'', pd_DeleteRatio = Fin 0, pd_PayloadSize = 0\<rparr>"
  let ?tpl = "\<lambda>_ _ _. Some []" and ?ent = "\<lparr>ent_int = 7, ent_now = 5, ent_bytes = []\<rparr>"
  let ?name = "suffixed (itoa 5) 1"
  define b0 where "b0 = newRequestPostDelBuilder ?src [] 0"
  have "wrap64 1 = 1" by (simp add: is_int64_def)
  then obtain reqr b1 where b1:
      "Build_postdel ?tpl b0 ?ent = Return (PostDelDiscardRequester ?name ''POST'' reqr, b1)"
    by (simp add: b0_def Build_postdel_empty Build_post_def newRequestPostDelBuilder_def InitCache_def
        randomPayload_def RenderTemplate_def Let_def)
  define s1 where "s1 = (pd_init b0)\<lparr>builder := b1, inflight := [(?name, ''POST'')], posts := 1\<rparr>"
  have s1: "pd_reach ?tpl ?src 0 s1"
    using pd_reach.step [OF pd_reach.start pd_step.build, of ?tpl ?src 0 ?ent ?name "''POST''" reqr b1] b1
    by (simp add: b0_def s1_def pd_init_def)
  obtain c where c: "PostDelDiscardRequester_Do ?name ''POST'' (Inr (3, None)) (pdb_cache (builder s1)) =
      ((3, None), c)"
    by (simp add: PostDelDiscardRequester_Do_def DiscardRequester_Do_def)
  let ?s = "s1\<lparr>builder := (builder s1)\<lparr>pdb_cache := c\<rparr>, inflight := [], created := {?name}\<rparr>"
  have "pd_reach ?tpl ?src 0 ?s"
    using pd_reach.step [OF s1 pd_step.complete [of s1 "[]" ?name "''POST''" "[]", OF _ c]]
    by (simp add: s1_def pd_init_def)
  moreover from post_delete_tracks_objects [OF this]
  have "set (items (pdb_cache (builder ?s))) \<union> deleting ?s = {?name}"
    by (simp add: s1_def pd_init_def)
  ultimately show ?thesis by (intro exI [of _ ?s]) simp
qed

end
