(* ===== verification/Local_Store.thy ===== *)
theory Local_Store
  imports Go_Path Go_Errors
begin

text \<open>
  The package \<^verbatim>\<open>runner/localstore\<close>: blobs are written to a temporary file under
  \<^verbatim>\<open>ingest/\<close> and renamed into \<^verbatim>\<open>data/\<close> on commit. The file system maps paths of regular
  files to their contents; an operation of the operating system may fail without effect,
  and whether it does is an argument. Methods that hold the store's mutex are atomic.
  The theory ends with the abstract store that the package promises and a refinement proof.
\<close>

section \<open>The code\<close>

type_synonym fs = "string \<Rightarrow> string option"

record Store =
  dataDir :: string
  ingestDir :: string

datatype ls_error =
  NotAbsolute string | EnsureDir string goerr | CreateIngest goerr
| EnsureRef string goerr | NoSuchRef string | OpenRef string goerr
| RefExists string | Fsync goerr | RenameFailed goerr | RemoveFailed goerr | FileClosed
| WriteFailed goerr

definition NewStore :: "goerr option \<Rightarrow> goerr option \<Rightarrow> string \<Rightarrow> ls_error + Store" where
  "NewStore mk_data mk_ingest rootDir =
     (if \<not> rooted rootDir then Inl (NotAbsolute rootDir)
      else let data_dir = path_join [rootDir, ''data''] in
        case mk_data of Some e \<Rightarrow> Inl (EnsureDir data_dir e) | None \<Rightarrow>
        (let ingest_dir = path_join [rootDir, ''ingest''] in
         case mk_ingest of Some e \<Rightarrow> Inl (EnsureDir ingest_dir e) | None \<Rightarrow>
           Inr \<lparr>dataDir = data_dir, ingestDir = ingest_dir\<rparr>))"

text \<open>A writer refers to its file by name; its descriptor is open until \<^verbatim>\<open>Close\<close>.\<close>

record writer =
  w_name :: string
  w_open :: bool

text \<open>\<^verbatim>\<open>os.CreateTemp\<close> replaces the star of its pattern by a random string.\<close>

definition OpenWriter ::
  "Store \<Rightarrow> goerr option \<Rightarrow> string \<Rightarrow> fs \<Rightarrow> (ls_error + writer) \<times> fs" where
  "OpenWriter s fault rnd files =
     (case fault of
        Some e \<Rightarrow> (Inl (CreateIngest e), files)
      | None \<Rightarrow>
          (let name = path_join [ingestDir s, ''ingest-'' @ rnd]
           in (Inr \<lparr>w_name = name, w_open = True\<rparr>, files(name \<mapsto> ''''))))"

text \<open>The content and the size of a committed blob.\<close>

definition OpenReader ::
  "Store \<Rightarrow> goerr option \<Rightarrow> goerr option \<Rightarrow> string \<Rightarrow> fs \<Rightarrow> ls_error + (string \<times> int)" where
  "OpenReader s stat_fault open_fault ref files =
     (let target = path_join [dataDir s, ref]
      in case stat_fault of Some e \<Rightarrow> Inl (EnsureRef ref e) | None \<Rightarrow>
         (case files target of
            None \<Rightarrow> Inl (NoSuchRef ref)
          | Some content \<Rightarrow>
              let size = int (length content)
              in case open_fault of Some e \<Rightarrow> Inl (OpenRef ref e) | None \<Rightarrow> Inr (content, size)))"

definition Delete ::
  "Store \<Rightarrow> goerr option \<Rightarrow> goerr option \<Rightarrow> string \<Rightarrow> fs \<Rightarrow> ls_error option \<times> fs" where
  "Delete s stat_fault remove_fault ref files =
     (let target = path_join [dataDir s, ref]
      in case stat_fault of Some e \<Rightarrow> (Some (EnsureRef ref e), files) | None \<Rightarrow>
         (case files target of
            None \<Rightarrow> (None, files)
          | Some content \<Rightarrow>
              (case remove_fault of
                 Some e \<Rightarrow> (Some (RemoveFailed e), files)
               | None \<Rightarrow> (None, files(target := None)))))"

text \<open>A write that fails may have written a part of the data.\<close>

type_synonym write_fault = "(nat \<times> goerr) option"

definition written :: "write_fault \<Rightarrow> string \<Rightarrow> string" where
  "written fault data = (case fault of None \<Rightarrow> data | Some (n, e) \<Rightarrow> take n data)"

definition write_error :: "write_fault \<Rightarrow> ls_error option" where
  "write_error fault = map_option (\<lambda>(n, e). WriteFailed e) fault"

definition writer_Write :: "write_fault \<Rightarrow> writer \<Rightarrow> string \<Rightarrow> fs \<Rightarrow> ls_error option \<times> fs" where
  "writer_Write fault w data files =
     (if \<not> w_open w then (Some FileClosed, files)
      else case files (w_name w) of
        None \<Rightarrow> (write_error fault, files)
      | Some content \<Rightarrow> (write_error fault, files(w_name w \<mapsto> content @ written fault data)))"

definition writer_Close :: "goerr option \<Rightarrow> writer \<Rightarrow> fs \<Rightarrow> ls_error option \<times> writer \<times> fs" where
  "writer_Close remove_fault w files =
     (let w' = w\<lparr>w_open := False\<rparr>
      in case files (w_name w) of
           None \<Rightarrow> (None, w', files)
         | Some content \<Rightarrow>
             (case remove_fault of
                Some e \<Rightarrow> (Some (RemoveFailed e), w', files)
              | None \<Rightarrow> (None, w', files(w_name w := None))))"

record commit_faults =
  cf_sync :: "goerr option"
  cf_stat :: "goerr option"
  cf_rename :: "goerr option"
  cf_remove :: "goerr option"

text \<open>The body of \<^verbatim>\<open>Commit\<close> before the deferred \<^verbatim>\<open>Close\<close>; syncing a closed file fails.\<close>

definition commit_body ::
  "Store \<Rightarrow> commit_faults \<Rightarrow> string \<Rightarrow> writer \<Rightarrow> fs \<Rightarrow> ls_error option \<times> fs" where
  "commit_body s cf ref w files =
     (if \<not> w_open w then (Some FileClosed, files)
      else case cf_sync cf of Some e \<Rightarrow> (Some (Fsync e), files) | None \<Rightarrow>
        (let target = path_join [dataDir s, ref]
         in case cf_stat cf of Some e \<Rightarrow> (Some (EnsureRef ref e), files) | None \<Rightarrow>
            (if files target \<noteq> None then (Some (RefExists ref), files)
             else case cf_rename cf of Some e \<Rightarrow> (Some (RenameFailed e), files) | None \<Rightarrow>
               (None, files(target := files (w_name w), w_name w := None)))))"

definition writer_Commit ::
  "Store \<Rightarrow> commit_faults \<Rightarrow> string \<Rightarrow> writer \<Rightarrow> fs \<Rightarrow> ls_error option \<times> writer \<times> fs" where
  "writer_Commit s cf ref w files =
     (case commit_body s cf ref w files of
        (err, files') \<Rightarrow>
          (case writer_Close (cf_remove cf) w files' of (_, w', files'') \<Rightarrow> (err, w', files'')))"

section \<open>Sequences of operations\<close>

datatype store_op =
  OpOpen "goerr option" string
| OpWrite nat write_fault string
| OpClose nat "goerr option"
| OpCommit nat commit_faults string
| OpRead "goerr option" "goerr option" string
| OpDelete "goerr option" "goerr option" string

datatype store_out = Ok | Failed ls_error | Content string int | NoWriter

record store_state =
  files :: fs
  writers :: "writer list"

definition exec_op :: "Store \<Rightarrow> store_op \<Rightarrow> store_state \<Rightarrow> store_out \<times> store_state" where
  "exec_op s x st =
     (case x of
        OpOpen fault rnd \<Rightarrow>
          (case OpenWriter s fault rnd (files st) of
             (Inl e, fl) \<Rightarrow> (Failed e, st\<lparr>files := fl\<rparr>)
           | (Inr w, fl) \<Rightarrow> (Ok, st\<lparr>files := fl, writers := writers st @ [w]\<rparr>))
      | OpWrite i fault data \<Rightarrow>
          (if i < length (writers st) then
             (case writer_Write fault (writers st ! i) data (files st) of
                (err, fl) \<Rightarrow> (case_option Ok Failed err, st\<lparr>files := fl\<rparr>))
           else (NoWriter, st))
      | OpClose i fault \<Rightarrow>
          (if i < length (writers st) then
             (case writer_Close fault (writers st ! i) (files st) of
                (err, w, fl) \<Rightarrow>
                  (case_option Ok Failed err, st\<lparr>files := fl, writers := (writers st)[i := w]\<rparr>))
           else (NoWriter, st))
      | OpCommit i cf ref \<Rightarrow>
          (if i < length (writers st) then
             (case writer_Commit s cf ref (writers st ! i) (files st) of
                (err, w, fl) \<Rightarrow>
                  (case_option Ok Failed err, st\<lparr>files := fl, writers := (writers st)[i := w]\<rparr>))
           else (NoWriter, st))
      | OpRead stat_fault open_fault ref \<Rightarrow>
          (case OpenReader s stat_fault open_fault ref (files st) of
             Inl e \<Rightarrow> (Failed e, st) | Inr (c, n) \<Rightarrow> (Content c n, st))
      | OpDelete stat_fault remove_fault ref \<Rightarrow>
          (case Delete s stat_fault remove_fault ref (files st) of
             (err, fl) \<Rightarrow> (case_option Ok Failed err, st\<lparr>files := fl\<rparr>)))"

fun exec_ops :: "Store \<Rightarrow> store_op list \<Rightarrow> store_state \<Rightarrow> store_out list \<times> store_state" where
  "exec_ops s [] st = ([], st)"
| "exec_ops s (x # xs) st =
     (case exec_op s x st of (out, st') \<Rightarrow>
        case exec_ops s xs st' of (outs, st'') \<Rightarrow> (out # outs, st''))"

section \<open>The abstract store\<close>

text \<open>What a client may rely on: a map from references to blobs, and for every writer what it
  has written so far, if its temporary file still exists, and whether it is open.\<close>

record abs_store =
  blobs :: "string \<Rightarrow> string option"
  pending :: "(string option \<times> bool) list"

definition abs_close :: "nat \<Rightarrow> goerr option \<Rightarrow> abs_store \<Rightarrow> store_out \<times> abs_store" where
  "abs_close i fault a =
     (case pending a ! i of
        (None, _) \<Rightarrow> (Ok, a\<lparr>pending := (pending a)[i := (None, False)]\<rparr>)
      | (Some c, _) \<Rightarrow>
          (case fault of
             Some e \<Rightarrow> (Failed (RemoveFailed e), a\<lparr>pending := (pending a)[i := (Some c, False)]\<rparr>)
           | None \<Rightarrow> (Ok, a\<lparr>pending := (pending a)[i := (None, False)]\<rparr>)))"

definition abs_commit :: "nat \<Rightarrow> commit_faults \<Rightarrow> string \<Rightarrow> abs_store \<Rightarrow> store_out \<times> abs_store" where
  "abs_commit i cf ref a =
     (if snd (pending a ! i) \<and> cf_sync cf = None \<and> cf_stat cf = None \<and> blobs a ref = None
           \<and> cf_rename cf = None
      then (Ok, a\<lparr>blobs := (blobs a)(ref := fst (pending a ! i)),
                  pending := (pending a)[i := (None, False)]\<rparr>)
      else
        (Failed (if \<not> snd (pending a ! i) then FileClosed
           else case cf_sync cf of Some e \<Rightarrow> Fsync e
           | None \<Rightarrow> (case cf_stat cf of Some e \<Rightarrow> EnsureRef ref e
           | None \<Rightarrow> (if blobs a ref \<noteq> None then RefExists ref
                     else RenameFailed (the (cf_rename cf))))),
         snd (abs_close i (cf_remove cf) a)))"

definition abs_op :: "store_op \<Rightarrow> abs_store \<Rightarrow> store_out \<times> abs_store" where
  "abs_op x a =
     (case x of
        OpOpen (Some e) rnd \<Rightarrow> (Failed (CreateIngest e), a)
      | OpOpen None rnd \<Rightarrow> (Ok, a\<lparr>pending := pending a @ [(Some [], True)]\<rparr>)
      | OpWrite i fault data \<Rightarrow>
          (if \<not> i < length (pending a) then (NoWriter, a)
           else if snd (pending a ! i)
           then (case_option Ok Failed (write_error fault),
                 a\<lparr>pending := (pending a)
                     [i := (map_option (\<lambda>c. c @ written fault data) (fst (pending a ! i)), True)]\<rparr>)
           else (Failed FileClosed, a))
      | OpClose i fault \<Rightarrow>
          (if i < length (pending a) then abs_close i fault a else (NoWriter, a))
      | OpCommit i cf ref \<Rightarrow>
          (if i < length (pending a) then abs_commit i cf ref a else (NoWriter, a))
      | OpRead stat_fault open_fault ref \<Rightarrow>
          (case stat_fault of Some e \<Rightarrow> (Failed (EnsureRef ref e), a) | None \<Rightarrow>
          (case blobs a ref of None \<Rightarrow> (Failed (NoSuchRef ref), a)
           | Some c \<Rightarrow>
              (case open_fault of Some e \<Rightarrow> (Failed (OpenRef ref e), a)
               | None \<Rightarrow> (Content c (int (length c)), a))))
      | OpDelete stat_fault remove_fault ref \<Rightarrow>
          (case stat_fault of Some e \<Rightarrow> (Failed (EnsureRef ref e), a) | None \<Rightarrow>
          (if blobs a ref = None then (Ok, a)
           else (case remove_fault of Some e \<Rightarrow> (Failed (RemoveFailed e), a)
             | None \<Rightarrow> (Ok, a\<lparr>blobs := (blobs a)(ref := None)\<rparr>)))))"

fun abs_ops :: "store_op list \<Rightarrow> abs_store \<Rightarrow> store_out list \<times> abs_store" where
  "abs_ops [] a = ([], a)"
| "abs_ops (x # xs) a =
     (case abs_op x a of (out, a') \<Rightarrow> case abs_ops xs a' of (outs, a'') \<Rightarrow> (out # outs, a''))"

text \<open>Operations with references and random strings that are file names, and random strings
  that do not repeat.\<close>

fun op_plain :: "store_op \<Rightarrow> bool" where
  "op_plain (OpOpen fault rnd) = (CHR ''/'' \<notin> set rnd)"
| "op_plain (OpCommit i cf ref) = plain_elem ref"
| "op_plain (OpRead f g ref) = plain_elem ref"
| "op_plain (OpDelete f g ref) = plain_elem ref"
| "op_plain _ = True"

definition op_names :: "store_op list \<Rightarrow> string list" where
  "op_names xs = concat (map (\<lambda>x. case x of OpOpen None rnd \<Rightarrow> [rnd] | _ \<Rightarrow> []) xs)"

section \<open>Paths of the store\<close>

definition store_at :: "string list \<Rightarrow> Store" where
  "store_at es = \<lparr>dataDir = ''/'' @ str_join ''/'' (es @ [''data'']),
     ingestDir = ''/'' @ str_join ''/'' (es @ [''ingest''])\<rparr>"

abbreviation data_path :: "string list \<Rightarrow> string \<Rightarrow> string" where
  "data_path es ref \<equiv> path_join [dataDir (store_at es), ref]"

abbreviation temp_path :: "string list \<Rightarrow> string \<Rightarrow> string" where
  "temp_path es rnd \<equiv> path_join [ingestDir (store_at es), ''ingest-'' @ rnd]"

lemma plain_dirs [simp]: "plain_elem ''data''" "plain_elem ''ingest''"
  by (simp_all add: plain_elem_def)

lemma plain_temp: "CHR ''/'' \<notin> set rnd \<Longrightarrow> plain_elem (''ingest-'' @ rnd)"
  by (simp add: plain_elem_def)

lemma NewStore_plain:
  assumes "list_all plain_elem es"
  shows "NewStore None None (''/'' @ str_join ''/'' es) = Inr (store_at es)"
  using path_join_dir_plain [OF assms, of "''data''"] path_join_dir_plain [OF assms, of "''ingest''"]
  by (simp add: NewStore_def store_at_def rooted_def has_prefix_def Let_def)

lemma path_join_plain:
  assumes "list_all plain_elem es" "plain_elem d" "plain_elem f"
  shows "path_join [''/'' @ str_join ''/'' (es @ [d]), f] = ''/'' @ str_join ''/'' (es @ [d, f])"
  using path_join_dir_plain [of "es @ [d]" f] assms by simp

lemma join_inject:
  assumes "list_all plain_elem xs" "list_all plain_elem ys" "xs \<noteq> []" "ys \<noteq> []"
    and "''/'' @ str_join ''/'' xs = ''/'' @ str_join ''/'' ys"
  shows "xs = ys"
proof -
  have "[] # xs = [] # ys"
    using split_plain [OF assms(1,3)] split_plain [OF assms(2,4)] unfolding assms(5) by (rule trans [OF sym])
  then show ?thesis by simp
qed

lemma store_paths:
  assumes "list_all plain_elem es" "plain_elem ref" "plain_elem ref'"
    and "CHR ''/'' \<notin> set rnd" "CHR ''/'' \<notin> set rnd'"
  shows "data_path es ref = data_path es ref' \<longleftrightarrow> ref = ref'"
    and "temp_path es rnd = temp_path es rnd' \<longleftrightarrow> rnd = rnd'"
    and "data_path es ref \<noteq> temp_path es rnd"
proof -
  note pl = plain_temp [OF assms(4)] plain_temp [OF assms(5)]
  have d: "data_path es r = ''/'' @ str_join ''/'' (es @ [''data'', r])" if "plain_elem r" for r
    using path_join_plain [OF assms(1) _ that, of "''data''"] by (simp add: store_at_def)
  have t: "temp_path es r = ''/'' @ str_join ''/'' (es @ [''ingest'', ''ingest-'' @ r])"
    if "plain_elem (''ingest-'' @ r)" for r
    using path_join_plain [OF assms(1) _ that, of "''ingest''"] by (simp add: store_at_def)
  have eq: "f = f'" "d = d'"
    if "''/'' @ str_join ''/'' (es @ [d, f]) = ''/'' @ str_join ''/'' (es @ [d', f'])"
      "plain_elem d" "plain_elem f" "plain_elem d'" "plain_elem f'" for d f d' f'
  proof -
    have "es @ [d, f] = es @ [d', f']"
      by (rule join_inject [OF _ _ _ _ that(1)]) (use assms(1) that in simp_all)
    then show "f = f'" "d = d'" by simp_all
  qed
  show "data_path es ref = data_path es ref' \<longleftrightarrow> ref = ref'"
    unfolding d [OF assms(2)] d [OF assms(3)] using eq(1) assms(2,3) plain_dirs by blast
  show "temp_path es rnd = temp_path es rnd' \<longleftrightarrow> rnd = rnd'"
    unfolding t [OF pl(1)] t [OF pl(2)] using eq(1) pl plain_dirs by blast
  show "data_path es ref \<noteq> temp_path es rnd"
    unfolding d [OF assms(2)] t [OF pl(1)] using eq(2) pl assms(2) plain_dirs by blast
qed

section \<open>Refinement\<close>

definition store_rel :: "string list \<Rightarrow> string list \<Rightarrow> store_state \<Rightarrow> abs_store \<Rightarrow> bool" where
  "store_rel es used st a \<longleftrightarrow>
     list_all plain_elem es \<and> (\<forall>r \<in> set used. CHR ''/'' \<notin> set r) \<and> distinct used \<and>
     length (pending a) = length used \<and> length (writers st) = length used \<and>
     (\<forall>i < length used.
        w_name (writers st ! i) = temp_path es (used ! i) \<and>
        w_open (writers st ! i) = snd (pending a ! i) \<and>
        files st (temp_path es (used ! i)) = fst (pending a ! i) \<and>
        (snd (pending a ! i) \<longrightarrow> fst (pending a ! i) \<noteq> None)) \<and>
     (\<forall>ref. plain_elem ref \<longrightarrow> files st (data_path es ref) = blobs a ref)"

lemma store_relD:
  assumes "store_rel es used st a" "i < length used"
  shows "w_name (writers st ! i) = temp_path es (used ! i)"
    "w_open (writers st ! i) = snd (pending a ! i)"
    "files st (temp_path es (used ! i)) = fst (pending a ! i)"
    "snd (pending a ! i) \<Longrightarrow> fst (pending a ! i) \<noteq> None"
    "i < length (writers st)" "i < length (pending a)"
  using assms by (auto simp: store_rel_def)

lemma temp_neq:
  assumes "store_rel es used st a" "i < length used" "j < length used" "i \<noteq> j"
  shows "temp_path es (used ! i) \<noteq> temp_path es (used ! j)"
proof -
  have "used ! i \<noteq> used ! j" using assms by (simp add: store_rel_def nth_eq_iff_index_eq)
  moreover have "CHR ''/'' \<notin> set (used ! i)" "CHR ''/'' \<notin> set (used ! j)"
    using assms by (auto simp: store_rel_def)
  ultimately show ?thesis
    using store_paths(2) [of es "''data''" "''data''" "used ! i" "used ! j"] assms
    by (simp add: store_rel_def)
qed

lemma data_neq_temp:
  assumes "store_rel es used st a" "i < length used" "plain_elem ref"
  shows "data_path es ref \<noteq> temp_path es (used ! i)"
  using assms store_paths(3) [of es ref ref "used ! i" "used ! i"] by (auto simp: store_rel_def)

lemma rel_temp:
  assumes rel: "store_rel es used st a" and i: "i < length used" and c: "op \<Longrightarrow> c \<noteq> None"
  shows "store_rel es used
    (st\<lparr>files := (files st)(w_name (writers st ! i) := c),
        writers := (writers st)[i := (writers st ! i)\<lparr>w_open := op\<rparr>]\<rparr>)
    (a\<lparr>pending := (pending a)[i := (c, op)]\<rparr>)"
  using rel i c store_relD [OF rel] temp_neq [OF rel _ i] data_neq_temp [OF rel i]
  unfolding store_rel_def by (auto simp: nth_list_update)

lemma rel_data:
  assumes rel: "store_rel es used st a" and ref: "plain_elem ref"
  shows "store_rel es used (st\<lparr>files := (files st)(data_path es ref := c)\<rparr>)
    (a\<lparr>blobs := (blobs a)(ref := c)\<rparr>)"
proof -
  have "temp_path es (used ! i) \<noteq> data_path es ref" if "i < length used" for i
    using data_neq_temp [OF rel that ref] by metis
  moreover have "data_path es r \<noteq> data_path es ref" if "plain_elem r" "r \<noteq> ref" for r
    using rel that ref store_paths(1) [of es r ref "''''" "''''"] by (simp add: store_rel_def)
  ultimately show ?thesis using rel unfolding store_rel_def by auto
qed

lemma rel_open:
  assumes rel: "store_rel es used st a" and rnd: "CHR ''/'' \<notin> set rnd" "rnd \<notin> set used"
  shows "store_rel es (used @ [rnd])
    (st\<lparr>files := (files st)(temp_path es rnd \<mapsto> ''''),
        writers := writers st @ [\<lparr>w_name = temp_path es rnd, w_open = True\<rparr>]\<rparr>)
    (a\<lparr>pending := pending a @ [(Some '''', True)]\<rparr>)"
proof -
  have "temp_path es (used ! i) \<noteq> temp_path es rnd" if "i < length used" for i
  proof -
    have "used ! i \<noteq> rnd" "CHR ''/'' \<notin> set (used ! i)" using rel rnd that by (auto simp: store_rel_def)
    then show ?thesis using rel rnd store_paths(2) [of es "''data''" "''data''" "used ! i" rnd]
      by (simp add: store_rel_def)
  qed
  moreover have "data_path es ref \<noteq> temp_path es rnd" if "plain_elem ref" for ref
    using rel rnd that store_paths(3) [of es ref ref rnd rnd] by (simp add: store_rel_def)
  ultimately show ?thesis using rel rnd unfolding store_rel_def
    by (auto simp: nth_append less_Suc_eq)
qed

lemma rel_close:
  assumes rel: "store_rel es used st a" and i: "i < length used"
    and run: "writer_Close fault (writers st ! i) (files st) = (err, w, fl)"
    and abs: "abs_close i fault a = (out, a')"
  shows "out = case_option Ok Failed err \<and>
    store_rel es used (st\<lparr>files := fl, writers := (writers st)[i := w]\<rparr>) a'"
proof -
  note d = store_relD [OF rel i]
  obtain c op where p: "pending a ! i = (c, op)" by fastforce
  have same: "(files st)(w_name (writers st ! i) := c) = files st" using d p by auto
  show ?thesis
    using run abs p d rel_temp [OF rel i, of False c] rel_temp [OF rel i, of False None] same
    by (cases c; cases fault) (auto simp: writer_Close_def abs_close_def Let_def)
qed


lemma rel_commit:
  assumes rel: "store_rel es used st a" and i: "i < length used" and ref: "plain_elem ref"
    and run: "writer_Commit (store_at es) cf ref (writers st ! i) (files st) = (err, w, fl)"
    and abs: "abs_commit i cf ref a = (out, a')"
  shows "out = case_option Ok Failed err \<and>
    store_rel es used (st\<lparr>files := fl, writers := (writers st)[i := w]\<rparr>) a'"
proof -
  note d = store_relD [OF rel i]
  have blob: "files st (data_path es ref) = blobs a ref" using rel ref by (simp add: store_rel_def)
  have neq: "data_path es ref \<noteq> temp_path es (used ! i)" using data_neq_temp [OF rel i ref] .
  let ?ok = "snd (pending a ! i) \<and> cf_sync cf = None \<and> cf_stat cf = None \<and> blobs a ref = None
      \<and> cf_rename cf = None"
  show ?thesis
  proof (cases ?ok)
    case True
    let ?st = "st\<lparr>files := (files st)(data_path es ref := fst (pending a ! i))\<rparr>"
    let ?a = "a\<lparr>blobs := (blobs a)(ref := fst (pending a ! i))\<rparr>"
    have "store_rel es used ?st ?a" by (rule rel_data [OF rel ref])
    from rel_temp [OF this i, of False None]
    have "store_rel es used
        (?st\<lparr>files := (files ?st)(w_name (writers st ! i) := None),
             writers := (writers st)[i := (writers st ! i)\<lparr>w_open := False\<rparr>]\<rparr>)
        (?a\<lparr>pending := (pending a)[i := (None, False)]\<rparr>)" by simp
    moreover have "commit_body (store_at es) cf ref (writers st ! i) (files st) =
        (None, (files st)(data_path es ref := fst (pending a ! i), w_name (writers st ! i) := None))"
      using True d blob by (simp add: commit_body_def Let_def)
    ultimately show ?thesis using True run abs neq d
      by (auto simp: writer_Commit_def writer_Close_def abs_commit_def Let_def)
  next
    case False
    then obtain e where e: "commit_body (store_at es) cf ref (writers st ! i) (files st) = (Some e, files st)"
      "out = Failed e"
      using d blob abs
      by (auto simp: commit_body_def abs_commit_def Let_def split: option.splits if_splits)
    obtain o2 a2 where ac: "abs_close i (cf_remove cf) a = (o2, a2)" by fastforce
    obtain err2 where wc: "writer_Close (cf_remove cf) (writers st ! i) (files st) = (err2, w, fl)"
      using run e(1) by (auto simp: writer_Commit_def split: prod.splits)
    have "a' = a2" using abs False ac by (auto simp: abs_commit_def split: if_splits)
    with rel_close [OF rel i wc ac] e run show ?thesis
      by (auto simp: writer_Commit_def split: prod.splits)
  qed
qed

lemma rel_write:
  assumes rel: "store_rel es used st a" and i: "i < length used"
    and run: "writer_Write fault (writers st ! i) data (files st) = (err, fl)"
    and abs: "abs_op (OpWrite i fault data) a = (out, a')"
  shows "out = case_option Ok Failed err \<and> store_rel es used (st\<lparr>files := fl\<rparr>) a'"
proof -
  note d = store_relD [OF rel i]
  show ?thesis
  proof (cases "snd (pending a ! i)")
    case True
    then obtain c where c: "fst (pending a ! i) = Some c" using d(4) by blast
    have "(writers st ! i)\<lparr>w_open := True\<rparr> = writers st ! i"
      using d(2) True by (cases "writers st ! i") simp
    then have "(writers st)[i := (writers st ! i)\<lparr>w_open := True\<rparr>] = writers st" by simp
    with rel_temp [OF rel i, of True "Some (c @ written fault data)"] c True run abs d show ?thesis
      by (auto simp: writer_Write_def abs_op_def)
  next
    case False
    then show ?thesis using rel run abs d by (auto simp: writer_Write_def abs_op_def)
  qed
qed

lemma exec_op_refines:
  assumes rel: "store_rel es used st a" and pl: "op_plain x" and fresh: "set (op_names [x]) \<inter> set used = {}"
    and run: "exec_op (store_at es) x st = (out, st')" and abs: "abs_op x a = (out', a')"
  shows "out = out' \<and> store_rel es (used @ op_names [x]) st' a'"
proof -
  have len: "length (writers st) = length used" "length (pending a) = length used"
    using rel by (simp_all add: store_rel_def)
  have data: "files st (data_path es ref) = blobs a ref" if "plain_elem ref" for ref
    using rel that by (simp add: store_rel_def)
  show ?thesis
  proof (cases x)
    case (OpOpen fault rnd)
    then show ?thesis using run abs rel pl fresh rel_open [OF rel, of rnd]
      by (cases fault) (auto simp: exec_op_def abs_op_def OpenWriter_def op_names_def Let_def)
  next
    case (OpWrite i fault data)
    then show ?thesis using run abs rel len rel_write [OF rel, of i fault data]
      by (cases "i < length used") (auto simp: exec_op_def abs_op_def op_names_def split: prod.splits)
  next
    case (OpClose i fault)
    then show ?thesis using run abs rel len rel_close [OF rel, of i fault]
      by (cases "i < length used") (auto simp: exec_op_def abs_op_def op_names_def split: prod.splits)
  next
    case (OpCommit i cf ref)
    then show ?thesis using run abs rel len pl rel_commit [OF rel, of i ref cf]
      by (cases "i < length used") (auto simp: exec_op_def abs_op_def op_names_def split: prod.splits)
  next
    case (OpRead f g ref)
    then show ?thesis using run abs rel pl data [of ref]
      by (auto simp: exec_op_def abs_op_def op_names_def OpenReader_def Let_def split: option.splits)
  next
    case (OpDelete f g ref)
    then show ?thesis using run abs rel pl data [of ref] rel_data [OF rel, of ref None]
      by (auto simp: exec_op_def abs_op_def op_names_def Delete_def Let_def split: option.splits if_splits)
  qed
qed

lemma op_names_Cons: "op_names (x # xs) = op_names [x] @ op_names xs"
  by (simp add: op_names_def)

lemma exec_ops_refines:
  assumes "store_rel es used st a" "list_all op_plain xs" "distinct (used @ op_names xs)"
    and "exec_ops (store_at es) xs st = (outs, st')" "abs_ops xs a = (outs', a')"
  shows "outs = outs' \<and> store_rel es (used @ op_names xs) st' a'"
  using assms
proof (induction xs arbitrary: used st a outs outs' st' a')
  case Nil
  then show ?case by (simp add: op_names_def)
next
  case (Cons x xs)
  obtain o1 s1 where e: "exec_op (store_at es) x st = (o1, s1)" by fastforce
  obtain o2 a2 where b: "abs_op x a = (o2, a2)" by fastforce
  have "set (op_names [x]) \<inter> set used = {}" using Cons.prems(3) by (auto simp: op_names_Cons [of x xs])
  with exec_op_refines [OF Cons.prems(1) _ _ e b] Cons.prems(2)
  have step: "o1 = o2" "store_rel es (used @ op_names [x]) s1 a2" by auto
  obtain p s2 where e2: "exec_ops (store_at es) xs s1 = (p, s2)" by fastforce
  obtain q a3 where b2: "abs_ops xs a2 = (q, a3)" by fastforce
  have "p = q \<and> store_rel es ((used @ op_names [x]) @ op_names xs) s2 a3"
    using Cons.prems by (intro Cons.IH [OF step(2) _ _ e2 b2]) (auto simp: op_names_Cons [of x xs])
  with step e b e2 b2 Cons.prems show ?case by (simp add: op_names_Cons [of x xs])
qed

lemma store_rel_init:
  assumes "list_all plain_elem es"
  shows "store_rel es [] \<lparr>files = (\<lambda>_. None), writers = []\<rparr> \<lparr>blobs = (\<lambda>_. None), pending = []\<rparr>"
  using assms by (simp add: store_rel_def)

section \<open>A whole blob\<close>

text \<open>What a client does to store one value: open a writer, write the value, commit it under
  its reference, and close the writer as deferred.\<close>

definition put_blob ::
  "Store \<Rightarrow> goerr option \<times> write_fault \<times> commit_faults \<times> goerr option \<Rightarrow> string \<Rightarrow> string \<Rightarrow> string \<Rightarrow>
   fs \<Rightarrow> ls_error option \<times> fs" where
  "put_blob s = (\<lambda>(open_fault, write_fault, cf, close_fault) rnd ref value fl.
     (case OpenWriter s open_fault rnd fl of
        (Inl e, fl) \<Rightarrow> (Some e, fl)
      | (Inr w, fl) \<Rightarrow>
          (case writer_Write write_fault w value fl of
             (Some e, fl) \<Rightarrow> (Some e, snd (snd (writer_Close close_fault w fl)))
           | (None, fl) \<Rightarrow>
               (case writer_Commit s cf ref w fl of
                  (err, w, fl) \<Rightarrow> (err, snd (snd (writer_Close close_fault w fl)))))))"

definition get_blob :: "Store \<Rightarrow> string \<Rightarrow> fs \<Rightarrow> string option" where
  "get_blob s ref fl = (case OpenReader s None None ref fl of Inl e \<Rightarrow> None | Inr (c, n) \<Rightarrow> Some c)"

fun put_all ::
  "('f \<Rightarrow> string \<Rightarrow> string \<Rightarrow> string \<Rightarrow> 'st \<Rightarrow> 'e option \<times> 'st) \<Rightarrow>
   ('f \<times> string \<times> string \<times> string) list \<Rightarrow> 'st \<Rightarrow> 'e option list \<times> 'st" where
  "put_all put [] st = ([], st)"
| "put_all put ((f, rnd, ref, v) # xs) st =
     (case put f rnd ref v st of (err, st') \<Rightarrow>
        case put_all put xs st' of (errs, st'') \<Rightarrow> (err # errs, st''))"

locale blob_store =
  fixes put :: "'f \<Rightarrow> string \<Rightarrow> string \<Rightarrow> string \<Rightarrow> 'st \<Rightarrow> 'e option \<times> 'st"
    and get :: "string \<Rightarrow> 'st \<Rightarrow> string option"
    and wf_ref :: "string \<Rightarrow> bool"
    and wf_rnd :: "string \<Rightarrow> bool"
  assumes put_ok: "\<lbrakk>put f rnd ref v st = (None, st'); wf_ref ref; wf_rnd rnd\<rbrakk> \<Longrightarrow>
      get ref st = None \<and> get ref st' = Some v"
    and put_error: "\<lbrakk>put f rnd ref v st = (Some e, st'); wf_ref ref; wf_ref r; wf_rnd rnd\<rbrakk> \<Longrightarrow>
      get r st' = get r st"
    and put_frame: "\<lbrakk>put f rnd ref v st = (err, st'); wf_ref ref; wf_ref r; r \<noteq> ref; wf_rnd rnd\<rbrakk> \<Longrightarrow>
      get r st' = get r st"
begin

lemma put_all_stable:
  assumes "put_all put xs st = (errs, st')" "get r st = Some v" "wf_ref r"
    and "\<forall>(f, rnd, ref, v) \<in> set xs. wf_ref ref \<and> wf_rnd rnd"
  shows "get r st' = Some v"
  using assms
proof (induction xs arbitrary: st errs)
  case (Cons x xs)
  obtain f rnd ref v' where x: "x = (f, rnd, ref, v')" by (cases x) auto
  obtain err s1 where p: "put f rnd ref v' st = (err, s1)" by fastforce
  have wf: "wf_ref ref" "wf_rnd rnd" using Cons.prems(4) x by auto
  have "get r s1 = get r st"
  proof (cases err)
    case None
    with put_ok [of f rnd ref v' st s1] p wf Cons.prems(2) have "r \<noteq> ref" by auto
    then show ?thesis using put_frame [OF p] wf Cons.prems(3) by blast
  next
    case (Some e)
    then show ?thesis using put_error p wf Cons.prems(3) by blast
  qed
  with Cons x p show ?case by (auto split: prod.splits)
qed simp

end

lemma put_blob_effect:
  assumes run: "put_blob (store_at es) faults rnd ref v fl = (err, fl')"
    and es: "list_all plain_elem es" and ref: "plain_elem ref" and rnd: "CHR ''/'' \<notin> set rnd"
    and r: "plain_elem r"
  shows "fl' (data_path es r) = (if err = None \<and> r = ref then Some v else fl (data_path es r)) \<and>
    (err = None \<longrightarrow> fl (data_path es ref) = None)"
proof -
  have tmp: "data_path es r \<noteq> temp_path es rnd" "data_path es ref \<noteq> temp_path es rnd"
    using store_paths(3) [OF es r r rnd rnd] store_paths(3) [OF es ref ref rnd rnd] by auto
  have eq: "data_path es r = data_path es ref \<longleftrightarrow> r = ref"
    using store_paths(1) [OF es r ref rnd rnd] .
  obtain open_fault write_fault cf close_fault
    where f: "faults = (open_fault, write_fault, cf, close_fault)"
    by (cases faults)
  show ?thesis
    using run tmp eq
    by (cases "cf_remove cf"; cases close_fault)
      (auto simp: f put_blob_def write_error_def written_def OpenWriter_def writer_Write_def writer_Commit_def commit_body_def
        writer_Close_def Let_def split: option.splits if_splits prod.splits)
qed

lemma get_blob_eq: "get_blob (store_at es) ref fl = fl (data_path es ref)"
  by (simp add: get_blob_def OpenReader_def Let_def split: option.splits)

interpretation local_blobs: blob_store "put_blob (store_at es)" "get_blob (store_at es)"
  "\<lambda>ref. plain_elem ref \<and> list_all plain_elem es" "\<lambda>rnd. CHR ''/'' \<notin> set rnd" for es
proof unfold_locales
  fix f rnd ref v st st'
  assume "put_blob (store_at es) f rnd ref v st = (None, st')"
    "plain_elem ref \<and> list_all plain_elem es" "CHR ''/'' \<notin> set rnd"
  then show "get_blob (store_at es) ref st = None \<and> get_blob (store_at es) ref st' = Some v"
    using put_blob_effect [of es f rnd ref v st None st' ref] by (simp add: get_blob_eq)
next
  fix f rnd ref v st e st' r
  assume "put_blob (store_at es) f rnd ref v st = (Some e, st')"
    "plain_elem ref \<and> list_all plain_elem es" "plain_elem r \<and> list_all plain_elem es"
    "CHR ''/'' \<notin> set rnd"
  then show "get_blob (store_at es) r st' = get_blob (store_at es) r st"
    using put_blob_effect [of es f rnd ref v st "Some e" st' r] by (simp add: get_blob_eq)
next
  fix f rnd ref v st err st' r
  assume "put_blob (store_at es) f rnd ref v st = (err, st')"
    "plain_elem ref \<and> list_all plain_elem es" "plain_elem r \<and> list_all plain_elem es"
    "r \<noteq> ref" "CHR ''/'' \<notin> set rnd"
  then show "get_blob (store_at es) r st' = get_blob (store_at es) r st"
    using put_blob_effect [of es f rnd ref v st err st' r] by (simp add: get_blob_eq)
qed

section \<open>Properties\<close>

text \<open>
  C16: the local store implements the abstract store, with every failure of the operating
  system taken into account. For a root directory and references that are plain names and
  random names that do not repeat, any sequence of operations on a store from
  \<^const>\<open>NewStore\<close> returns the results of the abstract store, and afterwards exactly the
  abstract blobs are committed.
\<close>

theorem local_store_refines:
  assumes "list_all plain_elem es" "NewStore None None (''/'' @ str_join ''/'' es) = Inr s"
    and "list_all op_plain xs" "distinct (op_names xs)"
    and "exec_ops s xs \<lparr>files = (\<lambda>_. None), writers = []\<rparr> = (outs, st)"
    and "abs_ops xs \<lparr>blobs = (\<lambda>_. None), pending = []\<rparr> = (outs', a)"
  shows "outs = outs' \<and> (\<forall>ref. plain_elem ref \<longrightarrow> files st (path_join [dataDir s, ref]) = blobs a ref)"
proof -
  have s: "s = store_at es" using assms(1,2) NewStore_plain by simp
  have "outs = outs' \<and> store_rel es ([] @ op_names xs) st a"
    using assms(3-6) unfolding s
    by (intro exec_ops_refines [OF store_rel_init [OF assms(1)]]) simp_all
  then show ?thesis by (simp add: s store_rel_def)
qed

theorem local_store_refines_witness:
  "\<exists>st. exec_ops (store_at [''var''])
     [OpOpen None ''1'', OpWrite 0 None ''ab'', OpCommit 0 \<lparr>cf_sync = None, cf_stat = None, cf_rename = None,
        cf_remove = None\<rparr> ''r'', OpRead None None ''r''] \<lparr>files = (\<lambda>_. None), writers = []\<rparr>
     = ([Ok, Ok, Ok, Content ''ab'' 2], st) \<and> files st (path_join [dataDir (store_at [''var'']), ''r'']) = Some ''ab''"
proof -
  let ?ops = "[OpOpen None ''1'', OpWrite 0 None ''ab'', OpCommit 0 \<lparr>cf_sync = None, cf_stat = None,
    cf_rename = None, cf_remove = None\<rparr> ''r'', OpRead None None ''r'']"
  have pl: "list_all plain_elem [''var'']" "plain_elem ''r''" by (simp_all add: plain_elem_def)
  obtain outs st where run: "exec_ops (store_at [''var'']) ?ops \<lparr>files = (\<lambda>_. None), writers = []\<rparr> = (outs, st)"
    by fastforce
  have abs: "abs_ops ?ops \<lparr>blobs = (\<lambda>_. None), pending = []\<rparr> =
      ([Ok, Ok, Ok, Content ''ab'' 2], \<lparr>blobs = [''r'' \<mapsto> ''ab''], pending = [(None, False)]\<rparr>)"
    by (simp add: abs_op_def abs_commit_def write_error_def written_def)
  from local_store_refines [OF pl(1) NewStore_plain [OF pl(1)] _ _ run abs] pl(2) run
  show ?thesis by (auto simp: op_names_def)
qed

text \<open>
  C20: committed blobs are immutable. Storing a value either succeeds, and then its reference
  was free and now yields the value, or fails and changes no blob; so a blob, once
  committed, survives any sequence of further attempts to store values, under the same or
  other references and with any failures.
\<close>

theorem committed_blob_immutable:
  assumes "put_blob (store_at es) faults rnd ref v fl = (None, fl')"
    and "list_all plain_elem es" "plain_elem ref" "CHR ''/'' \<notin> set rnd"
    and "put_all (put_blob (store_at es)) xs fl' = (errs, fl'')"
    and "\<forall>(f, rnd, ref, v) \<in> set xs. plain_elem ref \<and> CHR ''/'' \<notin> set rnd"
  shows "get_blob (store_at es) ref fl = None \<and> get_blob (store_at es) ref fl'' = Some v"
proof -
  have put: "get_blob (store_at es) ref fl = None \<and> get_blob (store_at es) ref fl' = Some v"
    using local_blobs.put_ok [OF assms(1)] assms(2-4) by simp
  have "get_blob (store_at es) ref fl'' = Some v"
    by (rule local_blobs.put_all_stable [OF assms(5)]) (use put assms in auto)
  with put show ?thesis by blast
qed

theorem committed_blob_immutable_witness:
  "\<exists>fl. put_blob (store_at [''var'']) (None, None, \<lparr>cf_sync = None, cf_stat = None, cf_rename = None,
      cf_remove = None\<rparr>, None) ''1'' ''r'' ''ab'' (\<lambda>_. None) = (None, fl) \<and>
    get_blob (store_at [''var'']) ''r'' fl = Some ''ab''"
proof -
  have pl: "list_all plain_elem [''var'']" "plain_elem ''r''" by (simp_all add: plain_elem_def)
  have tmp: "data_path [''var''] ''r'' \<noteq> temp_path [''var''] ''1''"
    using store_paths(3) [OF pl(1) pl(2) pl(2), of "''1''" "''1''"] by simp
  then obtain fl where fl: "put_blob (store_at [''var'']) (None, None, \<lparr>cf_sync = None, cf_stat = None,
      cf_rename = None, cf_remove = None\<rparr>, None) ''1'' ''r'' ''ab'' (\<lambda>_. None) = (None, fl)"
    by (simp add: put_blob_def OpenWriter_def writer_Write_def writer_Commit_def commit_body_def
        writer_Close_def write_error_def written_def Let_def)
  from committed_blob_immutable [OF this pl, of "[]"] fl show ?thesis by simp
qed

end
