(* ===== verification/Metrics.thy ===== *)
theory Metrics
  imports Types Go_Errors "HOL-Library.Multiset"
begin

text \<open>
  The package \<^verbatim>\<open>metrics\<close>: percentile latencies and error statistics (\<^verbatim>\<open>utils.go\<close>), the
  classification of request errors, and the measurement object that the workers of a
  schedule share (\<^verbatim>\<open>request.go\<close>). The predicates of \<^verbatim>\<open>k8s.io/apimachinery/pkg/api/errors\<close>
  and the printer of HTTP/2 error codes are parameters.
\<close>

section \<open>Results (\<^verbatim>\<open>api/types/metric.go\<close>)\<close>

type_synonym ResponseErrorType = string

abbreviation ResponseErrorTypeUnknown :: ResponseErrorType where
  "ResponseErrorTypeUnknown \<equiv> ''unknown''"
abbreviation ResponseErrorTypeHTTP :: ResponseErrorType where
  "ResponseErrorTypeHTTP \<equiv> ''http''"
abbreviation ResponseErrorTypeHTTP2Protocol :: ResponseErrorType where
  "ResponseErrorTypeHTTP2Protocol \<equiv> ''http2-protocol''"
abbreviation ResponseErrorTypeConnection :: ResponseErrorType where
  "ResponseErrorTypeConnection \<equiv> ''connection''"

record ResponseError =
  re_Method :: string
  re_URL :: string
  re_Timestamp :: int
  re_Duration :: float64
  re_Type :: ResponseErrorType
  re_Code :: int
  re_Message :: string

record ResponseStats =
  rs_Errors :: "ResponseError list"
  rs_LatenciesByURL :: "float64 list gomap"
  rs_TotalReceivedBytes :: int

section \<open>Percentiles\<close>

definition percentiles :: "float64 list" where
  "percentiles = [Fin 0, Fin (1 / 2), Fin (fl (9 / 10)), Fin (fl (19 / 20)), Fin (fl (99 / 100)), Fin 1]"

text \<open>\<^verbatim>\<open>int(math.Ceil(x))\<close>; the conversion of NaN and of infinities is left open by the
  language and is no value here.\<close>

fun ceil_to_int :: "float64 \<Rightarrow> int option" where
  "ceil_to_int (Fin r) = Some \<lceil>r\<rceil>"
| "ceil_to_int _ = None"

definition percentile_idx :: "int \<Rightarrow> float64 \<Rightarrow> int option" where
  "percentile_idx n pv =
     map_option (\<lambda>idx. if idx > 0 then idx - 1 else idx)
       (ceil_to_int (float_mul (float_of_int n) pv))"

text \<open>Indexing a slice panics out of range.\<close>

definition slice_at :: "'a list \<Rightarrow> int \<Rightarrow> 'a option" where
  "slice_at xs i = (if 0 \<le> i \<and> i < int (length xs) then Some (xs ! nat i) else None)"

fun fill_percentiles :: "float64 list \<Rightarrow> float64 list \<Rightarrow> (float64 \<times> float64) list option" where
  "fill_percentiles ls [] = Some []"
| "fill_percentiles ls (pv # pvs) =
     (case percentile_idx (int (length ls)) pv of
        None \<Rightarrow> None
      | Some idx \<Rightarrow>
          (case slice_at ls idx of
             None \<Rightarrow> None
           | Some v \<Rightarrow> map_option (\<lambda>res. (pv, v) # res) (fill_percentiles ls pvs)))"

text \<open>The result together with the argument slice, which the function sorts in place;
  \<open>None\<close> is a panic, and the empty list is \<^verbatim>\<open>nil\<close>.\<close>

definition BuildPercentileLatencies ::
  "float64 list \<Rightarrow> ((float64 \<times> float64) list \<times> float64 list) option" where
  "BuildPercentileLatencies latencies =
     (if latencies = [] then Some ([], latencies)
      else let latencies = sort latencies
           in map_option (\<lambda>res. (res, latencies)) (fill_percentiles latencies percentiles))"

section \<open>Error statistics\<close>

definition error_key :: "ResponseError \<Rightarrow> string" where
  "error_key err =
     (if re_Type err = ResponseErrorTypeHTTP then re_Type err @ ''/'' @ itoa (re_Code err)
      else re_Type err @ ''/'' @ re_Message err)"

fun count_errors :: "int gomap \<Rightarrow> ResponseError list \<Rightarrow> int gomap" where
  "count_errors res [] = res"
| "count_errors res (err # errs) =
     (let key = error_key err
      in count_errors (AList.update key (wrap32 (gomap_get 0 res key + 1)) res) errs)"

definition BuildErrorStatsGroupByType :: "ResponseError list \<Rightarrow> int gomap" where
  "BuildErrorStatsGroupByType errs = count_errors [] errs"

section \<open>Classification of request errors\<close>

datatype api_reason =
  IsBadRequest | IsUnauthorized | IsForbidden | IsNotFound | IsMethodNotSupported
| IsNotAcceptable | IsAlreadyExists | IsGone | IsRequestEntityTooLargeError
| IsUnsupportedMediaType | IsInvalid | IsTooManyRequests | IsInternalError
| IsServiceUnavailable | IsTimeout | IsResourceExpired

definition http_codes :: "(api_reason \<times> int) list" where
  "http_codes =
     [(IsBadRequest, 400), (IsUnauthorized, 401), (IsForbidden, 403), (IsNotFound, 404),
      (IsMethodNotSupported, 405), (IsNotAcceptable, 406), (IsAlreadyExists, 409), (IsGone, 410),
      (IsRequestEntityTooLargeError, 413), (IsUnsupportedMediaType, 415), (IsInvalid, 422),
      (IsTooManyRequests, 429), (IsInternalError, 500), (IsServiceUnavailable, 503),
      (IsTimeout, 504)]"

definition codeFromHTTP :: "(api_reason \<Rightarrow> goerr \<Rightarrow> bool) \<Rightarrow> goerr option \<Rightarrow> int" where
  "codeFromHTTP api_is err =
     (case err of
        None \<Rightarrow> 0
      | Some e \<Rightarrow>
          (case find (\<lambda>(r, c). api_is r e) http_codes of
             Some (r, c) \<Rightarrow> c
           | None \<Rightarrow> (case errors_As as_APIStatus e of Some code \<Rightarrow> code | None \<Rightarrow> 0)))"

definition errHTTP2ClientConnectionLost :: string where
  "errHTTP2ClientConnectionLost = ''http2: client connection lost''"

definition errTLSHandshakeTimeout :: string where
  "errTLSHandshakeTimeout = ''net/http: TLS handshake timeout''"

definition isHTTP2Error :: "(ErrCode \<Rightarrow> string) \<Rightarrow> goerr option \<Rightarrow> string \<times> bool" where
  "isHTTP2Error code_string err =
     (case err of
        None \<Rightarrow> ('''', False)
      | Some e \<Rightarrow>
          (case errors_As as_ConnectionError e of
             Some c \<Rightarrow> (code_string c, True)
           | None \<Rightarrow>
          (case errors_As as_StreamError e of
             Some c \<Rightarrow> (code_string c, True)
           | None \<Rightarrow>
          (case errors_As as_GoAwayError e of
             Some (c, debug) \<Rightarrow>
               (''http2: server sent GOAWAY and closed the connection; ErrCode='' @ code_string c
                  @ '', debug='' @ debug, True)
           | None \<Rightarrow>
               if str_contains (err_text e) errHTTP2ClientConnectionLost
               then (errHTTP2ClientConnectionLost, True)
               else ('''', False)))))"

definition isTimeoutError :: "goerr option \<Rightarrow> bool" where
  "isTimeoutError err =
     (case err of None \<Rightarrow> False
      | Some e \<Rightarrow> (case errors_As as_NetError e of None \<Rightarrow> False | Some timeout \<Rightarrow> timeout))"

definition isConnectionRefused :: "goerr option \<Rightarrow> bool" where
  "isConnectionRefused err =
     (case err of None \<Rightarrow> False
      | Some e \<Rightarrow> (case errors_As as_Errno e of None \<Rightarrow> False | Some errno \<Rightarrow> errno = ECONNREFUSED))"

definition isConnectionResetByPeer :: "goerr option \<Rightarrow> bool" where
  "isConnectionResetByPeer err =
     (case err of None \<Rightarrow> False
      | Some e \<Rightarrow> (case errors_As as_Errno e of None \<Rightarrow> False | Some errno \<Rightarrow> errno = ECONNRESET))"

definition isConnectionError :: "goerr option \<Rightarrow> string \<times> bool" where
  "isConnectionError err =
     (case err of
        None \<Rightarrow> ('''', False)
      | Some e \<Rightarrow>
          if isTimeoutError err then (err_text e, True)
          else if isConnectionRefused err then (''connection refused'', True)
          else if isConnectionResetByPeer err then (''connection reset by peer'', True)
          else if errors_Is is_UnexpectedEOF e then (''unexpected EOF'', True)
          else if errors_Is is_EOF e then (''EOF'', True)
          else if str_contains (err_text e) errTLSHandshakeTimeout
          then (errTLSHandshakeTimeout, True)
          else ('''', False))"

section \<open>The shared measurement\<close>

record responseMetricImpl =
  m_errors :: "ResponseError list"
  m_receivedBytes :: int
  m_latenciesByURLs :: "float64 list gomap"

definition NewResponseMetric :: responseMetricImpl where
  "NewResponseMetric = \<lparr>m_errors = [], m_receivedBytes = 0, m_latenciesByURLs = []\<rparr>"

definition latency_key :: "string \<Rightarrow> string \<Rightarrow> string" where
  "latency_key meth url = meth @ '' '' @ url"

definition ObserveLatency ::
  "string \<Rightarrow> string \<Rightarrow> float64 \<Rightarrow> responseMetricImpl \<Rightarrow> responseMetricImpl" where
  "ObserveLatency meth url seconds m =
     (let key = latency_key meth url;
          l = (case map_of (m_latenciesByURLs m) key of None \<Rightarrow> [] | Some l \<Rightarrow> l)
      in m\<lparr>m_latenciesByURLs := AList.update key (l @ [seconds]) (m_latenciesByURLs m)\<rparr>)"

text \<open>The record that \<^verbatim>\<open>ObserveFailure\<close> builds for an error, HTTP status before HTTP/2 before
  connection before unknown.\<close>

definition observed_error ::
  "(api_reason \<Rightarrow> goerr \<Rightarrow> bool) \<Rightarrow> (ErrCode \<Rightarrow> string) \<Rightarrow>
   string \<Rightarrow> string \<Rightarrow> int \<Rightarrow> float64 \<Rightarrow> goerr \<Rightarrow> ResponseError" where
  "observed_error api_is code_string meth url now seconds e =
     (let oerr = \<lparr>re_Method = meth, re_URL = url, re_Timestamp = now, re_Duration = seconds,
                  re_Type = [], re_Code = 0, re_Message = []\<rparr>;
          code = codeFromHTTP api_is (Some e);
          (http2Err, isHTTP2Err) = isHTTP2Error code_string (Some e);
          (connErr, isConnErr) = isConnectionError (Some e)
      in if code \<noteq> 0 then oerr\<lparr>re_Type := ResponseErrorTypeHTTP, re_Code := code\<rparr>
         else if isHTTP2Err
         then oerr\<lparr>re_Type := ResponseErrorTypeHTTP2Protocol, re_Message := http2Err\<rparr>
         else if isConnErr
         then oerr\<lparr>re_Type := ResponseErrorTypeConnection, re_Message := connErr\<rparr>
         else oerr\<lparr>re_Type := ResponseErrorTypeUnknown, re_Message := err_text e\<rparr>)"

definition ObserveFailure ::
  "(api_reason \<Rightarrow> goerr \<Rightarrow> bool) \<Rightarrow> (ErrCode \<Rightarrow> string) \<Rightarrow>
   string \<Rightarrow> string \<Rightarrow> int \<Rightarrow> float64 \<Rightarrow> goerr option \<Rightarrow> responseMetricImpl \<Rightarrow> responseMetricImpl" where
  "ObserveFailure api_is code_string meth url now seconds err m =
     (case err of
        None \<Rightarrow> m
      | Some e \<Rightarrow>
          m\<lparr>m_errors := m_errors m @ [observed_error api_is code_string meth url now seconds e]\<rparr>)"

definition ObserveReceivedBytes :: "int \<Rightarrow> responseMetricImpl \<Rightarrow> responseMetricImpl" where
  "ObserveReceivedBytes bytes m = m\<lparr>m_receivedBytes := wrap64 (m_receivedBytes m + bytes)\<rparr>"

definition dumpLatencies :: "responseMetricImpl \<Rightarrow> float64 list gomap" where
  "dumpLatencies m =
     foldl (\<lambda>res (u, latencies). AList.update u latencies res) [] (m_latenciesByURLs m)"

definition dumpErrors :: "responseMetricImpl \<Rightarrow> ResponseError list" where
  "dumpErrors m = foldl (\<lambda>res e. res @ [e]) [] (m_errors m)"

definition Gather :: "responseMetricImpl \<Rightarrow> ResponseStats" where
  "Gather m = \<lparr>rs_Errors = dumpErrors m, rs_LatenciesByURL = dumpLatencies m,
     rs_TotalReceivedBytes = m_receivedBytes m\<rparr>"

section \<open>Percentiles are nearest ranks\<close>

lemma fl_percentiles:
  "fl (9 / 10) = 8106479329266893 / 9007199254740992"
  "fl (19 / 20) = 8556839292003942 / 9007199254740992"
  "fl (99 / 100) = 8917127262193582 / 9007199254740992"
  by code_simp+

text \<open>The nearest rank of \<open>a\<close> hundredths among \<open>n\<close> sorted samples, counted from 0.\<close>

definition nearest_rank :: "int \<Rightarrow> int \<Rightarrow> int" where
  "nearest_rank n a = (if a = 0 then 0 else \<lceil>of_int (n * a) / (100 :: rat)\<rceil> - 1)"

lemma nearest_rank_bounds:
  assumes "0 < n" "0 \<le> a" "a \<le> 100"
  shows "0 \<le> nearest_rank n a" "nearest_rank n a < n"
proof -
  have "n * a \<le> n * 100" using assms by (intro mult_left_mono) auto
  then have "(of_int (n * a) :: rat) \<le> of_int (n * 100)" by (simp only: of_int_le_iff)
  then have "of_int (n * a) / (100 :: rat) \<le> of_int n" by simp
  then have "\<lceil>of_int (n * a) / (100 :: rat)\<rceil> \<le> n" by (simp add: ceiling_le_iff)
  then show "nearest_rank n a < n" using assms by (simp add: nearest_rank_def)
  have "0 < a \<Longrightarrow> 0 < \<lceil>of_int (n * a) / (100 :: rat)\<rceil>" using assms by simp
  then show "0 \<le> nearest_rank n a" using assms by (auto simp: nearest_rank_def)
qed

lemma nearest_rank_mono:
  assumes "0 < n" "0 \<le> a" "a \<le> b" "b \<le> 100"
  shows "nearest_rank n a \<le> nearest_rank n b"
proof (cases "a = 0")
  case True
  then show ?thesis using nearest_rank_bounds [of n b] assms by (simp add: nearest_rank_def)
next
  case False
  have "n * a \<le> n * b" using assms by (intro mult_left_mono) auto
  then have "(of_int (n * a) :: rat) \<le> of_int (n * b)" by (simp only: of_int_le_iff)
  then have "\<lceil>of_int (n * a) / (100 :: rat)\<rceil> \<le> \<lceil>of_int (n * b) / (100 :: rat)\<rceil>"
    by (intro ceiling_mono divide_right_mono) auto
  with False assms show ?thesis by (simp add: nearest_rank_def)
qed

lemma percentile_idx_rank:
  assumes n: "0 < n" "n < 2 ^ 40"
    and a: "0 < a" "a \<le> 100"
    and p: "0 < p" "\<bar>p - of_int a / 100\<bar> * 2 ^ 54 < p" "\<bar>p - of_int a / 100\<bar> \<le> 1 / 2 ^ 54"
  shows "percentile_idx n (Fin p) = Some (nearest_rank n a)"
proof -
  have "fl (of_int n) = of_int n" using n by (intro fl_int) auto
  moreover have "0 < \<lceil>of_int (n * a) / (100 :: rat)\<rceil>" using n a by simp
  ultimately show ?thesis using ceiling_fl_mult [OF n a p] a
    by (simp add: percentile_idx_def float_of_int_def nearest_rank_def)
qed

lemma percentile_ranks:
  assumes n: "0 < n" "n < 2 ^ 40"
  shows "map (percentile_idx n) percentiles = map (Some \<circ> nearest_rank n) [0, 50, 90, 95, 99, 100]"
proof -
  have "percentile_idx n (Fin 0) = Some (nearest_rank n 0)"
    by (simp add: percentile_idx_def float_of_int_def nearest_rank_def fl_def)
  moreover have "percentile_idx n (Fin (1 / 2)) = Some (nearest_rank n 50)"
    using percentile_idx_rank [OF n, of 50 "1 / 2"] by simp
  moreover have "percentile_idx n (Fin (fl (9 / 10))) = Some (nearest_rank n 90)"
    unfolding fl_percentiles by (intro percentile_idx_rank n) simp_all
  moreover have "percentile_idx n (Fin (fl (19 / 20))) = Some (nearest_rank n 95)"
    unfolding fl_percentiles by (intro percentile_idx_rank n) simp_all
  moreover have "percentile_idx n (Fin (fl (99 / 100))) = Some (nearest_rank n 99)"
    unfolding fl_percentiles by (intro percentile_idx_rank n) simp_all
  moreover have "percentile_idx n (Fin 1) = Some (nearest_rank n 100)"
    using percentile_idx_rank [OF n, of 100 1] by simp
  ultimately show ?thesis by (simp add: percentiles_def)
qed

lemma fill_percentiles_ranks:
  assumes "map (percentile_idx (int (length ls))) pvs = map (Some \<circ> f) as"
    and "\<And>a. a \<in> set as \<Longrightarrow> 0 \<le> f a \<and> f a < int (length ls)"
  shows "fill_percentiles ls pvs = Some (zip pvs (map (\<lambda>a. ls ! nat (f a)) as))"
  using assms
proof (induction pvs arbitrary: as)
  case (Cons pv pvs)
  then obtain a bs where as: "as = a # bs" by (cases as) auto
  with Cons.prems have "fill_percentiles ls pvs = Some (zip pvs (map (\<lambda>a. ls ! nat (f a)) bs))"
    by (intro Cons.IH) auto
  with as Cons.prems show ?case by (auto simp: slice_at_def)
qed simp

lemma BuildPercentileLatencies_ranks:
  assumes "ls \<noteq> []" "length ls < 2 ^ 40"
  shows "BuildPercentileLatencies ls =
    Some (zip percentiles (map (\<lambda>a. sort ls ! nat (nearest_rank (int (length ls)) a))
            [0, 50, 90, 95, 99, 100]), sort ls)"
proof -
  have n: "0 < int (length (sort ls))" "int (length (sort ls)) < 2 ^ 40"
    using assms by simp_all
  have b: "\<And>a. a \<in> set [0, 50, 90, 95, 99, 100] \<Longrightarrow>
      0 \<le> nearest_rank (int (length (sort ls))) a \<and>
      nearest_rank (int (length (sort ls))) a < int (length (sort ls))"
    using nearest_rank_bounds [OF n(1)] by auto
  have "fill_percentiles (sort ls) percentiles =
      Some (zip percentiles (map (\<lambda>a. sort ls ! nat (nearest_rank (int (length ls)) a))
        [0, 50, 90, 95, 99, 100]))"
    using fill_percentiles_ranks [OF percentile_ranks [OF n] b] by simp
  with assms show ?thesis by (simp add: BuildPercentileLatencies_def Let_def)
qed


text \<open>\<open>v\<close> is the \<open>a\<close>-th percentile of the samples: it is a sample, at least \<open>a\<close> hundredths of the
  samples are at most \<open>v\<close>, and fewer than that are below it.\<close>

definition is_percentile :: "float64 list \<Rightarrow> int \<Rightarrow> float64 \<Rightarrow> bool" where
  "is_percentile ls a v \<longleftrightarrow>
     v \<in> set ls \<and>
     a * int (length ls) \<le> 100 * int (length (filter (\<lambda>x. x \<le> v) ls)) \<and>
     (if a = 0 then filter (\<lambda>x. x < v) ls = []
      else 100 * int (length (filter (\<lambda>x. x < v) ls)) < a * int (length ls))"

lemma sorted_filter_le:
  fixes s :: "'a::linorder list"
  assumes "sorted s" "k < length s"
  shows "Suc k \<le> length (filter (\<lambda>x. x \<le> s ! k) s)"
proof -
  have "filter (\<lambda>x. x \<le> s ! k) (take (Suc k) s) = take (Suc k) s"
    using assms by (auto simp: filter_id_conv in_set_conv_nth intro!: sorted_nth_mono)
  moreover have "filter (\<lambda>x. x \<le> s ! k) s =
      filter (\<lambda>x. x \<le> s ! k) (take (Suc k) s) @ filter (\<lambda>x. x \<le> s ! k) (drop (Suc k) s)"
    by (metis append_take_drop_id filter_append)
  ultimately show ?thesis using assms(2) by simp
qed

lemma sorted_filter_less:
  fixes s :: "'a::linorder list"
  assumes "sorted s" "k < length s"
  shows "length (filter (\<lambda>x. x < s ! k) s) \<le> k"
proof -
  have "filter (\<lambda>x. x < s ! k) (drop k s) = []"
    using assms by (auto simp: filter_empty_conv in_set_conv_nth not_less intro!: sorted_nth_mono)
  moreover have "filter (\<lambda>x. x < s ! k) s =
      filter (\<lambda>x. x < s ! k) (take k s) @ filter (\<lambda>x. x < s ! k) (drop k s)"
    by (metis append_take_drop_id filter_append)
  ultimately show ?thesis
    using length_filter_le [of "\<lambda>x. x < s ! k" "take k s"] assms(2) by simp
qed

lemma length_filter_sort: "length (filter P (sort ls)) = length (filter P ls)"
  by (metis mset_filter mset_sort size_mset)

lemma rank_is_percentile:
  assumes "ls \<noteq> []" "0 \<le> a" "a \<le> 100"
  shows "is_percentile ls a (sort ls ! nat (nearest_rank (int (length ls)) a))"
proof -
  define n where "n = int (length ls)"
  define k where "k = nat (nearest_rank n a)"
  have n: "0 < n" using assms by (simp add: n_def)
  have k: "int k = nearest_rank n a" "k < length (sort ls)"
    using nearest_rank_bounds [OF n assms(2,3)] by (auto simp: k_def n_def)
  let ?v = "sort ls ! k"
  have le: "Suc k \<le> length (filter (\<lambda>x. x \<le> ?v) ls)"
    using sorted_filter_le [OF sorted_sort k(2)] by (simp add: length_filter_sort)
  have less: "length (filter (\<lambda>x. x < ?v) ls) \<le> k"
    using sorted_filter_less [OF sorted_sort k(2)] by (simp add: length_filter_sort)
  have v: "?v \<in> set ls" using k(2) by (metis nth_mem set_sort)
  have "is_percentile ls a ?v"
  proof (cases "a = 0")
    case True
    with k(1) have "k = 0" by (simp add: nearest_rank_def)
    with less v True show ?thesis by (simp add: is_percentile_def)
  next
    case False
    then have "int k + 1 = \<lceil>of_int (n * a) / (100 :: rat)\<rceil>" using k(1) by (simp add: nearest_rank_def)
    then have "of_int (n * a) / (100 :: rat) \<le> of_int (int k + 1)"
      "of_int (int k) < of_int (n * a) / (100 :: rat)" by linarith+
    then have "(of_int (n * a) :: rat) \<le> of_int (100 * (int k + 1))"
      "(of_int (100 * int k) :: rat) < of_int (n * a)" by simp_all
    then have "n * a \<le> 100 * (int k + 1)" "100 * int k < n * a"
      by (simp_all only: of_int_le_iff of_int_less_iff)
    with le less v False show ?thesis
      by (auto simp: is_percentile_def mult.commute simp flip: n_def)
  qed
  then show ?thesis by (simp add: k_def n_def)
qed

lemma sorted_ranks:
  assumes "ls \<noteq> []"
  shows "sorted (map (\<lambda>a. sort ls ! nat (nearest_rank (int (length ls)) a)) [0, 50, 90, 95, 99, 100])"
proof -
  have "sort ls ! nat (nearest_rank (int (length ls)) a) \<le> sort ls ! nat (nearest_rank (int (length ls)) b)"
    if "0 \<le> a" "a \<le> b" "b \<le> 100" for a b
    using that assms nearest_rank_mono [of "int (length ls)" a b] nearest_rank_bounds [of "int (length ls)" b]
    by (intro sorted_nth_mono) auto
  then show ?thesis by simp
qed

section \<open>Error statistics count errors\<close>

abbreviation errors_with :: "string \<Rightarrow> ResponseError list \<Rightarrow> ResponseError list" where
  "errors_with k errs \<equiv> filter (\<lambda>e. error_key e = k) errs"

lemma wrap32_gomap_get_update:
  "wrap32 (gomap_get 0 (AList.update key (wrap32 (gomap_get 0 res key + 1)) res) k + c) =
     wrap32 (gomap_get 0 res k + (if k = key then 1 + c else c))"
  by (simp add: add.assoc)

lemma count_errors_get:
  assumes "\<And>k. is_int32 (gomap_get 0 res k)"
  shows "gomap_get 0 (count_errors res errs) k =
    wrap32 (gomap_get 0 res k + int (length (errors_with k errs)))"
  using assms
proof (induction errs arbitrary: res)
  case (Cons e errs)
  let ?res = "AList.update (error_key e) (wrap32 (gomap_get 0 res (error_key e) + 1)) res"
  have "\<And>k. is_int32 (gomap_get 0 ?res k)" using Cons.prems by simp
  from Cons.IH [OF this] show ?case
    by (simp only: count_errors.simps Let_def wrap32_gomap_get_update) simp
qed simp

lemma count_errors_keys:
  "fst ` set (count_errors res errs) = fst ` set res \<union> error_key ` set errs"
  by (induction errs arbitrary: res) (simp_all add: Let_def dom_update)

lemma count_errors_wf: "wf_gomap res \<Longrightarrow> wf_gomap (count_errors res errs)"
  by (induction errs arbitrary: res) (simp_all add: Let_def)

lemma stats_lookup:
  assumes "length errs < 2 ^ 31"
  shows "map_of (BuildErrorStatsGroupByType errs) k =
    (if errors_with k errs = [] then None else Some (int (length (errors_with k errs))))"
proof -
  have "length (errors_with k errs) < 2 ^ 31"
    using le_less_trans [OF length_filter_le assms] .
  then have "is_int32 (int (length (errors_with k errs)))" by (simp add: is_int32_def)
  then have "gomap_get 0 (BuildErrorStatsGroupByType errs) k = int (length (errors_with k errs))"
    using count_errors_get [of "[]" errs k]
    by (simp add: BuildErrorStatsGroupByType_def is_int32_def)
  moreover have "k \<in> fst ` set (BuildErrorStatsGroupByType errs) \<longleftrightarrow> errors_with k errs \<noteq> []"
    by (auto simp: BuildErrorStatsGroupByType_def count_errors_keys filter_empty_conv)
  ultimately show ?thesis using gomap_get_map_of [of "BuildErrorStatsGroupByType errs" k 0] by simp
qed

lemma sum_counts:
  assumes "finite A" "error_key ` set errs \<subseteq> A"
  shows "(\<Sum>k\<in>A. int (length (errors_with k errs))) = int (length errs)"
  using assms(2)
proof (induction errs)
  case (Cons e errs)
  have "(\<Sum>k\<in>A. int (length (errors_with k (e # errs)))) =
      (\<Sum>k\<in>A. (if k = error_key e then 1 else 0) + int (length (errors_with k errs)))"
    by (intro sum.cong) auto
  with Cons assms(1) show ?case by (simp add: sum.distrib)
qed simp

section \<open>The contract of a response metric\<close>

datatype observation =
  ObsLatency string string float64
| ObsFailure string string int float64 "goerr option"
| ObsBytes int

definition latencies_of :: "string \<Rightarrow> observation list \<Rightarrow> float64 list" where
  "latencies_of key obs = concat (map (\<lambda>x. case x of
     ObsLatency meth url s \<Rightarrow> (if latency_key meth url = key then [s] else []) | _ \<Rightarrow> []) obs)"

definition failures_of ::
  "(string \<Rightarrow> string \<Rightarrow> int \<Rightarrow> float64 \<Rightarrow> goerr \<Rightarrow> ResponseError) \<Rightarrow> observation list \<Rightarrow> ResponseError list"
where
  "failures_of classify obs = concat (map (\<lambda>x. case x of
     ObsFailure meth url now s (Some e) \<Rightarrow> [classify meth url now s e] | _ \<Rightarrow> []) obs)"

definition bytes_of :: "observation list \<Rightarrow> int" where
  "bytes_of obs = sum_list (map (\<lambda>x. case x of ObsBytes b \<Rightarrow> b | _ \<Rightarrow> 0) obs)"

lemmas observation_sums = latencies_of_def failures_of_def bytes_of_def

fun observe_with ::
  "(string \<Rightarrow> string \<Rightarrow> float64 \<Rightarrow> 'm \<Rightarrow> 'm) \<Rightarrow>
   (string \<Rightarrow> string \<Rightarrow> int \<Rightarrow> float64 \<Rightarrow> goerr option \<Rightarrow> 'm \<Rightarrow> 'm) \<Rightarrow> (int \<Rightarrow> 'm \<Rightarrow> 'm) \<Rightarrow>
   observation \<Rightarrow> 'm \<Rightarrow> 'm" where
  "observe_with latency failure received (ObsLatency meth url s) m = latency meth url s m"
| "observe_with latency failure received (ObsFailure meth url now s err) m =
     failure meth url now s err m"
| "observe_with latency failure received (ObsBytes b) m = received b m"

locale response_metric =
  fixes new :: 'm
    and latency :: "string \<Rightarrow> string \<Rightarrow> float64 \<Rightarrow> 'm \<Rightarrow> 'm"
    and failure :: "string \<Rightarrow> string \<Rightarrow> int \<Rightarrow> float64 \<Rightarrow> goerr option \<Rightarrow> 'm \<Rightarrow> 'm"
    and received :: "int \<Rightarrow> 'm \<Rightarrow> 'm"
    and stats :: "'m \<Rightarrow> ResponseStats"
    and classify :: "string \<Rightarrow> string \<Rightarrow> int \<Rightarrow> float64 \<Rightarrow> goerr \<Rightarrow> ResponseError"
    and ok :: "'m \<Rightarrow> bool"
  assumes ok_new: "ok new"
    and ok_latency: "ok m \<Longrightarrow> ok (latency meth url s m)"
    and ok_failure: "ok m \<Longrightarrow> ok (failure meth url now s err m)"
    and ok_received: "ok m \<Longrightarrow> ok (received b m)"
    and stats_new: "stats new = \<lparr>rs_Errors = [], rs_LatenciesByURL = [], rs_TotalReceivedBytes = 0\<rparr>"
    and stats_latency: "ok m \<Longrightarrow> stats (latency meth url s m) = (stats m)
      \<lparr>rs_LatenciesByURL := AList.update (latency_key meth url)
         (gomap_get [] (rs_LatenciesByURL (stats m)) (latency_key meth url) @ [s])
         (rs_LatenciesByURL (stats m))\<rparr>"
    and stats_failure: "ok m \<Longrightarrow> stats (failure meth url now s err m) =
      (case err of None \<Rightarrow> stats m
       | Some e \<Rightarrow> (stats m)\<lparr>rs_Errors := rs_Errors (stats m) @ [classify meth url now s e]\<rparr>)"
    and stats_received: "ok m \<Longrightarrow> stats (received b m) =
      (stats m)\<lparr>rs_TotalReceivedBytes := wrap64 (rs_TotalReceivedBytes (stats m) + b)\<rparr>"
    and bytes_int64: "ok m \<Longrightarrow> is_int64 (rs_TotalReceivedBytes (stats m))"
    and latencies_wf: "ok m \<Longrightarrow> wf_gomap (rs_LatenciesByURL (stats m))"
begin

abbreviation observe :: "observation \<Rightarrow> 'm \<Rightarrow> 'm" where
  "observe \<equiv> observe_with latency failure received"

lemma observe_all:
  assumes "ok m"
  shows "ok (fold observe obs m) \<and>
    rs_Errors (stats (fold observe obs m)) = rs_Errors (stats m) @ failures_of classify obs \<and>
    gomap_get [] (rs_LatenciesByURL (stats (fold observe obs m))) key =
      gomap_get [] (rs_LatenciesByURL (stats m)) key @ latencies_of key obs \<and>
    fst ` set (rs_LatenciesByURL (stats (fold observe obs m))) =
      fst ` set (rs_LatenciesByURL (stats m)) \<union> {k. latencies_of k obs \<noteq> []} \<and>
    rs_TotalReceivedBytes (stats (fold observe obs m)) =
      wrap64 (rs_TotalReceivedBytes (stats m) + bytes_of obs)"
  using assms
proof (induction obs arbitrary: m)
  case Nil
  then show ?case by (simp add: observation_sums bytes_int64)
next
  case (Cons x obs)
  have "ok (observe x m)"
    using Cons.prems by (cases x) (simp_all add: ok_latency ok_failure ok_received)
  from Cons.IH [OF this] Cons.prems show ?case
    by (cases x)
      (auto simp: stats_latency stats_failure stats_received observation_sums dom_update add.assoc
        split: option.splits)
qed

lemma stats_from_new:
  "rs_Errors (stats (fold observe obs new)) = failures_of classify obs"
  "map_of (rs_LatenciesByURL (stats (fold observe obs new))) key =
     (if latencies_of key obs = [] then None else Some (latencies_of key obs))"
  "wf_gomap (rs_LatenciesByURL (stats (fold observe obs new)))"
  "rs_TotalReceivedBytes (stats (fold observe obs new)) = wrap64 (bytes_of obs)"
  using observe_all [OF ok_new, of obs key]
    gomap_get_map_of [of "rs_LatenciesByURL (stats (fold observe obs new))" key "[]"]
  by (simp_all add: stats_new latencies_wf)

end

lemma dumpErrors_eq [simp]: "dumpErrors m = m_errors m"
proof -
  have "foldl (\<lambda>res e. res @ [e]) acc xs = acc @ xs" for acc and xs :: "ResponseError list"
    by (induction xs arbitrary: acc) simp_all
  then show ?thesis by (simp add: dumpErrors_def)
qed

lemma dumpLatencies_eq:
  assumes "wf_gomap (m_latenciesByURLs m)"
  shows "dumpLatencies m = m_latenciesByURLs m"
proof -
  have "foldl (\<lambda>res (u, l). AList.update u l res) acc xs = acc @ xs"
    if "wf_gomap (acc @ xs)" for acc and xs :: "float64 list gomap"
    using that
  proof (induction xs arbitrary: acc)
    case (Cons x xs)
    then show ?case using Cons.IH [of "acc @ [x]"] by (cases x) (auto simp: update_notin)
  qed simp
  from this [of "[]"] assms show ?thesis by (simp add: dumpLatencies_def)
qed

definition metric_ok :: "responseMetricImpl \<Rightarrow> bool" where
  "metric_ok m \<longleftrightarrow> wf_gomap (m_latenciesByURLs m) \<and> is_int64 (m_receivedBytes m)"

interpretation metric: response_metric NewResponseMetric ObserveLatency
  "ObserveFailure api_is code_string" ObserveReceivedBytes Gather
  "observed_error api_is code_string" metric_ok for api_is code_string
proof unfold_locales
  show "Gather (ObserveLatency meth url s m) = (Gather m)
      \<lparr>rs_LatenciesByURL := AList.update (latency_key meth url)
         (gomap_get [] (rs_LatenciesByURL (Gather m)) (latency_key meth url) @ [s])
         (rs_LatenciesByURL (Gather m))\<rparr>" if "metric_ok m" for m meth url s
    using that
    by (simp add: metric_ok_def Gather_def ObserveLatency_def dumpLatencies_eq gomap_get_def Let_def)
qed (auto simp: metric_ok_def Gather_def ObserveLatency_def ObserveFailure_def dumpLatencies_eq
    ObserveReceivedBytes_def NewResponseMetric_def Let_def split: option.splits)

text \<open>The measurement after a sequence of observations.\<close>

definition observed_metric ::
  "(api_reason \<Rightarrow> goerr \<Rightarrow> bool) \<Rightarrow> (ErrCode \<Rightarrow> string) \<Rightarrow> observation list \<Rightarrow> responseMetricImpl" where
  "observed_metric api_is code_string obs =
     fold (observe_with ObserveLatency (ObserveFailure api_is code_string) ObserveReceivedBytes)
       obs NewResponseMetric"

section \<open>Categories\<close>

lemma observed_error_cases:
  fixes r api_is code_string meth url now s e
  assumes r_def: "r = observed_error api_is code_string meth url now s e"
  shows "(re_Type r = ResponseErrorTypeHTTP \<and> re_Code r \<noteq> 0 \<and> re_Message r = []) \<or>
    (re_Type r \<in> {ResponseErrorTypeHTTP2Protocol, ResponseErrorTypeConnection, ResponseErrorTypeUnknown}
     \<and> re_Code r = 0)"
  by (simp add: r_def observed_error_def Let_def split: prod.split)

section \<open>Properties\<close>

text \<open>
  C9: for every non-empty list of fewer than 2^40 latencies,
  \<^verbatim>\<open>BuildPercentileLatencies\<close> neither panics nor is affected by the rounding of
  \<^verbatim>\<open>float64(n) * pv\<close>: the values it pairs with the percentiles 0, 0.5, 0.90, 0.95, 0.99 and 1
  are samples, are ascending, and are the exact nearest-rank percentiles: at least that
  share of the samples is at most the value, and less than that share is below it. The
  slice it is given is left sorted.
\<close>

theorem percentiles_nearest_rank:
  assumes "ls \<noteq> []" "length ls < 2 ^ 40"
  shows "\<exists>vs. BuildPercentileLatencies ls = Some (zip percentiles vs, sort ls) \<and>
    list_all2 (is_percentile ls) [0, 50, 90, 95, 99, 100] vs \<and> sorted vs"
  using BuildPercentileLatencies_ranks [OF assms] sorted_ranks [OF assms(1)]
    rank_is_percentile [OF assms(1)]
  by (intro exI conjI) (auto)

theorem percentiles_nearest_rank_witness:
  "\<exists>vs. BuildPercentileLatencies [Fin 3, Fin 1, Fin 2] = Some (zip percentiles vs, [Fin 1, Fin 2, Fin 3]) \<and>
    list_all2 (is_percentile [Fin 3, Fin 1, Fin 2]) [0, 50, 90, 95, 99, 100] vs \<and> sorted vs"
proof -
  have "sort [Fin 3, Fin 1, Fin 2] = [Fin 1, Fin 2, Fin 3]" by code_simp
  with percentiles_nearest_rank [of "[Fin 3, Fin 1, Fin 2]"] show ?thesis by simp
qed

text \<open>
  C33: \<^verbatim>\<open>BuildErrorStatsGroupByType\<close> counts: below 2^31 errors, where the 32-bit counters
  cannot wrap, a key is present exactly when some error has it, its counter is the number
  of those errors, and the counters add up to the number of errors.
\<close>

theorem error_stats_count:
  assumes "length errs < 2 ^ 31"
  shows "wf_gomap (BuildErrorStatsGroupByType errs) \<and>
    map_of (BuildErrorStatsGroupByType errs) k =
      (if errors_with k errs = [] then None else Some (int (length (errors_with k errs)))) \<and>
    sum_list (map snd (BuildErrorStatsGroupByType errs)) = int (length errs)"
proof -
  let ?m = "BuildErrorStatsGroupByType errs"
  have wf: "wf_gomap ?m" by (simp add: BuildErrorStatsGroupByType_def count_errors_wf)
  have keys: "fst ` set ?m = error_key ` set errs"
    by (simp add: BuildErrorStatsGroupByType_def count_errors_keys)
  have "gomap_get 0 ?m k = int (length (errors_with k errs))" if "k \<in> fst ` set ?m" for k
    using stats_lookup [OF assms, of k] that by (auto simp: gomap_get_def split: if_splits)
  then have "sum_list (map snd ?m) = (\<Sum>k\<in>fst ` set ?m. int (length (errors_with k errs)))"
    by (simp add: sum_list_gomap [OF wf])
  also have "\<dots> = int (length errs)" using keys by (intro sum_counts) auto
  finally show ?thesis using wf stats_lookup [OF assms] by blast
qed

theorem error_stats_count_witness:
  "sum_list (map snd (BuildErrorStatsGroupByType
     [observed_error (\<lambda>_ _. False) (\<lambda>_. []) ''GET'' ''u'' 0 (Fin 0) \<lparr>err_text = ''x'', err_chain = []\<rparr>])) = 1"
  using error_stats_count
    [of "[observed_error (\<lambda>_ _. False) (\<lambda>_. []) ''GET'' ''u'' 0 (Fin 0) \<lparr>err_text = ''x'', err_chain = []\<rparr>]" "[]"]
  by simp

text \<open>
  The grouping key neither merges nor splits failures: two observed failures have the
  same key exactly when they agree in category, status code and message.
\<close>

theorem error_key_faithful:
  "error_key (observed_error api_is code_string m1 u1 t1 s1 e1) =
     error_key (observed_error api_is code_string m2 u2 t2 s2 e2) \<longleftrightarrow>
   re_Type (observed_error api_is code_string m1 u1 t1 s1 e1) =
     re_Type (observed_error api_is code_string m2 u2 t2 s2 e2) \<and>
   re_Code (observed_error api_is code_string m1 u1 t1 s1 e1) =
     re_Code (observed_error api_is code_string m2 u2 t2 s2 e2) \<and>
   re_Message (observed_error api_is code_string m1 u1 t1 s1 e1) =
     re_Message (observed_error api_is code_string m2 u2 t2 s2 e2)"
  using observed_error_cases [OF refl, of api_is code_string m1 u1 t1 s1 e1]
    observed_error_cases [OF refl, of api_is code_string m2 u2 t2 s2 e2]
  by (auto simp: error_key_def)

text \<open>
  C31: the shared measurement loses and invents nothing. After any sequence of
  observations from \<^const>\<open>NewResponseMetric\<close>, \<^const>\<open>Gather\<close> returns the classified failures
  with a non-nil error in the order of their observation, for every \<^verbatim>\<open>METHOD URL\<close> key exactly
  its latencies in order (and no entry for a key never observed), and the sum of the
  received bytes as a 64-bit integer.
\<close>

theorem gather_complete:
  "rs_Errors (Gather (observed_metric api_is code_string obs)) =
     failures_of (observed_error api_is code_string) obs \<and>
   map_of (rs_LatenciesByURL (Gather (observed_metric api_is code_string obs))) key =
     (if latencies_of key obs = [] then None else Some (latencies_of key obs)) \<and>
   wf_gomap (rs_LatenciesByURL (Gather (observed_metric api_is code_string obs))) \<and>
   rs_TotalReceivedBytes (Gather (observed_metric api_is code_string obs)) = wrap64 (bytes_of obs)"
  unfolding observed_metric_def using metric.stats_from_new by blast

end
