(* ===== verification/Group_Handler.thy ===== *)
theory Group_Handler
  imports Metrics Types
begin

text \<open>
  The runner group of \<^verbatim>\<open>api/types/runner_group.go\<close>, its handler
  (\<^verbatim>\<open>runner/group/handler.go\<close>) and the parser of group specs (\<^verbatim>\<open>runner/group/parse.go\<close>).
  Kubernetes objects are records of the fields that kperf sets or reads; what the API
  server answers to a call is an argument of the operation, and the objects that an
  operation sends are part of its result. The YAML codec is a parameter.
\<close>

section \<open>Runner groups\<close>

record RunnerGroupSpec =
  spec_Count :: int
  spec_Profile :: "LoadProfile option"
  spec_NodeAffinity :: "string list gomap"
  spec_ServiceAccount :: "string option"
  spec_OwnerReference :: "string option"

abbreviation RunnerGroupStatusStateUnknown :: string where
  "RunnerGroupStatusStateUnknown \<equiv> ''unknown''"
abbreviation RunnerGroupStatusStateRunning :: string where
  "RunnerGroupStatusStateRunning \<equiv> ''running''"
abbreviation RunnerGroupStatusStateFinished :: string where
  "RunnerGroupStatusStateFinished \<equiv> ''finished''"

record RunnerGroupStatus =
  rgs_State :: string
  rgs_StartTime :: "int option"
  rgs_Succeeded :: int
  rgs_Failed :: int

record RunnerGroup =
  rg_Name :: string
  rg_Spec :: RunnerGroupSpec
  rg_Status :: RunnerGroupStatus

section \<open>Kubernetes objects\<close>

record OwnerReference =
  or_APIVersion :: string
  or_Kind :: string
  or_Name :: string
  or_UID :: string
  or_Controller :: "bool option"

record ObjectMeta =
  om_Name :: string
  om_Namespace :: string
  om_OwnerReferences :: "OwnerReference list"

record ConfigMap =
  cm_Meta :: ObjectMeta
  cm_Immutable :: "bool option"
  cm_Data :: "string gomap"

datatype EnvVar = EnvValue string string | EnvFieldRef string string

datatype Volume = ConfigMapVolume string string | HostPathVolume string string

record Container =
  c_Name :: string
  c_Image :: string
  c_Env :: "EnvVar list"
  c_VolumeMounts :: "(string \<times> string) list"
  c_Command :: "string list"

datatype NodeSelectorOp = NodeSelectorOpIn
datatype RestartPolicy = RestartPolicyNever
datatype Unsatisfiable = ScheduleAnyway
datatype CompletionMode = IndexedCompletion

record NodeSelectorRequirement =
  ns_Key :: string
  ns_Operator :: NodeSelectorOp
  ns_Values :: "string list"

record TopologySpreadConstraint =
  ts_MaxSkew :: int
  ts_TopologyKey :: string
  ts_WhenUnsatisfiable :: Unsatisfiable
  ts_MatchLabels :: "string gomap"

text \<open>The node affinity of a pod is a list of node selector terms, each a list of
  requirements.\<close>

record PodTemplate =
  pt_Labels :: "string gomap"
  pt_NodeAffinity :: "NodeSelectorRequirement list list option"
  pt_Containers :: "Container list"
  pt_RestartPolicy :: RestartPolicy
  pt_TopologySpreadConstraints :: "TopologySpreadConstraint list"
  pt_Volumes :: "Volume list"
  pt_ServiceAccountName :: string

record Job =
  job_Meta :: ObjectMeta
  job_ResourceVersion :: string
  job_Parallelism :: "int option"
  job_Completions :: "int option"
  job_BackoffLimit :: "int option"
  job_CompletionMode :: "CompletionMode option"
  job_Template :: PodTemplate
  job_StartTime :: "int option"
  job_Succeeded :: int
  job_Failed :: int

section \<open>The handler\<close>

record Handler =
  h_name :: string
  h_namespace :: string
  h_spec :: RunnerGroupSpec
  h_ownerRef :: "OwnerReference option"
  h_imageRef :: string
  h_runnerVerbosity :: int

datatype group_error =
  BadOwnerReference string | NoLoadProfile string | ApiError goerr
| MarshalProfile goerr | EnsureProfile group_error | LabelSelectorError goerr
| ListPodsError goerr

definition buildOwnerReference :: "string option \<Rightarrow> group_error + OwnerReference option" where
  "buildOwnerReference ref =
     (case ref of
        None \<Rightarrow> Inr None
      | Some r \<Rightarrow>
          (case str_splitN 4 CHR '':'' r of
             [t0, t1, t2, t3] \<Rightarrow>
               Inr (Some \<lparr>or_APIVersion = t0, or_Kind = t1, or_Name = t2, or_UID = t3,
                          or_Controller = Some True\<rparr>)
           | _ \<Rightarrow> Inl (BadOwnerReference r)))"

definition NewHandler ::
  "string \<Rightarrow> string \<Rightarrow> RunnerGroupSpec \<Rightarrow> string \<Rightarrow> int \<Rightarrow> group_error + Handler" where
  "NewHandler namespace name spec imageRef runnerVerbosity =
     (case buildOwnerReference (spec_OwnerReference spec) of
        Inl e \<Rightarrow> Inl e
      | Inr ownRef \<Rightarrow> Inr
          \<lparr>h_name = name, h_namespace = namespace, h_spec = spec, h_ownerRef = ownRef,
           h_imageRef = imageRef, h_runnerVerbosity = runnerVerbosity\<rparr>)"

text \<open>The sum of the two 32-bit counters is compared with the dereferenced completions; \<open>None\<close>
  is the nil dereference.\<close>

definition jobFinished :: "Job \<Rightarrow> bool option" where
  "jobFinished job =
     map_option (\<lambda>c. wrap32 (job_Failed job + job_Succeeded job) = c) (job_Completions job)"

definition Info :: "Handler \<Rightarrow> goerr + Job \<Rightarrow> RunnerGroup option" where
  "Info h job_answer =
     (let rg = \<lparr>rg_Name = h_name h, rg_Spec = h_spec h,
               rg_Status = \<lparr>rgs_State = RunnerGroupStatusStateUnknown, rgs_StartTime = None,
                            rgs_Succeeded = 0, rgs_Failed = 0\<rparr>\<rparr>
      in case job_answer of
           Inl err \<Rightarrow> Some rg
         | Inr job \<Rightarrow>
             (case jobFinished job of
                None \<Rightarrow> None
              | Some fin \<Rightarrow>
                  let state = (if fin then RunnerGroupStatusStateFinished
                               else if job_StartTime job = None then RunnerGroupStatusStateUnknown
                               else RunnerGroupStatusStateRunning)
                  in Some (rg\<lparr>rg_Status := \<lparr>rgs_State = state, rgs_StartTime = job_StartTime job,
                                rgs_Succeeded = job_Succeeded job, rgs_Failed = job_Failed job\<rparr>\<rparr>)))"

definition configMapDataKeyLoadProfile :: string where
  "configMapDataKeyLoadProfile = ''load_profile.yaml''"

definition owner_refs :: "Handler \<Rightarrow> OwnerReference list" where
  "owner_refs h = (case h_ownerRef h of None \<Rightarrow> [] | Some r \<Rightarrow> [r])"

definition profile_config_map :: "Handler \<Rightarrow> string \<Rightarrow> ConfigMap" where
  "profile_config_map h raw =
     \<lparr>cm_Meta = \<lparr>om_Name = h_name h, om_Namespace = h_namespace h, om_OwnerReferences = owner_refs h\<rparr>,
      cm_Immutable = Some True, cm_Data = [(configMapDataKeyLoadProfile, raw)]\<rparr>"

text \<open>The error and the object sent with the create call, if it is made. \<open>create_answer\<close> is what
  the API server answers to the create call.\<close>

definition uploadLoadProfileAsConfigMap ::
  "(api_reason \<Rightarrow> goerr \<Rightarrow> bool) \<Rightarrow> (LoadProfile option \<Rightarrow> goerr + string) \<Rightarrow> Handler \<Rightarrow>
   goerr + ConfigMap \<Rightarrow> goerr option \<Rightarrow> group_error option \<times> ConfigMap option" where
  "uploadLoadProfileAsConfigMap api_is marshal h get_answer create_answer =
     (case get_answer of
        Inr cm \<Rightarrow>
          (if map_of (cm_Data cm) configMapDataKeyLoadProfile = None
           then (Some (NoLoadProfile (h_name h)), None) else (None, None))
      | Inl err \<Rightarrow>
          (if \<not> api_is IsNotFound err then (Some (ApiError err), None)
           else case marshal (spec_Profile (h_spec h)) of
             Inl e \<Rightarrow> (Some (MarshalProfile e), None)
           | Inr raw \<Rightarrow>
               (map_option ApiError create_answer, Some (profile_config_map h raw))))"

text \<open>The job that runs the group. \<^verbatim>\<open>Affinity\<close> is always set, its node affinity only when
  the spec has one; the requirements come in the iteration order of the map.\<close>

definition runner_container :: "Handler \<Rightarrow> string \<Rightarrow> Container" where
  "runner_container h uploadURL =
     \<lparr>c_Name = ''runner'', c_Image = h_imageRef h,
      c_Env =
        [EnvFieldRef ''POD_NAME'' ''metadata.name'',
         EnvFieldRef ''POD_NAMESPACE'' ''metadata.namespace'',
         EnvFieldRef ''POD_UID'' ''metadata.uid'',
         EnvValue ''TARGET_URL'' uploadURL,
         EnvValue ''RUNNER_VERBOSITY'' (itoa (h_runnerVerbosity h))],
      c_VolumeMounts = [(''config'', ''/config''), (''host-root-tmp'', ''/data'')],
      c_Command = [''/run_runner.sh'']\<rparr>"

definition match_expressions :: "string list gomap \<Rightarrow> NodeSelectorRequirement list" where
  "match_expressions m =
     map (\<lambda>(key, values). \<lparr>ns_Key = key, ns_Operator = NodeSelectorOpIn, ns_Values = values\<rparr>) m"

definition pod_template :: "Handler \<Rightarrow> string \<Rightarrow> PodTemplate" where
  "pod_template h uploadURL =
     \<lparr>pt_Labels = [(''app-name-job'', h_name h)],
      pt_NodeAffinity =
        (if spec_NodeAffinity (h_spec h) = [] then None
         else Some [match_expressions (spec_NodeAffinity (h_spec h))]),
      pt_Containers = [runner_container h uploadURL],
      pt_RestartPolicy = RestartPolicyNever,
      pt_TopologySpreadConstraints =
        [\<lparr>ts_MaxSkew = 1, ts_TopologyKey = ''kubernetes.io/hostname'',
          ts_WhenUnsatisfiable = ScheduleAnyway, ts_MatchLabels = [(''app-name-job'', h_name h)]\<rparr>],
      pt_Volumes =
        [ConfigMapVolume ''config'' (h_name h), HostPathVolume ''host-root-tmp'' ''/tmp''],
      pt_ServiceAccountName =
        (case spec_ServiceAccount (h_spec h) of None \<Rightarrow> '''' | Some sa \<Rightarrow> sa)\<rparr>"

definition buildBatchJobObject :: "Handler \<Rightarrow> string \<Rightarrow> Job" where
  "buildBatchJobObject h uploadURL =
     \<lparr>job_Meta = \<lparr>om_Name = h_name h, om_Namespace = h_namespace h, om_OwnerReferences = owner_refs h\<rparr>,
      job_ResourceVersion = '''',
      job_Parallelism = Some (spec_Count (h_spec h)),
      job_Completions = Some (spec_Count (h_spec h)),
      job_BackoffLimit = Some 0,
      job_CompletionMode = Some IndexedCompletion,
      job_Template = pod_template h uploadURL,
      job_StartTime = None, job_Succeeded = 0, job_Failed = 0\<rparr>"

definition deployRunners ::
  "(api_reason \<Rightarrow> goerr \<Rightarrow> bool) \<Rightarrow> Handler \<Rightarrow> string \<Rightarrow> goerr + Job \<Rightarrow> goerr option \<Rightarrow>
   group_error option \<times> Job option" where
  "deployRunners api_is h uploadURL get_answer create_answer =
     (case get_answer of
        Inl err \<Rightarrow>
          (if api_is IsNotFound err
           then (map_option ApiError create_answer, Some (buildBatchJobObject h uploadURL))
           else (Some (ApiError err), None))
      | Inr job \<Rightarrow> (None, None))"

text \<open>The answers of the API server to the calls of \<^verbatim>\<open>Deploy\<close>, in case they are made.\<close>

record deploy_answers =
  da_getConfigMap :: "goerr + ConfigMap"
  da_createConfigMap :: "goerr option"
  da_getJob :: "goerr + Job"
  da_createJob :: "goerr option"

definition Deploy ::
  "(api_reason \<Rightarrow> goerr \<Rightarrow> bool) \<Rightarrow> (LoadProfile option \<Rightarrow> goerr + string) \<Rightarrow> Handler \<Rightarrow> string \<Rightarrow>
   deploy_answers \<Rightarrow> group_error option \<times> ConfigMap option \<times> Job option" where
  "Deploy api_is marshal h uploadURL da =
     (case uploadLoadProfileAsConfigMap api_is marshal h
             (da_getConfigMap da) (da_createConfigMap da) of
        (Some err, cm) \<Rightarrow> (Some (EnsureProfile err), cm, None)
      | (None, cm) \<Rightarrow>
          (case deployRunners api_is h uploadURL (da_getJob da) (da_createJob da) of
             (err, job) \<Rightarrow> (err, cm, job)))"

text \<open>Rendering a label selector and listing the pods it selects belong to apimachinery and to
  the API server.\<close>

record Pod =
  pod_Name :: string
  pod_Labels :: "string gomap"

definition job_labels :: "Handler \<Rightarrow> string gomap" where
  "job_labels h = [(''batch.kubernetes.io/job-name'', h_name h), (''job-name'', h_name h)]"

definition Pods ::
  "(string gomap \<Rightarrow> goerr + string) \<Rightarrow> (string \<Rightarrow> string \<Rightarrow> goerr + Pod list) \<Rightarrow> Handler \<Rightarrow>
   group_error + Pod list" where
  "Pods as_selector list_pods h =
     (case as_selector (job_labels h) of
        Inl err \<Rightarrow> Inl (LabelSelectorError err)
      | Inr selector \<Rightarrow>
          (case list_pods (h_namespace h) selector of
             Inl err \<Rightarrow> Inl (ListPodsError err)
           | Inr pods \<Rightarrow> Inr pods))"

definition IsControlled ::
  "(string gomap \<Rightarrow> goerr + string) \<Rightarrow> (string \<Rightarrow> string \<Rightarrow> goerr + Pod list) \<Rightarrow> Handler \<Rightarrow>
   string \<Rightarrow> group_error + bool" where
  "IsControlled as_selector list_pods h podName =
     (if \<not> has_prefix podName (h_name h) then Inr False
      else case Pods as_selector list_pods h of
        Inl err \<Rightarrow> Inl err
      | Inr pods \<Rightarrow> Inr (list_ex (\<lambda>pod. pod_Name pod = podName) pods))"

section \<open>Waiting for the job\<close>

text \<open>An iteration of the \<^verbatim>\<open>select\<close> of \<^verbatim>\<open>waitForJob\<close> takes the context's end, the closed channel
  or an event; \<open>WatchError\<close> carries what \<^verbatim>\<open>apierrors.FromObject\<close> makes of the event's object.
  A list of inputs that is used up leaves the call waiting.\<close>

datatype watch_object = JobObject Job | OtherObject

datatype event_type = Added | Modified | Deleted | Bookmark

datatype wait_input = CtxDone goerr | WatchClosed | WatchError goerr | Event event_type watch_object

definition errRetryable :: goerr where
  "errRetryable = \<lparr>err_text = ''retry'', err_chain = [plain_link]\<rparr>"

datatype watch_error = WaitError goerr | ErrClosedChannel

fun waitForJob :: "string \<Rightarrow> wait_input list \<Rightarrow> (watch_error option \<times> string) outcome" where
  "waitForJob rv [] = Pending"
| "waitForJob rv (CtxDone e # ins) = Return (Some (WaitError e), rv)"
| "waitForJob rv (WatchClosed # ins) = Return (Some ErrClosedChannel, rv)"
| "waitForJob rv (WatchError e # ins) = Return (Some (WaitError e), rv)"
| "waitForJob rv (Event t OtherObject # ins) = waitForJob rv ins"
| "waitForJob rv (Event t (JobObject job) # ins) =
     (if t = Modified then
        (case jobFinished job of
           None \<Rightarrow> Panic
         | Some True \<Rightarrow> Return (None, rv)
         | Some False \<Rightarrow> waitForJob (job_ResourceVersion job) ins)
      else waitForJob (job_ResourceVersion job) ins)"

text \<open>\<^verbatim>\<open>ErrClosedChannel\<close> is the only error of \<^verbatim>\<open>waitForJob\<close> that wraps \<^verbatim>\<open>errRetryable\<close>.\<close>

fun watch_goerr :: "watch_error \<Rightarrow> goerr" where
  "watch_goerr (WaitError e) = e"
| "watch_goerr ErrClosedChannel = wrap_err ''unexpected closed watch channel'' errRetryable"

text \<open>A round of the loop of \<^verbatim>\<open>Wait\<close>: the context has ended, the watch call fails, or a watch is
  opened and delivers inputs. The result comes with the watches opened, by the resource
  version they start from, and the pauses of the backoff.\<close>

datatype wait_round = RoundDone goerr | WatchFails goerr | Watching "wait_input list"

datatype wait_act = WatchFrom string | Backoff

datatype wait_error = CtxErr goerr | GetJob goerr | InitWatch goerr | WatchEnded watch_error

fun wait_loop ::
  "(api_reason \<Rightarrow> goerr \<Rightarrow> bool) \<Rightarrow> (goerr \<Rightarrow> bool) \<Rightarrow> string \<Rightarrow> wait_round list \<Rightarrow>
   wait_error option outcome \<times> wait_act list" where
  "wait_loop api_is conn_refused lastRv [] = (Pending, [])"
| "wait_loop api_is conn_refused lastRv (RoundDone e # rs) = (Return (Some (CtxErr e)), [])"
| "wait_loop api_is conn_refused lastRv (WatchFails e # rs) =
     (if conn_refused e \<or> api_is IsTooManyRequests e \<or> api_is IsInternalError e
      then apsnd (\<lambda>acts. WatchFrom lastRv # Backoff # acts) (wait_loop api_is conn_refused lastRv rs)
      else (Return (Some (InitWatch e)), [WatchFrom lastRv]))"
| "wait_loop api_is conn_refused lastRv (Watching ins # rs) =
     (case waitForJob lastRv ins of
        Panic \<Rightarrow> (Panic, [WatchFrom lastRv])
      | Pending \<Rightarrow> (Pending, [WatchFrom lastRv])
      | Return (None, rv) \<Rightarrow> (Return None, [WatchFrom lastRv])
      | Return (Some w, rv) \<Rightarrow>
          (let e = watch_goerr w
           in if api_is IsResourceExpired e \<or> api_is IsGone e
              then apsnd (\<lambda>acts. WatchFrom lastRv # acts) (wait_loop api_is conn_refused '''' rs)
              else if api_is IsTooManyRequests e \<or> api_is IsInternalError e
              then apsnd (\<lambda>acts. WatchFrom lastRv # Backoff # acts)
                     (wait_loop api_is conn_refused rv rs)
              else if w = ErrClosedChannel
              then apsnd (\<lambda>acts. WatchFrom lastRv # Backoff # acts)
                     (wait_loop api_is conn_refused rv rs)
              else (Return (Some (WatchEnded w)), [WatchFrom lastRv])))"

definition Wait ::
  "(api_reason \<Rightarrow> goerr \<Rightarrow> bool) \<Rightarrow> (goerr \<Rightarrow> bool) \<Rightarrow> goerr + Job \<Rightarrow> wait_round list \<Rightarrow>
   wait_error option outcome \<times> wait_act list" where
  "Wait api_is conn_refused job_answer rounds =
     (case job_answer of
        Inl err \<Rightarrow> (Return (Some (GetJob err)), [])
      | Inr job \<Rightarrow>
          (case jobFinished job of
             None \<Rightarrow> (Panic, [])
           | Some True \<Rightarrow> (Return None, [])
           | Some False \<Rightarrow> wait_loop api_is conn_refused (job_ResourceVersion job) rounds))"

section \<open>Parsing group specs\<close>

text \<open>A parsed URL has the components the code reads; \<^verbatim>\<open>Query().Get\<close> is a lookup that gives the
  empty string for a missing key. URL parsing, the file system, the API server and the YAML
  decoder are parameters.\<close>

record parsed_url =
  u_Scheme :: string
  u_Host :: string
  u_Path :: string
  u_Query :: "string gomap"

datatype parse_error =
  InvalidURI string goerr | ReadSpec string goerr | LoadConfigMap string string goerr
| NoSuchData string string string | BadYAML string goerr | UnsupportedScheme string

definition parseRunnerGroupSpecFromBinary ::
  "(string \<Rightarrow> goerr + RunnerGroupSpec) \<Rightarrow> string \<Rightarrow> parse_error + RunnerGroupSpec" where
  "parseRunnerGroupSpecFromBinary unmarshal data =
     (case unmarshal data of Inl err \<Rightarrow> Inl (BadYAML data err) | Inr spec \<Rightarrow> Inr spec)"

definition parseRunnerGroupSpecFromFile ::
  "(string \<Rightarrow> goerr + RunnerGroupSpec) \<Rightarrow> (string \<Rightarrow> goerr + string) \<Rightarrow> string \<Rightarrow>
   parse_error + RunnerGroupSpec" where
  "parseRunnerGroupSpecFromFile unmarshal read_file specPath =
     (case read_file specPath of
        Inl err \<Rightarrow> Inl (ReadSpec specPath err)
      | Inr specInRaw \<Rightarrow> parseRunnerGroupSpecFromBinary unmarshal specInRaw)"

definition parseRunnerGroupSpecFromConfigMap ::
  "(string \<Rightarrow> goerr + RunnerGroupSpec) \<Rightarrow> (string \<Rightarrow> string \<Rightarrow> goerr + ConfigMap) \<Rightarrow>
   string \<Rightarrow> string \<Rightarrow> string \<Rightarrow> parse_error + RunnerGroupSpec" where
  "parseRunnerGroupSpecFromConfigMap unmarshal get_cm namespace name specName =
     (case get_cm namespace name of
        Inl err \<Rightarrow> Inl (LoadConfigMap name namespace err)
      | Inr cm \<Rightarrow>
          (case map_of (cm_Data cm) specName of
             None \<Rightarrow> Inl (NoSuchData specName name namespace)
           | Some specInStr \<Rightarrow> parseRunnerGroupSpecFromBinary unmarshal specInStr))"

definition query_or :: "parsed_url \<Rightarrow> string \<Rightarrow> string \<Rightarrow> string" where
  "query_or u key dflt =
     (let v = gomap_get '''' (u_Query u) key in if 0 < length v then v else dflt)"

definition NewRunnerGroupSpecFromURI ::
  "(string \<Rightarrow> goerr + parsed_url) \<Rightarrow> (string \<Rightarrow> goerr + RunnerGroupSpec) \<Rightarrow>
   (string \<Rightarrow> goerr + string) \<Rightarrow> (string \<Rightarrow> string \<Rightarrow> goerr + ConfigMap) \<Rightarrow> string \<Rightarrow>
   parse_error + RunnerGroupSpec" where
  "NewRunnerGroupSpecFromURI parse_url unmarshal read_file get_cm specURI =
     (case parse_url specURI of
        Inl err \<Rightarrow> Inl (InvalidURI specURI err)
      | Inr u \<Rightarrow>
          (if u_Scheme u = ''file'' then
             parseRunnerGroupSpecFromFile unmarshal read_file (u_Path u)
           else if u_Scheme u = ''configmap'' then
             parseRunnerGroupSpecFromConfigMap unmarshal get_cm
               (query_or u ''namespace'' ''default'') (u_Host u) (query_or u ''specName'' ''spec'')
           else Inl (UnsupportedScheme (u_Scheme u))))"

section \<open>Owner references\<close>

lemma str_splitN_Suc_Suc:
  "str_splitN (Suc (Suc n)) c s = x # y # ys \<longleftrightarrow>
   (\<exists>r. s = x @ c # r \<and> c \<notin> set x \<and> str_splitN (Suc n) c r = y # ys)"
proof (cases "str_cut c s")
  case None
  moreover from None have "c \<notin> set s" by (simp add: str_cut_None)
  ultimately show ?thesis by auto
next
  case (Some lr)
  obtain l r where lr: "lr = (l, r)" by (cases lr)
  have "s = x @ c # r' \<and> c \<notin> set x \<longleftrightarrow> x = l \<and> r' = r" for r'
    using Some str_cut_Some [of c s x r'] by (auto simp: lr)
  with Some show ?thesis by (auto simp: lr)
qed

lemma str_splitN_4:
  "str_splitN 4 c s = [a, b, d, e] \<longleftrightarrow>
   s = a @ c # b @ c # d @ c # e \<and> c \<notin> set a \<and> c \<notin> set b \<and> c \<notin> set d"
  by (auto simp: numeral_eq_Suc str_splitN_Suc_Suc simp del: str_splitN.simps(3))

lemma length_str_splitN:
  "0 < n \<Longrightarrow> length (str_splitN n c s) = min n (Suc (count_list s c))"
proof (induction n c s rule: str_splitN.induct)
  case (3 n c s)
  show ?case
  proof (cases "str_cut c s")
    case None
    moreover from None have "count_list s c = 0" by (simp add: str_cut_None count_list_0_iff)
    ultimately show ?thesis by simp
  next
    case (Some lr)
    moreover obtain l r where lr: "lr = (l, r)" by (cases lr)
    moreover from Some lr have "count_list s c = Suc (count_list r c)"
      by (simp add: str_cut_Some count_list_0_iff)
    ultimately show ?thesis using 3 by simp
  qed
qed auto

definition owner_text :: "OwnerReference \<Rightarrow> string" where
  "owner_text r = or_APIVersion r @ '':'' @ or_Kind r @ '':'' @ or_Name r @ '':'' @ or_UID r"

definition owner_ok :: "OwnerReference \<Rightarrow> bool" where
  "owner_ok r \<longleftrightarrow> CHR '':'' \<notin> set (or_APIVersion r) \<and> CHR '':'' \<notin> set (or_Kind r) \<and>
     CHR '':'' \<notin> set (or_Name r) \<and> or_Controller r = Some True"

lemma buildOwnerReference_Some:
  "buildOwnerReference (Some s) = Inr (Some r) \<longleftrightarrow> s = owner_text r \<and> owner_ok r"
proof -
  have "buildOwnerReference (Some s) = Inr (Some r) \<longleftrightarrow>
    str_splitN 4 CHR '':'' s = [or_APIVersion r, or_Kind r, or_Name r, or_UID r] \<and>
    or_Controller r = Some True"
    by (cases r) (auto simp: buildOwnerReference_def split: list.splits)
  then show ?thesis by (auto simp: str_splitN_4 owner_text_def owner_ok_def)
qed

lemma buildOwnerReference_error:
  "buildOwnerReference (Some s) = Inl (BadOwnerReference s) \<longleftrightarrow> count_list s CHR '':'' < 3"
proof -
  have "buildOwnerReference (Some s) = Inl (BadOwnerReference s) \<longleftrightarrow>
    length (str_splitN 4 CHR '':'' s) \<noteq> 4"
    by (auto simp: buildOwnerReference_def length_Suc_conv numeral_eq_Suc
        simp del: str_splitN.simps split: list.splits)
  also have "\<dots> \<longleftrightarrow> count_list s CHR '':'' < 3"
    by (auto simp: length_str_splitN min_def)
  finally show ?thesis .
qed

section \<open>Waiting\<close>

fun quiet :: "wait_input \<Rightarrow> bool" where
  "quiet (Event t (JobObject job)) \<longleftrightarrow> t \<noteq> Modified \<or> jobFinished job = Some False"
| "quiet (Event t OtherObject) \<longleftrightarrow> True"
| "quiet i \<longleftrightarrow> False"

fun finishes :: "wait_input \<Rightarrow> bool" where
  "finishes (Event Modified (JobObject job)) \<longleftrightarrow> jobFinished job = Some True"
| "finishes i \<longleftrightarrow> False"

text \<open>The version of the last job among the events.\<close>

fun last_version :: "string \<Rightarrow> wait_input list \<Rightarrow> string" where
  "last_version rv [] = rv"
| "last_version rv (Event t (JobObject job) # ins) = last_version (job_ResourceVersion job) ins"
| "last_version rv (i # ins) = last_version rv ins"

lemma waitForJob_quiet:
  "list_all quiet q \<Longrightarrow> waitForJob rv (q @ ins) = waitForJob (last_version rv q) ins"
proof (induction q arbitrary: rv)
  case (Cons i q)
  then show ?case by (cases i rule: quiet.cases) auto
qed simp

lemma waitForJob_loud:
  "\<not> quiet i \<Longrightarrow> waitForJob rv (i # ins) =
   (case i of CtxDone e \<Rightarrow> Return (Some (WaitError e), rv)
    | WatchClosed \<Rightarrow> Return (Some ErrClosedChannel, rv)
    | WatchError e \<Rightarrow> Return (Some (WaitError e), rv)
    | Event t obj \<Rightarrow> (if finishes i then Return (None, rv) else Panic))"
proof (cases i)
  case (Event t obj)
  assume "\<not> quiet i"
  with Event show ?thesis by (cases obj; cases t) (auto split: option.splits bool.splits)
qed simp_all

text \<open>A round after which the loop goes on.\<close>

definition watch_retries :: "(api_reason \<Rightarrow> goerr \<Rightarrow> bool) \<Rightarrow> watch_error \<Rightarrow> bool" where
  "watch_retries api_is w \<longleftrightarrow>
     list_ex (\<lambda>r. api_is r (watch_goerr w))
       [IsResourceExpired, IsGone, IsTooManyRequests, IsInternalError] \<or> w = ErrClosedChannel"

fun round_retries ::
  "(api_reason \<Rightarrow> goerr \<Rightarrow> bool) \<Rightarrow> (goerr \<Rightarrow> bool) \<Rightarrow> wait_round \<Rightarrow> bool" where
  "round_retries api_is conn_refused (RoundDone e) \<longleftrightarrow> False"
| "round_retries api_is conn_refused (WatchFails e) \<longleftrightarrow>
     conn_refused e \<or> api_is IsTooManyRequests e \<or> api_is IsInternalError e"
| "round_retries api_is conn_refused (Watching ins) \<longleftrightarrow>
     (case dropWhile quiet ins of
        CtxDone e # r \<Rightarrow> watch_retries api_is (WaitError e)
      | WatchError e # r \<Rightarrow> watch_retries api_is (WaitError e)
      | WatchClosed # r \<Rightarrow> True
      | _ \<Rightarrow> False)"

text \<open>A round in which a finished job is reported by a modification before anything ends the
  watch.\<close>

definition sees_finish :: "wait_input list \<Rightarrow> bool" where
  "sees_finish ins \<longleftrightarrow> (case dropWhile quiet ins of i # r \<Rightarrow> finishes i | [] \<Rightarrow> False)"

lemma waitForJob_dropWhile:
  "waitForJob rv ins = waitForJob (last_version rv (takeWhile quiet ins)) (dropWhile quiet ins)"
  using waitForJob_quiet [of "takeWhile quiet ins" rv "dropWhile quiet ins"]
  by (simp add: list_all_iff) (metis set_takeWhileD)

lemma waitForJob_cases:
  obtains (Done) rv' where "waitForJob rv ins = Return (None, rv')" "sees_finish ins"
      "\<And>api_is conn_refused. \<not> round_retries api_is conn_refused (Watching ins)"
  | (Error) w where
      "waitForJob rv ins = Return (Some w, last_version rv (takeWhile quiet ins))"
      "\<not> sees_finish ins"
      "\<And>api_is conn_refused. round_retries api_is conn_refused (Watching ins) = watch_retries api_is w"
  | (Stuck) "waitForJob rv ins \<in> {Panic, Pending}" "\<not> sees_finish ins"
      "\<And>api_is conn_refused. \<not> round_retries api_is conn_refused (Watching ins)"
proof (cases "dropWhile quiet ins")
  case Nil
  then show ?thesis
    by (intro Stuck)
       (simp_all add: waitForJob_dropWhile [of rv ins] sees_finish_def del: dropWhile_eq_Nil_conv)
next
  case (Cons i r)
  then have "\<not> quiet i" by (metis hd_dropWhile list.discI list.sel(1))
  then have run: "waitForJob rv ins = (case i of
      CtxDone e \<Rightarrow> Return (Some (WaitError e), last_version rv (takeWhile quiet ins))
    | WatchClosed \<Rightarrow> Return (Some ErrClosedChannel, last_version rv (takeWhile quiet ins))
    | WatchError e \<Rightarrow> Return (Some (WaitError e), last_version rv (takeWhile quiet ins))
    | Event t obj \<Rightarrow>
        (if finishes i then Return (None, last_version rv (takeWhile quiet ins)) else Panic))"
    by (simp add: waitForJob_dropWhile [of rv ins] Cons waitForJob_loud)
  show ?thesis
  proof (cases i)
    case (Event t obj)
    with run Cons show ?thesis
      by (cases "finishes i") (auto simp: sees_finish_def intro: Done Stuck)
  qed (use run Cons in \<open>auto simp: sees_finish_def watch_retries_def intro!: Error\<close>)
qed

text \<open>All rounds before the one that reports the end are retried.\<close>

fun finish_reached ::
  "(api_reason \<Rightarrow> goerr \<Rightarrow> bool) \<Rightarrow> (goerr \<Rightarrow> bool) \<Rightarrow> wait_round list \<Rightarrow> bool" where
  "finish_reached api_is conn_refused [] \<longleftrightarrow> False"
| "finish_reached api_is conn_refused (r # rs) \<longleftrightarrow>
     (case r of Watching ins \<Rightarrow> sees_finish ins | _ \<Rightarrow> False) \<or>
     round_retries api_is conn_refused r \<and> finish_reached api_is conn_refused rs"

lemma wait_loop_None:
  "fst (wait_loop api_is conn_refused rv rounds) = Return None \<longleftrightarrow>
   finish_reached api_is conn_refused rounds"
proof (induction rounds arbitrary: rv)
  case (Cons r rs)
  show ?case
  proof (cases r)
    case (Watching ins)
    show ?thesis
    proof (cases rule: waitForJob_cases [of rv ins])
      case (Error w)
      then show ?thesis
        by (simp add: Watching Cons.IH watch_retries_def Let_def del: round_retries.simps)
    qed (auto simp: Watching simp del: round_retries.simps)
  qed (simp_all add: Cons.IH)
qed simp


lemma wait_loop_retry:
  "list_all (round_retries api_is conn_refused) pre \<Longrightarrow>
   \<exists>rv'. fst (wait_loop api_is conn_refused rv (pre @ rs)) = fst (wait_loop api_is conn_refused rv' rs)"
proof (induction pre arbitrary: rv)
  case (Cons r pre)
  then have IH: "\<exists>rv'. fst (wait_loop api_is conn_refused rv (pre @ rs)) =
      fst (wait_loop api_is conn_refused rv' rs)" for rv
    by simp
  show ?case
  proof (cases r)
    case (Watching ins)
    with Cons.prems have retries: "round_retries api_is conn_refused (Watching ins)" by simp
    show ?thesis
    proof (cases rule: waitForJob_cases [of rv ins])
      case (Error w)
      with retries show ?thesis
        by (auto simp: Watching IH watch_retries_def Let_def simp del: round_retries.simps)
    qed (use retries in simp_all)
  qed (use Cons.prems IH in simp_all)
qed auto

section \<open>Well-formed jobs\<close>

fun volume_name :: "Volume \<Rightarrow> string" where
  "volume_name (ConfigMapVolume n c) = n"
| "volume_name (HostPathVolume n p) = n"

fun env_name :: "EnvVar \<Rightarrow> string" where
  "env_name (EnvValue n v) = n"
| "env_name (EnvFieldRef n p) = n"

definition container_wf :: "Volume list \<Rightarrow> Container \<Rightarrow> bool" where
  "container_wf vols c \<longleftrightarrow>
     distinct (map env_name (c_Env c)) \<and>
     distinct (map snd (c_VolumeMounts c)) \<and>
     list_all (\<lambda>(n, p). n \<in> set (map volume_name vols)) (c_VolumeMounts c)"

definition job_wf :: "Job \<Rightarrow> bool" where
  "job_wf j \<longleftrightarrow>
     (let t = job_Template j
      in distinct (map volume_name (pt_Volumes t)) \<and>
         distinct (map c_Name (pt_Containers t)) \<and>
         list_all (container_wf (pt_Volumes t)) (pt_Containers t) \<and>
         list_all (\<lambda>s. set (ts_MatchLabels s) \<subseteq> set (pt_Labels t))
           (pt_TopologySpreadConstraints t) \<and>
         job_Parallelism j = job_Completions j \<and> job_Completions j \<noteq> None)"

lemma job_wf_buildBatchJobObject: "job_wf (buildBatchJobObject h url)"
  by (simp add: job_wf_def buildBatchJobObject_def pod_template_def runner_container_def
      container_wf_def Let_def)

definition has_profile :: "ConfigMap \<Rightarrow> bool" where
  "has_profile cm \<longleftrightarrow> map_of (cm_Data cm) configMapDataKeyLoadProfile \<noteq> None"

definition sample_handler :: Handler where
  "sample_handler =
     \<lparr>h_name = ''g'', h_namespace = ''ns'',
      h_spec = \<lparr>spec_Count = 2, spec_Profile = None, spec_NodeAffinity = [(''k'', [''v''])],
                spec_ServiceAccount = Some ''sa'', spec_OwnerReference = None\<rparr>,
      h_ownerRef = None, h_imageRef = ''img'', h_runnerVerbosity = 2\<rparr>"

definition sample_err :: "string \<Rightarrow> goerr" where
  "sample_err s = \<lparr>err_text = s, err_chain = [plain_link]\<rparr>"

definition sample_api_is :: "api_reason \<Rightarrow> goerr \<Rightarrow> bool" where
  "sample_api_is r e \<longleftrightarrow> r = IsNotFound \<and> err_text e = ''not found'' \<or>
     r = IsResourceExpired \<and> err_text e = ''expired''"

definition sample_answers :: deploy_answers where
  "sample_answers =
     \<lparr>da_getConfigMap = Inl (sample_err ''not found''), da_createConfigMap = None,
      da_getJob = Inl (sample_err ''not found''), da_createJob = None\<rparr>"

definition job_at :: "string \<Rightarrow> int \<Rightarrow> Job" where
  "job_at rv n =
     (buildBatchJobObject sample_handler ''u'')\<lparr>job_ResourceVersion := rv, job_Succeeded := n\<rparr>"

lemma jobFinished_job_at: "jobFinished (job_at rv n) = Some (wrap32 n = 2)"
  by (simp add: jobFinished_def job_at_def buildBatchJobObject_def sample_handler_def)

lemma wrap32_01: "wrap32 0 = 0" "wrap32 1 = 1" "wrap32 2 = 2"
  by (simp_all add: wrap32_def)

section \<open>Properties\<close>

text \<open>C38: \<^verbatim>\<open>Wait\<close> reports success exactly when the job has already finished at the initial read,
  or when a modification event shows a finished job in a watch that is reached after rounds
  that all ended in a retryable way. In every other case it reports an error, panics on a
  job without completions, or keeps waiting.\<close>

theorem wait_returns_iff:
  "fst (Wait api_is conn_refused answer rounds) = Return None \<longleftrightarrow>
   (\<exists>job. answer = Inr job \<and>
      (jobFinished job = Some True \<or>
       jobFinished job = Some False \<and> finish_reached api_is conn_refused rounds))"
  by (cases answer) (auto simp: Wait_def wait_loop_None split: option.splits bool.splits)

text \<open>C39: A finished job that a watch reports by an event other than a modification is missed.
  After an expired resource version \<^verbatim>\<open>Wait\<close> opens a watch without version, which starts
  with the present state of the job as an added event; if the job has finished in the
  meantime, \<^verbatim>\<open>Wait\<close> keeps waiting however often the finished job is reported.\<close>

theorem finished_added_missed:
  assumes "jobFinished job = Some False"
    and "list_all (round_retries api_is conn_refused) pre"
    and "list_all (\<lambda>i. \<exists>t obj. i = Event t obj \<and> t \<noteq> Modified) ins"
  shows "fst (Wait api_is conn_refused (Inr job) (pre @ [Watching ins])) = Pending"
proof -
  from assms(3) have "list_all quiet ins"
    by (auto simp: list_all_iff) (metis quiet.simps(1,2) watch_object.exhaust)
  then have "waitForJob rv ins = Pending" for rv
    using waitForJob_quiet [of ins rv "[]"] by simp
  then show ?thesis
    using wait_loop_retry [OF assms(2), of "job_ResourceVersion job" "[Watching ins]"] assms(1)
    by (auto simp: Wait_def)
qed

theorem finished_added_missed_witness:
  "jobFinished (job_at ''1'' 0) = Some False \<and> jobFinished (job_at ''9'' 2) = Some True \<and>
   fst (Wait sample_api_is (\<lambda>e. False) (Inr (job_at ''1'' 0))
     ([Watching [WatchError (sample_err ''expired'')]] @
      [Watching [Event Added (JobObject (job_at ''9'' 2))]])) = Pending"
proof -
  have "round_retries sample_api_is (\<lambda>e. False) (Watching [WatchError (sample_err ''expired'')])"
    by (simp add: watch_retries_def sample_api_is_def sample_err_def)
  then show ?thesis
    using finished_added_missed [of "job_at ''1'' 0" sample_api_is "\<lambda>e. False"
        "[Watching [WatchError (sample_err ''expired'')]]"
        "[Event Added (JobObject (job_at ''9'' 2))]"]
    by (simp add: jobFinished_job_at wrap32_01 del: round_retries.simps)
qed




text \<open>Parsing an owner reference inverts its printed form \<^verbatim>\<open>apiVersion:kind:name:uid\<close>. A text
  is accepted as the reference \<^verbatim>\<open>r\<close> exactly when it is the printed form of \<^verbatim>\<open>r\<close>, \<^verbatim>\<open>r\<close> is
  marked as controller and none of its first three parts has a colon (the uid may have some),
  and it is refused exactly when it has fewer than three colons.\<close>

theorem owner_reference_roundtrip:
  "(buildOwnerReference (Some s) = Inr (Some r) \<longleftrightarrow> s = owner_text r \<and> owner_ok r) \<and>
   (buildOwnerReference (Some s) = Inl (BadOwnerReference s) \<longleftrightarrow> count_list s CHR '':'' < 3)"
  by (simp add: buildOwnerReference_Some buildOwnerReference_error)

text \<open>When the names of the group's pods start with the name of its job, as the job
  controller names them, the shortcut of \<^verbatim>\<open>IsControlled\<close> is sound: without errors it answers
  whether the pod is among the pods of the group.\<close>

theorem is_controlled_exact:
  assumes "Pods as_selector list_pods h = Inr pods"
    and "\<forall>pod \<in> set pods. has_prefix (pod_Name pod) (h_name h)"
  shows "IsControlled as_selector list_pods h podName = Inr (podName \<in> pod_Name ` set pods)"
  using assms by (auto simp: IsControlled_def list_ex_iff)

theorem is_controlled_exact_witness:
  "IsControlled (\<lambda>m. Inr ''sel'') (\<lambda>ns sel. Inr [\<lparr>pod_Name = ''g-0'', pod_Labels = []\<rparr>])
     sample_handler ''g-0'' = Inr True"
  using is_controlled_exact [of "\<lambda>m. Inr ''sel''"
      "\<lambda>ns sel. Inr [\<lparr>pod_Name = ''g-0'', pod_Labels = []\<rparr>]" sample_handler
      "[\<lparr>pod_Name = ''g-0'', pod_Labels = []\<rparr>]" "''g-0''"]
  by (simp add: Pods_def has_prefix_def sample_handler_def)

text \<open>\<^verbatim>\<open>Info\<close> and \<^verbatim>\<open>Wait\<close> agree: for the same answer of the API server \<^verbatim>\<open>Info\<close> reports the
  group as finished exactly when \<^verbatim>\<open>Wait\<close> returns at once, without opening a watch, and it
  panics exactly when \<^verbatim>\<open>Wait\<close> does so at once.\<close>

theorem info_wait_agree:
  "(map_option (rgs_State \<circ> rg_Status) (Info h answer) = Some RunnerGroupStatusStateFinished \<longleftrightarrow>
    Wait api_is conn_refused answer [] = (Return None, [])) \<and>
   (Info h answer = None \<longleftrightarrow> Wait api_is conn_refused answer [] = (Panic, []))"
  by (cases answer) (auto simp: Info_def Wait_def Let_def split: option.splits bool.splits)

text \<open>A spec URI yields a spec exactly when its scheme is \<^verbatim>\<open>file\<close> and the YAML at its path
  decodes to it, or its scheme is \<^verbatim>\<open>configmap\<close> and the data entry \<^verbatim>\<open>specName\<close> (or \<^verbatim>\<open>spec\<close>) of
  the config map named by the host in \<^verbatim>\<open>namespace\<close> (or \<^verbatim>\<open>default\<close>) does.\<close>

theorem spec_from_uri:
  "NewRunnerGroupSpecFromURI parse_url unmarshal read_file get_cm uri = Inr spec \<longleftrightarrow>
   (\<exists>u. parse_url uri = Inr u \<and>
      (u_Scheme u = ''file'' \<and> (\<exists>raw. read_file (u_Path u) = Inr raw \<and> unmarshal raw = Inr spec) \<or>
       u_Scheme u = ''configmap'' \<and>
       (\<exists>cm raw. get_cm (query_or u ''namespace'' ''default'') (u_Host u) = Inr cm \<and>
          map_of (cm_Data cm) (query_or u ''specName'' ''spec'') = Some raw \<and>
          unmarshal raw = Inr spec)))"
  by (auto simp: NewRunnerGroupSpecFromURI_def parseRunnerGroupSpecFromFile_def
      parseRunnerGroupSpecFromConfigMap_def parseRunnerGroupSpecFromBinary_def
      split: sum.splits option.splits)

end
