(* ===== verification/Go_Time.thy ===== *)
theory Go_Time
  imports Float64 Prelude
begin

text \<open>
  The durations of Go's package \<^verbatim>\<open>time\<close> as kperf uses them in reports and command line
  flags: a duration is a number of nanoseconds in 64 bits, \<^verbatim>\<open>Duration.String\<close> prints it and
  \<^verbatim>\<open>time.ParseDuration\<close> reads it. The theory ends with the round trip between the two, on
  which the summaries of runner reports rely.
\<close>

section \<open>Printing\<close>

text \<open>\<^verbatim>\<open>fmtFrac\<close> prints the last digits of its argument to the front of the buffer, without
  trailing zeros, and returns the rest of the number.\<close>

fun frac_loop :: "nat \<Rightarrow> bool \<Rightarrow> nat \<Rightarrow> string \<Rightarrow> bool \<times> string \<times> nat" where
  "frac_loop 0 shown v buf = (shown, buf, v)"
| "frac_loop (Suc i) shown v buf =
     (let digit = v mod 10; shown' = (shown \<or> digit \<noteq> 0)
      in frac_loop i shown' (v div 10) (if shown' then digit_char digit # buf else buf))"

definition fmtFrac :: "nat \<Rightarrow> nat \<Rightarrow> string \<Rightarrow> string \<times> nat" where
  "fmtFrac prec v buf =
     (case frac_loop prec False v buf of
        (shown, buf', v') \<Rightarrow> (if shown then CHR ''.'' # buf' else buf', v'))"

definition micro :: string where
  "micro = [CHR 0xC2, CHR 0xB5]"

definition duration_abs :: "nat \<Rightarrow> string" where
  "duration_abs u =
     (if u < 1000000000 then
        (if u = 0 then ''0s''
         else let (prec, suffix) =
                (if u < 1000 then (0, ''ns'') else if u < 1000000 then (3, micro @ ''s'')
                 else (6, ''ms''));
                (buf, v) = fmtFrac prec u suffix
              in nat_digits v @ buf)
      else let (buf, s) = fmtFrac 9 u ''s'';
             buf = nat_digits (s mod 60) @ buf;
             m = s div 60
           in if m = 0 then buf
              else let buf = nat_digits (m mod 60) @ ''m'' @ buf; h = m div 60
                   in if h = 0 then buf else nat_digits h @ ''h'' @ buf)"

definition duration_String :: "int \<Rightarrow> string" where
  "duration_String d =
     (if d < 0 then CHR ''-'' # duration_abs (nat (- d)) else duration_abs (nat d))"

section \<open>Parsing\<close>

datatype duration_error =
  InvalidDuration string | MissingUnit string | UnknownUnit string string

fun leadingInt :: "nat \<Rightarrow> string \<Rightarrow> (nat \<times> string) option" where
  "leadingInt x [] = Some (x, [])"
| "leadingInt x (c # cs) =
     (if \<not> is_digit c then Some (x, c # cs)
      else if 2 ^ 63 div 10 < x then None
      else let y = x * 10 + digit_val c
           in if 2 ^ 63 < y then None else leadingInt y cs)"

text \<open>After an overflow the remaining digits are skipped.\<close>

fun leadingFraction :: "bool \<Rightarrow> nat \<Rightarrow> rat \<Rightarrow> string \<Rightarrow> nat \<times> rat \<times> string" where
  "leadingFraction overflow x scale [] = (x, scale, [])"
| "leadingFraction overflow x scale (c # cs) =
     (if \<not> is_digit c then (x, scale, c # cs)
      else if overflow \<or> (2 ^ 63 - 1) div 10 < x then leadingFraction True x scale cs
      else let y = x * 10 + digit_val c
           in if 2 ^ 63 < y then leadingFraction True x scale cs
              else leadingFraction False y (fl (scale * 10)) cs)"

definition unitMap :: "nat gomap" where
  "unitMap =
     [(''ns'', 1), (''us'', 1000), (micro @ ''s'', 1000), ([CHR 0xCE, CHR 0xBC] @ ''s'', 1000),
      (''ms'', 1000000), (''s'', 1000000000), (''m'', 60000000000), (''h'', 3600000000000)]"

definition unit_char :: "char \<Rightarrow> bool" where
  "unit_char c \<longleftrightarrow> c \<noteq> CHR ''.'' \<and> \<not> is_digit c"

text \<open>The value of one segment, \<^verbatim>\<open>v * unit + f * (unit / scale)\<close> with the fraction computed in
  floating point and truncated.\<close>

definition segment_value :: "nat \<Rightarrow> nat \<Rightarrow> rat \<Rightarrow> nat \<Rightarrow> nat option" where
  "segment_value v f scale unit =
     (if 2 ^ 63 div unit < v then None
      else let w = v * unit
           in if f = 0 then Some w
              else let w' = (w + nat \<lfloor>fl (fl (of_nat f) * fl (fl (of_nat unit) / scale))\<rfloor>) mod 2 ^ 64
                   in if 2 ^ 63 < w' then None else Some w')"

text \<open>The optional fraction, the rest of the input and whether the fraction has digits.\<close>

definition optional_fraction :: "string \<Rightarrow> nat \<times> rat \<times> string \<times> bool" where
  "optional_fraction s1 =
     (case s1 of
        [] \<Rightarrow> (0, 1, s1, False)
      | c # s \<Rightarrow>
          (if c = CHR ''.'' then
             (case leadingFraction False 0 1 s of
                (f, scale, r) \<Rightarrow> (f, scale, r, length s \<noteq> length r))
           else (0, 1, s1, False)))"

definition parse_segment :: "string \<Rightarrow> string \<Rightarrow> duration_error + nat \<times> string" where
  "parse_segment orig s =
     (case s of
        [] \<Rightarrow> Inl (InvalidDuration orig)
      | c # _ \<Rightarrow>
     (if \<not> (c = CHR ''.'' \<or> is_digit c) then Inl (InvalidDuration orig)
      else case leadingInt 0 s of
        None \<Rightarrow> Inl (InvalidDuration orig)
      | Some (v, s1) \<Rightarrow>
          (case optional_fraction s1 of (f, scale, s2, post) \<Rightarrow>
             if length s = length s1 \<and> \<not> post then Inl (InvalidDuration orig)
              else let u = takeWhile unit_char s2; rest = dropWhile unit_char s2
                   in if u = [] then Inl (MissingUnit orig)
                      else case map_of unitMap u of
                        None \<Rightarrow> Inl (UnknownUnit u orig)
                      | Some unit \<Rightarrow>
                          (case segment_value v f scale unit of
                             None \<Rightarrow> Inl (InvalidDuration orig)
                           | Some w \<Rightarrow> Inr (w, rest)))))"

lemma leadingInt_shorter: "leadingInt x s = Some (v, r) \<Longrightarrow> length r \<le> length s"
  by (induction x s rule: leadingInt.induct) (auto simp: Let_def split: if_splits)

lemma leadingFraction_shorter:
  "leadingFraction b x scale s = (f, scale', r) \<Longrightarrow> length r \<le> length s"
  by (induction b x scale s rule: leadingFraction.induct)
     (fastforce simp: Let_def split: if_splits)+

lemma dropWhile_shorter: "takeWhile P s \<noteq> [] \<Longrightarrow> length (dropWhile P s) < length s"
  by (cases s) (auto split: if_splits simp: length_dropWhile_le le_imp_less_Suc)

lemma optional_fraction_shorter:
  "optional_fraction s1 = (f, scale, s2, post) \<Longrightarrow> length s2 \<le> length s1"
  by (cases s1) (auto simp: optional_fraction_def split: if_splits prod.splits
      dest!: leadingFraction_shorter)

lemma parse_segment_shorter:
  assumes "parse_segment orig s = Inr (w, rest)"
  shows "length rest < length s"
proof -
  from assms obtain v s1 f scale s2 post
    where i: "leadingInt 0 s = Some (v, s1)" and o: "optional_fraction s1 = (f, scale, s2, post)"
      and u: "takeWhile unit_char s2 \<noteq> []" and rest: "rest = dropWhile unit_char s2"
    by (auto simp: parse_segment_def Let_def simp del: takeWhile_eq_Nil_iff
        split: list.splits if_splits option.splits prod.splits)
  from leadingInt_shorter [OF i] optional_fraction_shorter [OF o] dropWhile_shorter [OF u]
  show ?thesis by (simp add: rest)
qed

function parse_loop :: "string \<Rightarrow> nat \<Rightarrow> string \<Rightarrow> duration_error + nat" where
  "parse_loop orig d s =
     (if s = [] then Inr d
      else case parse_segment orig s of
        Inl e \<Rightarrow> Inl e
      | Inr (v, rest) \<Rightarrow>
          (let d' = (d + v) mod 2 ^ 64
           in if 2 ^ 63 < d' then Inl (InvalidDuration orig) else parse_loop orig d' rest))"
  by pat_completeness auto
termination
  by (relation "measure (\<lambda>(orig, d, s). length s)") (auto simp: parse_segment_shorter)

declare parse_loop.simps [simp del]

definition ParseDuration :: "string \<Rightarrow> duration_error + int" where
  "ParseDuration orig =
     (let (neg, s) = (case orig of
            [] \<Rightarrow> (False, orig)
          | c # cs \<Rightarrow> if c = CHR ''-'' \<or> c = CHR ''+'' then (c = CHR ''-'', cs) else (False, orig))
      in if s = ''0'' then Inr 0
         else if s = [] then Inl (InvalidDuration orig)
         else case parse_loop orig 0 s of
           Inl e \<Rightarrow> Inl e
         | Inr d \<Rightarrow>
             (if neg then Inr (wrap64 (- wrap64 (int d)))
              else if 2 ^ 63 - 1 < d then Inl (InvalidDuration orig)
              else Inr (int d)))"

section \<open>Reading digits\<close>

abbreviation dval :: "nat \<Rightarrow> string \<Rightarrow> nat" where
  "dval x ds \<equiv> foldl (\<lambda>a c. 10 * a + digit_val c) x ds"

definition digit_free :: "string \<Rightarrow> bool" where
  "digit_free r \<longleftrightarrow> (case r of [] \<Rightarrow> True | c # _ \<Rightarrow> \<not> is_digit c)"

lemma dval_mono: "x \<le> dval x ds"
proof (induction ds arbitrary: x)
  case (Cons c ds)
  from Cons [of "10 * x + digit_val c"] show ?case by simp
qed simp

lemma digit_val_le: "is_digit c \<Longrightarrow> digit_val c \<le> 9"
  unfolding is_digit_def digit_val_def by linarith

lemma dval_shift: "dval x ds = x * 10 ^ length ds + dval 0 ds"
proof (induction ds arbitrary: x)
  case (Cons c ds)
  from Cons [of "10 * x + digit_val c"] Cons [of "digit_val c"] show ?case
    by (simp add: algebra_simps)
qed simp

lemma dval_less: "list_all is_digit ds \<Longrightarrow> dval 0 ds < 10 ^ length ds"
proof (induction ds)
  case (Cons c ds)
  then have "dval 0 ds < 10 ^ length ds" "digit_val c \<le> 9" by (simp_all add: digit_val_le)
  moreover from this(2) have "digit_val c * 10 ^ length ds \<le> 9 * 10 ^ length ds"
    by (rule mult_le_mono1)
  moreover have "dval 0 (c # ds) = digit_val c * 10 ^ length ds + dval 0 ds"
    using dval_shift [of "digit_val c" ds] by simp
  moreover have "(10 :: nat) ^ length (c # ds) = 10 * 10 ^ length ds" by simp
  ultimately show ?case by linarith
qed simp

lemma leadingInt_digits:
  assumes "list_all is_digit ds" "digit_free r" "dval x ds \<le> 2 ^ 63"
  shows "leadingInt x (ds @ r) = Some (dval x ds, r)"
  using assms
proof (induction ds arbitrary: x)
  case Nil
  then show ?case by (cases r) (simp_all add: digit_free_def)
next
  case (Cons c ds)
  have le: "10 * x + digit_val c \<le> 2 ^ 63"
    using dval_mono [of "10 * x + digit_val c" ds] Cons.prems(3) by simp
  then have "\<not> 2 ^ 63 div 10 < x" by simp
  with Cons le show ?case by (simp add: mult.commute)
qed

lemma fl_ten: "n \<le> 15 \<Longrightarrow> fl (10 ^ n) = 10 ^ n"
proof -
  assume "n \<le> 15"
  then have "(10 :: int) ^ n \<le> 10 ^ 15" by (intro power_increasing) simp_all
  then have "(10 :: int) ^ n < 2 ^ 53" by simp
  then show ?thesis using fl_int [of "10 ^ n"] by simp
qed

lemma leadingFraction_digits:
  assumes "list_all is_digit ds" "digit_free r" "j + length ds \<le> 9" "x < 10 ^ j"
  shows "leadingFraction False x (10 ^ j) (ds @ r) = (dval x ds, 10 ^ (j + length ds), r)"
  using assms
proof (induction ds arbitrary: x j)
  case Nil
  then show ?case by (cases r) (simp_all add: digit_free_def)
next
  case (Cons c ds)
  then have d: "digit_val c \<le> 9" by (simp add: digit_val_le)
  have "(10 :: nat) ^ j \<le> 10 ^ 8" using Cons.prems(3) by (intro power_increasing) simp_all
  with Cons.prems(4) have x: "x < 10 ^ 8" by simp
  have y: "10 * x + digit_val c < 10 ^ Suc j" using Cons.prems(4) d by simp
  have "leadingFraction False (10 * x + digit_val c) (10 ^ Suc j) (ds @ r) =
      (dval (10 * x + digit_val c) ds, 10 ^ (Suc j + length ds), r)"
    using Cons.prems y by (intro Cons.IH) simp_all
  moreover have "fl (10 ^ j * 10) = 10 ^ Suc j"
    using fl_ten [of "Suc j"] Cons.prems(3) by (simp add: mult.commute)
  moreover have "\<not> 2 ^ 63 < x * 10 + digit_val c" "\<not> (2 ^ 63 - 1) div 10 < x"
    using x d by simp_all
  ultimately show ?case using Cons.prems(1) by (simp add: mult.commute)
qed

section \<open>Printed fractions\<close>

lemma frac_loop_True:
  "\<exists>ds. frac_loop p True v buf = (True, ds @ buf, v div 10 ^ p) \<and> list_all is_digit ds \<and>
     length ds = p \<and> dval 0 ds = v mod 10 ^ p"
proof (induction p arbitrary: v buf)
  case (Suc p)
  obtain ds where ds: "frac_loop p True (v div 10) (digit_char (v mod 10) # buf) =
      (True, ds @ digit_char (v mod 10) # buf, v div 10 div 10 ^ p)"
      "list_all is_digit ds" "length ds = p" "dval 0 ds = v div 10 mod 10 ^ p"
    using Suc by blast
  have "dval 0 (ds @ [digit_char (v mod 10)]) = v mod 10 ^ Suc p"
    using ds(4) by (simp add: mod_mult2_eq [of v 10])
  with ds show ?case
    by (intro exI [of _ "ds @ [digit_char (v mod 10)]"]) (simp add: div_mult2_eq)
qed simp

lemma frac_loop_False:
  "(if v mod 10 ^ p = 0 then frac_loop p False v buf = (False, buf, v div 10 ^ p)
    else \<exists>ds. frac_loop p False v buf = (True, ds @ buf, v div 10 ^ p) \<and> list_all is_digit ds \<and>
      length ds \<le> p \<and> ds \<noteq> [] \<and> dval 0 ds * 10 ^ (p - length ds) = v mod 10 ^ p)"
proof (induction p arbitrary: v buf)
  case (Suc p)
  show ?case
  proof (cases "v mod 10 = 0")
    case True
    then have m: "v mod 10 ^ Suc p = 10 * (v div 10 mod 10 ^ p)"
      by (simp add: mod_mult2_eq [of v 10])
    have "Suc p - length ds = Suc (p - length ds)" if "length ds \<le> p" for ds :: string
      using that by simp
    with Suc [of "v div 10" buf] True show ?thesis
      unfolding m by (auto simp: div_mult2_eq split: if_splits intro!: le_SucI)
  next
    case False
    then have "v mod 10 ^ Suc p \<noteq> 0" by (simp add: mod_mult2_eq [of v 10])
    moreover obtain ds where
      "frac_loop p True (v div 10) (digit_char (v mod 10) # buf) =
        (True, ds @ digit_char (v mod 10) # buf, v div 10 div 10 ^ p)"
      "list_all is_digit ds" "length ds = p" "dval 0 ds = v div 10 mod 10 ^ p"
      using frac_loop_True by blast
    ultimately show ?thesis using False
      by (auto simp: div_mult2_eq mod_mult2_eq [of v 10]
          intro!: exI [of _ "ds @ [digit_char (v mod 10)]"])
  qed
qed simp

lemma fmtFrac_cases:
  obtains (none) "v mod 10 ^ p = 0" "fmtFrac p v buf = (buf, v div 10 ^ p)"
  | (some) ds where "fmtFrac p v buf = (CHR ''.'' # ds @ buf, v div 10 ^ p)"
      "list_all is_digit ds" "length ds \<le> p" "ds \<noteq> []" "v mod 10 ^ p \<noteq> 0"
      "dval 0 ds * 10 ^ (p - length ds) = v mod 10 ^ p"
  using frac_loop_False [of v p buf] by (auto simp: fmtFrac_def split: if_splits)


section \<open>The round trip\<close>

text \<open>What may follow a unit: nothing, or the digits of the next segment.\<close>

definition segment_end :: "string \<Rightarrow> bool" where
  "segment_end r \<longleftrightarrow> (case r of [] \<Rightarrow> True | c # _ \<Rightarrow> is_digit c)"

definition names_unit :: "string \<Rightarrow> nat \<Rightarrow> bool" where
  "names_unit u k \<longleftrightarrow> u \<noteq> [] \<and> list_all unit_char u \<and> map_of unitMap u = Some k \<and> 0 < k"

lemma unit_split:
  assumes "names_unit u k" "segment_end r"
  shows "takeWhile unit_char (u @ r) = u" "dropWhile unit_char (u @ r) = r"
    "digit_free (u @ r)" "u @ r \<noteq> []" "hd (u @ r) \<noteq> CHR ''.''"
proof -
  have u: "\<forall>c \<in> set u. unit_char c" "u \<noteq> []"
    using assms(1) by (simp_all add: names_unit_def list_all_iff)
  have r: "r = [] \<or> \<not> unit_char (hd r)"
    using assms(2) by (auto simp: segment_end_def unit_char_def split: list.splits)
  then have "takeWhile unit_char r = []" "dropWhile unit_char r = r" by (cases r; simp)+
  with u show "takeWhile unit_char (u @ r) = u" "dropWhile unit_char (u @ r) = r" by simp_all
  from u show "digit_free (u @ r)" "u @ r \<noteq> []" "hd (u @ r) \<noteq> CHR ''.''"
    by (cases u; simp add: digit_free_def unit_char_def)+
qed

lemma not_is_digit_dot: "\<not> is_digit CHR ''.''"
  by (simp add: is_digit_def)

lemma hd_nat_digits_ok: "c # cs = nat_digits n @ r \<Longrightarrow> is_digit c"
  by (metis append_Nil hd_append2 hd_nat_digits_is_digit list.sel(1) nat_digits_neq_Nil)

lemma parse_segment_digits:
  assumes "q \<le> 2 ^ 63" "digit_free s1" "optional_fraction s1 = (f, scale, u @ r, post)"
    and "names_unit u k" "segment_end r" "segment_value q f scale k = Some w"
  shows "parse_segment orig (nat_digits q @ s1) = Inr (w, r)"
proof -
  have i: "leadingInt 0 (nat_digits q @ s1) = Some (q, s1)"
    using leadingInt_digits [OF nat_digits_is_digit assms(2), of 0 q] assms(1)
      digits_val_nat_digits [of q] by (simp add: digits_val_def)
  obtain c cs where cs: "nat_digits q @ s1 = c # cs"
    by (cases "nat_digits q @ s1") auto
  have "is_digit c" using cs by (metis hd_nat_digits_ok)
  moreover have "length (nat_digits q @ s1) \<noteq> length s1" by simp
  then have "Suc (length cs) \<noteq> length s1" unfolding cs by simp
  moreover have "u \<noteq> []" "map_of unitMap u = Some k" using assms(4) by (simp_all add: names_unit_def)
  ultimately show ?thesis
    using i assms(3,6) unit_split [OF assms(4,5)]
    by (simp add: parse_segment_def cs del: leadingInt.simps)
qed

lemma parse_segment_plain:
  assumes "q * k \<le> 2 ^ 63" "names_unit u k" "segment_end r"
  shows "parse_segment orig (nat_digits q @ u @ r) = Inr (q * k, r)"
proof -
  have k: "0 < k" using assms(2) by (simp add: names_unit_def)
  then have "q \<le> 2 ^ 63 div k" using assms(1) by (simp add: less_eq_div_iff_mult_less_eq)
  moreover have "q \<le> 2 ^ 63"
    by (rule order_trans [OF _ assms(1)]) (use k in simp)
  ultimately show ?thesis
    using assms unit_split [OF assms(2,3)]
    by (intro parse_segment_digits [where f = 0 and scale = 1 and post = False])
       (auto simp: optional_fraction_def segment_value_def split: list.splits)
qed

lemma floor_fraction:
  assumes "f * 10 ^ (p - l) < 10 ^ p" "0 < f" "l \<le> p" "p \<le> 9" 
  shows "nat \<lfloor>fl (fl (of_nat f) * fl (fl (of_nat (10 ^ p)) / 10 ^ l))\<rfloor> = f * 10 ^ (p - l)"
proof -
  have lim: "(10 :: nat) ^ p \<le> 10 ^ 9" using assms(4) by (intro power_increasing) simp_all
  have "f \<le> f * 10 ^ (p - l)" by simp
  with assms(1) lim have f: "f < 10 ^ 9" by linarith
  have "fl (of_nat f) = of_nat f" using fl_int [of "int f"] f assms(2) by simp
  moreover have "fl (of_nat (10 ^ p)) = 10 ^ p" using fl_ten [of p] assms(4) by simp
  moreover have "(10 :: rat) ^ p / 10 ^ l = 10 ^ (p - l)" using assms(3) by (simp add: power_diff)
  moreover have "fl (10 ^ (p - l)) = 10 ^ (p - l)" using fl_ten [of "p - l"] assms(4) by simp
  moreover have "fl (of_nat f * 10 ^ (p - l)) = of_nat f * 10 ^ (p - l)"
  proof -
    have "f * 10 ^ (p - l) < 10 ^ 9" using assms(1) lim by (rule less_le_trans)
    then have "int (f * 10 ^ (p - l)) < int (10 ^ 9)" by (simp only: of_nat_less_iff)
    then have "int (f * 10 ^ (p - l)) < 2 ^ 53" by (rule less_trans) simp
    then show ?thesis using fl_int [of "int (f * 10 ^ (p - l))"] assms(2) by simp
  qed
  moreover have "\<lfloor>of_nat f * (10 :: rat) ^ (p - l)\<rfloor> = int (f * 10 ^ (p - l))"
    by (metis floor_of_nat of_nat_mult of_nat_numeral of_nat_power)
  ultimately show ?thesis by (simp add: nat_mult_distrib nat_power_eq)
qed

lemma parse_segment_frac:
  assumes "q * 10 ^ p + v mod 10 ^ p \<le> 2 ^ 63" "names_unit u (10 ^ p)" "p \<le> 9"
  shows "parse_segment orig (nat_digits q @ fst (fmtFrac p v u)) =
    Inr (q * 10 ^ p + v mod 10 ^ p, [])"
proof (cases rule: fmtFrac_cases [where v = v and p = p and buf = u])
  case none
  with assms parse_segment_plain [of q "10 ^ p" u "[]"] show ?thesis
    by (simp add: segment_end_def)
next
  case (some ds)
  note u = unit_split [OF assms(2), of "[]"]
  let ?f = "dval 0 ds"
  have lf: "leadingFraction False 0 1 (ds @ u) = (?f, 10 ^ length ds, u)"
    using leadingFraction_digits [of ds u 0 0] some u assms(3) by (simp add: segment_end_def)
  have f: "0 < ?f" "?f * 10 ^ (p - length ds) < 10 ^ p"
    using some(5,6) by (auto intro: gr0I)
  have "q * 10 ^ p \<le> 2 ^ 63" using assms(1) by simp
  then have "q \<le> 2 ^ 63 div 10 ^ p" by (simp add: less_eq_div_iff_mult_less_eq)
  moreover have "(q * 10 ^ p + v mod 10 ^ p) mod 2 ^ 64 = q * 10 ^ p + v mod 10 ^ p"
    using assms(1) by simp
  ultimately have sv: "segment_value q ?f (10 ^ length ds) (10 ^ p) = Some (q * 10 ^ p + v mod 10 ^ p)"
    using floor_fraction [OF f(2,1) some(3) assms(3)] f assms(1) some(6)
    by (simp add: segment_value_def Let_def)
  have "q \<le> q * 10 ^ p" by simp
  with assms(1) have "q \<le> 2 ^ 63" by linarith
  then show ?thesis
    using some lf u assms sv
    by (intro parse_segment_digits [where f = ?f and scale = "10 ^ length ds" and u = u and r = "[]"
          and post = True and k = "10 ^ p"])
       (simp_all add: optional_fraction_def segment_end_def digit_free_def not_is_digit_dot)
qed

lemma names_units:
  "names_unit ''ns'' (10 ^ 0)" "names_unit (micro @ ''s'') (10 ^ 3)" "names_unit ''ms'' (10 ^ 6)"
  "names_unit ''s'' (10 ^ 9)" "names_unit ''m'' 60000000000" "names_unit ''h'' 3600000000000"
  by (simp_all add: names_unit_def unitMap_def micro_def unit_char_def is_digit_def)

lemma parse_loop_step:
  "parse_segment orig s = Inr (v, rest) \<Longrightarrow> d + v \<le> 2 ^ 63 \<Longrightarrow>
   parse_loop orig d s = parse_loop orig (d + v) rest"
  by (subst parse_loop.simps) (auto simp: parse_segment_def)

lemma parse_loop_Nil [simp]: "parse_loop orig d [] = Inr d"
  by (subst parse_loop.simps) simp

lemma segment_end_nat_digits [simp]: "segment_end (nat_digits n @ r)"
  using hd_nat_digits_ok [of _ _ n r] by (auto simp: segment_end_def split: list.splits)

lemma parse_loop_plain:
  "names_unit u k \<Longrightarrow> d + q * k \<le> 2 ^ 63 \<Longrightarrow> segment_end r \<Longrightarrow>
   parse_loop orig d (nat_digits q @ u @ r) = parse_loop orig (d + q * k) r"
  by (intro parse_loop_step parse_segment_plain) simp_all

lemma parse_loop_frac:
  "names_unit u (10 ^ p) \<Longrightarrow> p \<le> 9 \<Longrightarrow> d + (q * 10 ^ p + v mod 10 ^ p) \<le> 2 ^ 63 \<Longrightarrow>
   parse_loop orig d (nat_digits q @ fst (fmtFrac p v u)) = Inr (d + (q * 10 ^ p + v mod 10 ^ p))"
  using parse_loop_step [of orig "nat_digits q @ fst (fmtFrac p v u)" "q * 10 ^ p + v mod 10 ^ p" "[]" d]
    parse_segment_frac [of q p v u orig] by simp

lemma snd_fmtFrac [simp]: "snd (fmtFrac p v buf) = v div 10 ^ p"
  by (cases rule: fmtFrac_cases [where v = v and p = p and buf = buf]) simp_all

lemma duration_abs_small:
  assumes "0 < u" "u < 1000000000"
  obtains p unit where "p \<le> 6" "names_unit unit (10 ^ p)"
    "duration_abs u = nat_digits (u div 10 ^ p) @ fst (fmtFrac p u unit)"
proof -
  define p :: nat where "p = (if u < 1000 then 0 else if u < 1000000 then 3 else 6)"
  define unit where "unit = (if u < 1000 then ''ns'' else if u < 1000000 then micro @ ''s'' else ''ms'')"
  have "duration_abs u = nat_digits (snd (fmtFrac p u unit)) @ fst (fmtFrac p u unit)"
    using assms by (simp add: duration_abs_def p_def unit_def split_beta)
  moreover have "names_unit unit (10 ^ p)"
    using names_units by (simp add: p_def unit_def)
  moreover have "p \<le> 6" by (simp add: p_def)
  ultimately show thesis by (intro that) simp_all
qed

lemma duration_abs_large:
  assumes "1000000000 \<le> u"
  defines "s \<equiv> u div 10 ^ 9"
  defines "secs \<equiv> nat_digits (s mod 60) @ fst (fmtFrac 9 u ''s'')"
  shows "duration_abs u =
    (if s div 60 = 0 then secs
     else if s div 60 div 60 = 0 then nat_digits (s div 60 mod 60) @ ''m'' @ secs
     else nat_digits (s div 60 div 60) @ ''h'' @ nat_digits (s div 60 mod 60) @ ''m'' @ secs)"
  using assms(1) by (simp add: duration_abs_def Let_def split_beta s_def secs_def)

lemma hms_sum:
  fixes u :: nat
  defines "s \<equiv> u div 10 ^ 9"
  shows "s div 60 div 60 * 3600000000000 + s div 60 mod 60 * 60000000000 +
    (s mod 60 * 10 ^ 9 + u mod 10 ^ 9) = u"
proof -
  have "s = 60 * (s div 60) + s mod 60" "s div 60 = 60 * (s div 60 div 60) + s div 60 mod 60"
    "u = 1000000000 * s + u mod 1000000000"
    by (simp_all add: s_def)
  then have "s div 60 div 60 * 3600000000000 + s div 60 mod 60 * 60000000000 +
    (s mod 60 * 1000000000 + u mod 1000000000) = u"
    by linarith
  then show ?thesis by simp
qed

lemma parse_duration_abs:
  assumes "u \<le> 2 ^ 63"
  shows "parse_loop orig 0 (duration_abs u) = Inr u"
proof -
  consider (zero) "u = 0" | (small) "0 < u" "u < 1000000000" | (large) "1000000000 \<le> u"
    by linarith
  then show ?thesis
  proof cases
    case zero
    have "nat_digits 0 = ''0''" by code_simp
    with zero parse_loop_plain [OF names_units(4), of 0 0 "[]" orig] show ?thesis
      by (simp add: duration_abs_def segment_end_def)
  next
    case small
    then obtain p unit where "p \<le> 6" "names_unit unit (10 ^ p)"
      "duration_abs u = nat_digits (u div 10 ^ p) @ fst (fmtFrac p u unit)"
      using duration_abs_small by blast
    with parse_loop_frac [of unit p 0 "u div 10 ^ p" u orig] assms show ?thesis
      by (simp add: div_mult_mod_eq)
  next
    case large
    define s where "s = u div 10 ^ 9"
    define z where "z = s mod 60 * 10 ^ 9 + u mod 10 ^ 9"
    let ?T = "nat_digits (s mod 60) @ fst (fmtFrac 9 u ''s'')"
    note sum = hms_sum [of u, folded s_def, folded z_def]
    note abs = duration_abs_large [OF large, folded s_def]
    have secs: "parse_loop orig d ?T = Inr (d + z)" if "d + z \<le> 2 ^ 63" for d
      using that unfolding z_def by (intro parse_loop_frac names_units) simp_all
    have mins: "parse_loop orig d (nat_digits m @ ''m'' @ ?T) = Inr (d + m * 60000000000 + z)"
      if "d + m * 60000000000 + z \<le> 2 ^ 63" for d m
      using that by (subst parse_loop_plain [OF names_units(5)]) (simp_all add: secs)
    have hours: "parse_loop orig 0 (nat_digits h @ ''h'' @ nat_digits m @ ''m'' @ ?T) =
        Inr (h * 3600000000000 + m * 60000000000 + z)"
      if "h * 3600000000000 + m * 60000000000 + z \<le> 2 ^ 63" for h m
      using that mins [of "h * 3600000000000" m]
      by (subst parse_loop_plain [OF names_units(6)]) simp_all
    consider "s div 60 = 0" | "s div 60 \<noteq> 0" "s div 60 div 60 = 0" | "s div 60 div 60 \<noteq> 0"
      by auto
    then show ?thesis
    proof cases
      case 1
      with sum secs [of 0] assms show ?thesis
        by (simp add: abs del: power_numeral)
    next
      case 2
      with sum mins [of 0 "s div 60 mod 60"] assms show ?thesis
        by (simp add: abs del: power_numeral)
    next
      case 3
      then have "s div 60 \<noteq> 0" by auto
      with 3 sum hours [of "s div 60 div 60" "s div 60 mod 60"] assms show ?thesis
        by (simp add: abs del: power_numeral)
    qed
  qed
qed

lemma duration_abs_shape:
  assumes "u \<le> 2 ^ 63"
  shows "duration_abs u \<noteq> []" "duration_abs u \<noteq> ''0''"
    "duration_abs u = c # cs \<Longrightarrow> c \<noteq> CHR ''-'' \<and> c \<noteq> CHR ''+''"
proof -
  note ok = parse_duration_abs [OF assms, of "[]"]
  show "duration_abs u \<noteq> []"
    using ok by (auto simp: duration_abs_def)
  have "parse_segment [] ''0'' = Inl (MissingUnit [])"
    by (simp add: parse_segment_def optional_fraction_def is_digit_def digit_val_def)
  then have "parse_loop [] 0 ''0'' = Inl (MissingUnit [])" by (subst parse_loop.simps) simp
  with ok show "duration_abs u \<noteq> ''0''" by auto
  assume c: "duration_abs u = c # cs"
  have "\<exists>e. parse_segment [] (c # cs) = Inl e" if "c = CHR ''-'' \<or> c = CHR ''+''"
    using that by (auto simp: parse_segment_def)
  then have "\<exists>e. parse_loop [] 0 (c # cs) = Inl e" if "c = CHR ''-'' \<or> c = CHR ''+''"
    using that by (subst parse_loop.simps) auto
  with ok c show "c \<noteq> CHR ''-'' \<and> c \<noteq> CHR ''+''" by auto
qed

text \<open>Printing a duration and parsing it again gives the same duration, for every 64-bit
  number of nanoseconds, the smallest included: no rounding of the floating-point fraction
  and no overflow check gets in the way.\<close>

theorem duration_roundtrip [simp]:
  assumes "is_int64 d"
  shows "ParseDuration (duration_String d) = Inr d"
proof (cases "d < 0")
  case True
  with assms have u: "nat (- d) \<le> 2 ^ 63" by (simp add: is_int64_def)
  have "wrap64 (- wrap64 (- d)) = d"
    using True assms by (cases "d = - (2 ^ 63)") (simp_all add: wrap64_def is_int64_def)
  with True u show ?thesis
    using duration_abs_shape(1,2) [OF u] parse_duration_abs [OF u]
    by (simp add: duration_String_def ParseDuration_def)
next
  case False
  with assms have u: "nat d \<le> 2 ^ 63" "\<not> 2 ^ 63 - 1 < nat d" by (simp_all add: is_int64_def)
  obtain c cs where c: "duration_abs (nat d) = c # cs"
    using duration_abs_shape(1) [OF u(1)] by (cases "duration_abs (nat d)") auto
  with False u show ?thesis
    using duration_abs_shape(2,3) [OF u(1)] parse_duration_abs [OF u(1)]
    by (auto simp: duration_String_def ParseDuration_def c)
qed

end
