(* ===== verification/Go_Net.thy ===== *)
theory Go_Net
  imports Prelude
begin

text \<open>
  The parts of Go's packages \<^verbatim>\<open>net\<close> and \<^verbatim>\<open>net/netip\<close> with which kperf decides whether a listener
  is local: \<^verbatim>\<open>net.SplitHostPort\<close>, \<^verbatim>\<open>net.ParseIP\<close> and \<^verbatim>\<open>IP.IsLoopback\<close>. An address is its list
  of 16 bytes.
\<close>

section \<open>Host and port\<close>

datatype addr_error =
  MissingPort | TooManyColons | MissingBracket | UnexpectedOpen | UnexpectedClose

definition split_brackets :: "string \<Rightarrow> nat \<Rightarrow> addr_error + string \<times> nat \<times> nat" where
  "split_brackets s i =
     (if hd s = CHR ''['' then
        (case str_cut CHR '']'' s of
           None \<Rightarrow> Inl MissingBracket
         | Some (before, _) \<Rightarrow>
             (let e = length before
              in if e + 1 = length s then Inl MissingPort
                 else if e + 1 = i then Inr (tl before, 1, e + 1)
                 else if s ! (e + 1) = CHR '':'' then Inl TooManyColons
                 else Inl MissingPort))
      else if CHR '':'' \<in> set (take i s) then Inl TooManyColons
      else Inr (take i s, 0, 0))"

text \<open>The port starts after the last colon.\<close>

definition SplitHostPort :: "string \<Rightarrow> addr_error + string \<times> string" where
  "SplitHostPort s =
     (case str_cut CHR '':'' (rev s) of
        None \<Rightarrow> Inl MissingPort
      | Some (rport, rhost) \<Rightarrow>
          (case split_brackets s (length rhost) of
             Inl e \<Rightarrow> Inl e
           | Inr (host, j, k) \<Rightarrow>
               (if CHR ''['' \<in> set (drop j s) then Inl UnexpectedOpen
                else if CHR '']'' \<in> set (drop k s) then Inl UnexpectedClose
                else Inr (host, rev rport))))"

section \<open>Addresses\<close>

definition octet :: "string \<Rightarrow> nat option" where
  "octet ds =
     (if ds \<noteq> [] \<and> list_all is_digit ds \<and> (length ds = 1 \<or> hd ds \<noteq> CHR ''0'') \<and> digits_val ds \<le> 255
      then Some (digits_val ds) else None)"

fun all_some :: "'a option list \<Rightarrow> 'a list option" where
  "all_some [] = Some []"
| "all_some (x # xs) =
     (case x of None \<Rightarrow> None | Some y \<Rightarrow> map_option (\<lambda>ys. y # ys) (all_some xs))"

definition parseIPv4 :: "string \<Rightarrow> nat list option" where
  "parseIPv4 s =
     (let fields = str_split CHR ''.'' s
      in if length fields = 4 then all_some (map octet fields) else None)"

definition hex_val :: "char \<Rightarrow> nat option" where
  "hex_val c =
     (let n = (of_char c :: nat)
      in if 48 \<le> n \<and> n \<le> 57 then Some (n - 48)
         else if 97 \<le> n \<and> n \<le> 102 then Some (n - 87)
         else if 65 \<le> n \<and> n \<le> 70 then Some (n - 55)
         else None)"

text \<open>The longest run of hexadecimal digits, and what follows it.\<close>

fun hex_run :: "nat \<Rightarrow> nat \<Rightarrow> string \<Rightarrow> nat \<times> nat \<times> string" where
  "hex_run off acc [] = (off, acc, [])"
| "hex_run off acc (c # cs) =
     (case hex_val c of None \<Rightarrow> (off, acc, c # cs) | Some h \<Rightarrow> hex_run (off + 1) (16 * acc + h) cs)"

text \<open>The loop over the fields of an IPv6 address: the number of fields that still fit, the bytes so
  far, the position of the ellipsis and the rest of the text.\<close>

fun ip6_loop :: "nat \<Rightarrow> nat list \<Rightarrow> nat option \<Rightarrow> string \<Rightarrow> (nat list \<times> nat option) option" where
  "ip6_loop 0 ip ell s = (if s = [] then Some (ip, ell) else None)"
| "ip6_loop (Suc n) ip ell s =
     (case hex_run 0 0 s of (off, acc, r) \<Rightarrow>
        if off = 0 \<or> 4 < off then None
        else if r \<noteq> [] \<and> hd r = CHR ''.'' then
          (if ell = None \<and> length ip \<noteq> 12 \<or> 16 < length ip + 4 then None
           else map_option (\<lambda>v4. (ip @ v4, ell)) (parseIPv4 s))
        else
          (let ip' = ip @ [acc div 256, acc mod 256]
           in case r of
                [] \<Rightarrow> Some (ip', ell)
              | c # r' \<Rightarrow>
                  (if c \<noteq> CHR '':'' \<or> r' = [] then None
                   else if hd r' = CHR '':'' then
                     (if ell \<noteq> None then None
                      else if tl r' = [] then Some (ip', Some (length ip'))
                      else ip6_loop n ip' (Some (length ip')) (tl r'))
                   else ip6_loop n ip' ell r')))"

definition expand_ellipsis :: "nat list \<times> nat option \<Rightarrow> nat list option" where
  "expand_ellipsis = (\<lambda>(ip, ell).
     if length ip < 16 then
       map_option (\<lambda>e. take e ip @ replicate (16 - length ip) 0 @ drop e ip) ell
     else if ell = None then Some ip else None)"

text \<open>\<^verbatim>\<open>net.ParseIP\<close> refuses addresses with a zone.\<close>

definition parseIPv6 :: "string \<Rightarrow> nat list option" where
  "parseIPv6 s =
     (if CHR ''%'' \<in> set s then None
      else if s = ''::'' then Some (replicate 16 0)
      else Option.bind
        (if has_prefix s ''::'' then ip6_loop 8 [] (Some 0) (drop 2 s) else ip6_loop 8 [] None s)
        expand_ellipsis)"

definition ParseIP :: "string \<Rightarrow> nat list option" where
  "ParseIP s =
     (case find (\<lambda>c. c \<in> {CHR ''.'', CHR '':'', CHR ''%''}) s of
        None \<Rightarrow> None
      | Some c \<Rightarrow>
          (if c = CHR ''.'' then
             map_option (\<lambda>v4. replicate 10 0 @ [255, 255] @ v4) (parseIPv4 s)
           else if c = CHR '':'' then parseIPv6 s else None))"

definition To4 :: "nat list \<Rightarrow> nat list option" where
  "To4 ip = (if take 12 ip = replicate 10 0 @ [255, 255] then Some (drop 12 ip) else None)"

text \<open>The nil address is not a loopback address.\<close>

definition IsLoopback :: "nat list option \<Rightarrow> bool" where
  "IsLoopback addr =
     (case addr of
        None \<Rightarrow> False
      | Some ip \<Rightarrow>
          (case To4 ip of
             Some v4 \<Rightarrow> hd v4 = 127
           | None \<Rightarrow> ip = replicate 15 0 @ [1]))"

section \<open>Facts\<close>

lemma all_some_Some: "all_some xs = Some ys \<longleftrightarrow> xs = map Some ys"
proof (induction xs arbitrary: ys)
  case (Cons x xs)
  then show ?case by (cases ys) (auto split: option.splits)
qed auto

lemma octet_nat_digits:
  assumes "n \<le> 255"
  shows "octet (nat_digits n) = Some n"
proof -
  have "length (nat_digits n) = 1 \<or> hd (nat_digits n) \<noteq> CHR ''0''"
  proof -
    have "n < 10 \<or> (10 \<le> n \<and> n < 100) \<or> (100 \<le> n \<and> n div 10 div 10 < 10 \<and> 0 < n div 10 div 10)"
      using assms by auto
    moreover have "digit_char d \<noteq> CHR ''0''" if "0 < d" "d < 10" for d
    proof
      assume "digit_char d = CHR ''0''"
      then have "digit_val (digit_char d) = digit_val CHR ''0''" by simp
      with that show False by (simp add: digit_val_def)
    qed
    ultimately show ?thesis
      by (auto simp: nat_digits.simps [of n] nat_digits.simps [of "n div 10"]
          nat_digits.simps [of "n div 10 div 10"])
  qed
  with assms nat_digits_is_digit show ?thesis by (simp add: octet_def)
qed

lemma ParseIP_v4:
  assumes "a \<le> 255" "b \<le> 255" "c \<le> 255" "d \<le> 255"
  shows "ParseIP (str_join ''.'' (map nat_digits [a, b, c, d])) =
    Some (replicate 10 0 @ [255, 255, a, b, c, d])"
proof -
  let ?s = "str_join ''.'' (map nat_digits [a, b, c, d])"
  have nd: "\<not> is_digit CHR ''.''" "\<not> is_digit CHR '':''" "\<not> is_digit CHR ''%''"
    by (simp_all add: is_digit_def)
  have digits: "\<And>n x. x \<in> set (nat_digits n) \<Longrightarrow> is_digit x"
    using nat_digits_is_digit by (auto simp: list_all_iff)
  have split: "str_split CHR ''.'' ?s = map nat_digits [a, b, c, d]"
    using digits nd by (intro str_split_str_join) auto
  then have "parseIPv4 ?s = Some [a, b, c, d]"
    using assms by (simp add: parseIPv4_def octet_nat_digits)
  moreover have "find (\<lambda>c. c \<in> {CHR ''.'', CHR '':'', CHR ''%''}) ?s = Some CHR ''.''"
  proof -
    have "find (\<lambda>c. c \<in> {CHR ''.'', CHR '':'', CHR ''%''}) (xs @ CHR ''.'' # ys) = Some CHR ''.''"
      if "list_all is_digit xs" for xs ys
      using that nd by (induction xs) auto
    from this [OF nat_digits_is_digit, of a] show ?thesis by simp
  qed
  ultimately show ?thesis by (simp add: ParseIP_def)
qed

lemma str_cut_rev_last: "CHR '':'' \<notin> set p \<Longrightarrow> str_cut CHR '':'' (rev (h @ CHR '':'' # p)) = Some (rev p, rev h)"
  by (simp add: str_cut_Some)

lemma SplitHostPort_plain:
  assumes "CHR '':'' \<notin> set p" "set h \<inter> {CHR '':'', CHR ''['', CHR '']''} = {}"
    and "set p \<inter> {CHR ''['', CHR '']''} = {}"
  shows "SplitHostPort (h @ CHR '':'' # p) = Inr (h, p)"
proof -
  have "hd (h @ CHR '':'' # p) \<noteq> CHR ''[''" using assms(2) by (cases h) auto
  then have "split_brackets (h @ CHR '':'' # p) (length h) = Inr (h, 0, 0)"
    using assms(2) by (auto simp: split_brackets_def)
  then show ?thesis
    using assms by (auto simp: SplitHostPort_def str_cut_rev_last [simplified])
qed

end
