(* ===== verification/Runner_Server.thy ===== *)
theory Runner_Server
  imports Local_Store Group_Handler Go_Time Go_Net
begin

text \<open>
  The runner group server of the package \<^verbatim>\<open>runner\<close>: it deploys the groups
  (\<^verbatim>\<open>server_runnergroup.go\<close>), receives the reports of the runners (\<^verbatim>\<open>server.go\<close>), and merges them
  into one summary (\<^verbatim>\<open>utils.go\<close>). The JSON codec of the reports and the answers of the API
  server are parameters; an HTTP response is its status code and body.
\<close>

section \<open>Reports (\<^verbatim>\<open>api/types/metric.go\<close>)\<close>

type_synonym percentile_list = "(float64 \<times> float64) list"

record RunnerMetricReport =
  rep_Total :: int
  rep_Duration :: string
  rep_Errors :: "ResponseError list"
  rep_ErrorStats :: "int gomap"
  rep_TotalReceivedBytes :: int
  rep_LatenciesByURL :: "float64 list gomap"
  rep_PercentileLatencies :: percentile_list
  rep_PercentileLatenciesByURL :: "percentile_list gomap"

record MultiSpecRunnerMetricReport =
  multi_PerSpecResults :: "RunnerMetricReport list"
  multi_Aggregated :: RunnerMetricReport

section \<open>Addresses\<close>

datatype server_error =
  InvalidAddress string addr_error | InvalidHostName string | NoNonLocalAddr
| ListenFailed string goerr | StoreError ls_error | GroupError group_error
| DeployFailed server_error | ServeError goerr

fun addr_error_text :: "addr_error \<Rightarrow> string" where
  "addr_error_text MissingPort = ''missing port in address''"
| "addr_error_text TooManyColons = ''too many colons in address''"
| "addr_error_text MissingBracket = ''missing ']' in address''"
| "addr_error_text UnexpectedOpen = ''unexpected '[' in address''"
| "addr_error_text UnexpectedClose = ''unexpected ']' in address''"

definition AddrError_text :: "string \<Rightarrow> addr_error \<Rightarrow> string" where
  "AddrError_text addr e =
     (if addr = [] then addr_error_text e else ''address '' @ addr @ '': '' @ addr_error_text e)"

definition isLocalhost :: "string \<Rightarrow> server_error + bool" where
  "isLocalhost addr =
     (let check = (\<lambda>h p.
            if length p = 0 then Inl (InvalidHostName addr)
            else Inr (IsLoopback (ParseIP (if h = ''localhost'' then ''127.0.0.1'' else h))))
      in case SplitHostPort addr of
           Inl e \<Rightarrow>
             (if \<not> str_contains (AddrError_text addr e) ''missing port in address''
              then Inl (InvalidAddress addr e) else check addr '''')
         | Inr (h, p) \<Rightarrow> check h p)"

fun firstNonLocalAddr :: "string list \<Rightarrow> server_error + string" where
  "firstNonLocalAddr [] = Inl NoNonLocalAddr"
| "firstNonLocalAddr (addr # addrs) =
     (case isLocalhost addr of
        Inl e \<Rightarrow> Inl e
      | Inr local \<Rightarrow> (if \<not> local then Inr addr else firstNonLocalAddr addrs))"

text \<open>\<^verbatim>\<open>buildNetListeners\<close>: the listeners opened so far are closed when one fails. \<open>listen\<close> is the
  answer of the operating system, a listener is the address it is bound to; the second
  component lists the listeners that have been closed.\<close>

fun listen_all ::
  "(string \<Rightarrow> goerr + string) \<Rightarrow> string list \<Rightarrow> string list \<Rightarrow> (server_error + string list) \<times> string list" where
  "listen_all listen res [] = (Inr res, [])"
| "listen_all listen res (addr # addrs) =
     (case listen addr of
        Inl e \<Rightarrow> (Inl (ListenFailed addr e), res)
      | Inr lis \<Rightarrow> listen_all listen (res @ [lis]) addrs)"

definition buildNetListeners ::
  "(string \<Rightarrow> goerr + string) \<Rightarrow> string list \<Rightarrow> (server_error + string list) \<times> string list" where
  "buildNetListeners listen addrs = listen_all listen [] addrs"

section \<open>Merging reports\<close>

text \<open>\<^verbatim>\<open>readBlob\<close>; the faults are those of stat, open and read.\<close>

type_synonym read_faults = "goerr option \<times> goerr option \<times> goerr option"

datatype read_error = ReadStore ls_error | ReadAll goerr

definition readBlob :: "Store \<Rightarrow> read_faults \<Rightarrow> string \<Rightarrow> fs \<Rightarrow> read_error + string" where
  "readBlob s = (\<lambda>(stat_fault, open_fault, read_fault) ref fsys.
     case OpenReader s stat_fault open_fault ref fsys of
       Inl e \<Rightarrow> Inl (ReadStore e)
     | Inr (content, _) \<Rightarrow> (case read_fault of Some e \<Rightarrow> Inl (ReadAll e) | None \<Rightarrow> Inr content))"

definition decode_report ::
  "(string \<Rightarrow> goerr + MultiSpecRunnerMetricReport) \<Rightarrow> (string \<Rightarrow> goerr + RunnerMetricReport) \<Rightarrow>
   string \<Rightarrow> RunnerMetricReport option" where
  "decode_report unmarshal_multi unmarshal data =
     (let single = (case unmarshal data of Inl e \<Rightarrow> None | Inr report \<Rightarrow> Some report)
      in case unmarshal_multi data of
           Inr multi \<Rightarrow>
             (if length (multi_PerSpecResults multi) > 0 then Some (multi_Aggregated multi) else single)
         | Inl e \<Rightarrow> single)"

fun mergeErrorStat :: "int gomap \<Rightarrow> int gomap \<Rightarrow> int gomap" where
  "mergeErrorStat s [] = s"
| "mergeErrorStat s ((e, n) # d) =
     mergeErrorStat (AList.update e (wrap32 (gomap_get 0 s e + n)) s) d"

text \<open>The latencies of one report: a key is entered even when its list is empty.\<close>

fun push_latencies ::
  "int \<times> float64 list gomap \<Rightarrow> float64 list gomap \<Rightarrow> int \<times> float64 list gomap" where
  "push_latencies (totalResp, m) [] = (totalResp, m)"
| "push_latencies (totalResp, m) ((u, l) # ls) =
     push_latencies
       (wrap64 (totalResp + int (length l)), AList.update u (gomap_get [] m u @ l) m) ls"

record summary_acc =
  acc_totalBytes :: int
  acc_totalResp :: int
  acc_latenciesByURL :: "float64 list gomap"
  acc_errs :: "ResponseError list"
  acc_errStats :: "int gomap"
  acc_maxDuration :: int

definition acc_init :: summary_acc where
  "acc_init = \<lparr>acc_totalBytes = 0, acc_totalResp = 0, acc_latenciesByURL = [], acc_errs = [],
     acc_errStats = [], acc_maxDuration = 0\<rparr>"

text \<open>A duration that cannot be parsed counts as zero.\<close>

definition report_duration :: "RunnerMetricReport \<Rightarrow> int" where
  "report_duration report = (case ParseDuration (rep_Duration report) of Inl e \<Rightarrow> 0 | Inr d \<Rightarrow> d)"

definition add_report :: "RunnerMetricReport \<Rightarrow> summary_acc \<Rightarrow> summary_acc" where
  "add_report report acc =
     (case push_latencies (acc_totalResp acc, acc_latenciesByURL acc) (rep_LatenciesByURL report) of
        (totalResp, latencies) \<Rightarrow>
          (let rDur = report_duration report
           in \<lparr>acc_totalBytes = wrap64 (acc_totalBytes acc + rep_TotalReceivedBytes report),
               acc_totalResp = totalResp,
               acc_latenciesByURL = latencies,
               acc_errs = acc_errs acc @ rep_Errors report,
               acc_errStats = mergeErrorStat (acc_errStats acc) (rep_ErrorStats report),
               acc_maxDuration = (if rDur > acc_maxDuration acc then rDur else acc_maxDuration acc)\<rparr>))"

text \<open>The loops over groups and pods; \<open>read_fault\<close> gives the faults of reading each report. A group whose
  pods cannot be listed and a report that cannot be read or decoded are skipped.\<close>

definition add_pod ::
  "(string \<Rightarrow> goerr + MultiSpecRunnerMetricReport) \<Rightarrow> (string \<Rightarrow> goerr + RunnerMetricReport) \<Rightarrow>
   Store \<Rightarrow> (string \<Rightarrow> read_faults) \<Rightarrow> fs \<Rightarrow> Pod \<Rightarrow> summary_acc \<Rightarrow> summary_acc" where
  "add_pod unmarshal_multi unmarshal s read_fault fsys pod acc =
     (case readBlob s (read_fault (pod_Name pod)) (pod_Name pod) fsys of
        Inl e \<Rightarrow> acc
      | Inr data \<Rightarrow>
          (case decode_report unmarshal_multi unmarshal data of
             None \<Rightarrow> acc
           | Some report \<Rightarrow> add_report report acc))"

definition add_group ::
  "(string \<Rightarrow> goerr + MultiSpecRunnerMetricReport) \<Rightarrow> (string \<Rightarrow> goerr + RunnerMetricReport) \<Rightarrow>
   (Handler \<Rightarrow> group_error + Pod list) \<Rightarrow> Store \<Rightarrow> (string \<Rightarrow> read_faults) \<Rightarrow> fs \<Rightarrow>
   Handler \<Rightarrow> summary_acc \<Rightarrow> summary_acc" where
  "add_group unmarshal_multi unmarshal pods_of s read_fault fsys g acc =
     (case pods_of g of
        Inl e \<Rightarrow> acc
      | Inr pods \<Rightarrow> fold (add_pod unmarshal_multi unmarshal s read_fault fsys) pods acc)"

text \<open>The second loop: the percentiles of each URL, and all latencies together. Building the
  percentiles sorts the slice of one URL after its elements have been copied. \<open>None\<close> is a panic.\<close>

fun url_percentiles ::
  "float64 list \<times> percentile_list gomap \<Rightarrow> float64 list gomap \<Rightarrow>
   (float64 list \<times> percentile_list gomap) option" where
  "url_percentiles acc [] = Some acc"
| "url_percentiles (latencies, m) ((u, l) # ls) =
     (case BuildPercentileLatencies l of
        None \<Rightarrow> None
      | Some (ps, l') \<Rightarrow> url_percentiles (latencies @ l, AList.update u ps m) ls)"

definition finish_summary :: "summary_acc \<Rightarrow> RunnerMetricReport option" where
  "finish_summary acc =
     (case url_percentiles ([], []) (acc_latenciesByURL acc) of
        None \<Rightarrow> None
      | Some (latencies, byURL) \<Rightarrow>
          (case BuildPercentileLatencies latencies of
             None \<Rightarrow> None
           | Some (ps, _) \<Rightarrow> Some
               \<lparr>rep_Total = acc_totalResp acc,
                rep_Duration = duration_String (acc_maxDuration acc),
                rep_Errors = acc_errs acc,
                rep_ErrorStats = acc_errStats acc,
                rep_TotalReceivedBytes = acc_totalBytes acc,
                rep_LatenciesByURL = [],
                rep_PercentileLatencies = ps,
                rep_PercentileLatenciesByURL = byURL\<rparr>))"

definition buildRunnerGroupSummary ::
  "(string \<Rightarrow> goerr + MultiSpecRunnerMetricReport) \<Rightarrow> (string \<Rightarrow> goerr + RunnerMetricReport) \<Rightarrow>
   (Handler \<Rightarrow> group_error + Pod list) \<Rightarrow> Store \<Rightarrow> (string \<Rightarrow> read_faults) \<Rightarrow> fs \<Rightarrow>
   Handler list \<Rightarrow> RunnerMetricReport option" where
  "buildRunnerGroupSummary unmarshal_multi unmarshal pods_of s read_fault fsys groups =
     finish_summary
       (fold (add_group unmarshal_multi unmarshal pods_of s read_fault fsys) groups acc_init)"

section \<open>Handlers\<close>

text \<open>The value that a handler encodes as the body of its response.\<close>

datatype http_error =
  SummaryNotReady | RequestCanceled | ControlError group_error | NoSuchRunner string
| StoreFailed ls_error | CopyFailed goerr

datatype http_body =
  HTTPError http_error | ReportBody "RunnerMetricReport option" | GroupsBody "RunnerGroup list" | NoBody

record http_response =
  hr_code :: int
  hr_body :: http_body

definition renderErrorResponse :: "int \<Rightarrow> http_error \<Rightarrow> http_response" where
  "renderErrorResponse code err = \<lparr>hr_code = code, hr_body = HTTPError err\<rparr>"

text \<open>\<open>None\<close> is the panic of reading a job without completions.\<close>

definition listRunnerGroupsHandler ::
  "(Handler \<Rightarrow> goerr + Job) \<Rightarrow> Handler list \<Rightarrow> http_response option" where
  "listRunnerGroupsHandler get_job groups =
     map_option (\<lambda>res. \<lparr>hr_code = 200, hr_body = GroupsBody res\<rparr>)
       (all_some (map (\<lambda>g. Info g (get_job g)) groups))"

text \<open>The state of the channel at the first \<^verbatim>\<open>select\<close>, and what the second one takes, if anything yet:
  the closed channel, after which the report is set, or the end of the request.\<close>

datatype summary_select = SelectReady "RunnerMetricReport option" | SelectDone

definition getRunnerGroupsSummary ::
  "bool \<Rightarrow> bool \<Rightarrow> summary_select option \<Rightarrow> http_response outcome" where
  "getRunnerGroupsSummary wait ready second =
     (if \<not> ready \<and> \<not> wait then Return (renderErrorResponse 404 SummaryNotReady)
      else case second of
        None \<Rightarrow> Pending
      | Some SelectDone \<Rightarrow> Return (renderErrorResponse 408 RequestCanceled)
      | Some (SelectReady report) \<Rightarrow> Return \<lparr>hr_code = 200, hr_body = ReportBody report\<rparr>)"

fun find_controller ::
  "(Handler \<Rightarrow> string \<Rightarrow> group_error + bool) \<Rightarrow> Handler list \<Rightarrow> string \<Rightarrow> group_error + bool" where
  "find_controller controlled [] runnerName = Inr False"
| "find_controller controlled (g # gs) runnerName =
     (case controlled g runnerName of
        Inl e \<Rightarrow> Inl e
      | Inr True \<Rightarrow> Inr True
      | Inr False \<Rightarrow> find_controller controlled gs runnerName)"

text \<open>An upload: the chunks of the body that \<^verbatim>\<open>io.Copy\<close> reads and writes, with the faults of writing them,
  the error with which reading the body ends early, and the faults and random name of the store's operations.\<close>

record upload =
  up_chunks :: "(string \<times> write_fault) list"
  up_copy_err :: "goerr option"
  up_open_fault :: "goerr option"
  up_rnd :: string
  up_commit :: commit_faults
  up_close_fault :: "goerr option"

fun write_chunks :: "writer \<Rightarrow> (string \<times> write_fault) list \<Rightarrow> fs \<Rightarrow> ls_error option \<times> fs" where
  "write_chunks w [] fsys = (None, fsys)"
| "write_chunks w ((c, fault) # cs) fsys =
     (case writer_Write fault w c fsys of
        (Some e, fsys') \<Rightarrow> (Some e, fsys')
      | (None, fsys') \<Rightarrow> write_chunks w cs fsys')"

definition is_already_exists :: "ls_error \<Rightarrow> bool" where
  "is_already_exists e = (case e of RefExists r \<Rightarrow> True | _ \<Rightarrow> False)"

definition store_result :: "Store \<Rightarrow> upload \<Rightarrow> string \<Rightarrow> fs \<Rightarrow> http_response \<times> fs" where
  "store_result s up runnerName fsys =
     (case OpenWriter s (up_open_fault up) (up_rnd up) fsys of
        (Inl e, fsys) \<Rightarrow> (renderErrorResponse 500 (StoreFailed e), fsys)
      | (Inr w, fsys) \<Rightarrow>
          (let close = (\<lambda>w fsys. snd (snd (writer_Close (up_close_fault up) w fsys)))
           in case write_chunks w (up_chunks up) fsys of
                (Some e, fsys) \<Rightarrow> (renderErrorResponse 500 (StoreFailed e), close w fsys)
              | (None, fsys) \<Rightarrow>
                  (case up_copy_err up of
                     Some e \<Rightarrow> (renderErrorResponse 500 (CopyFailed e), close w fsys)
                   | None \<Rightarrow>
                       (case writer_Commit s (up_commit up) runnerName w fsys of
                          (Some e, w, fsys) \<Rightarrow>
                            (renderErrorResponse (if is_already_exists e then 409 else 500) (StoreFailed e),
                             close w fsys)
                        | (None, w, fsys) \<Rightarrow>
                            (\<lparr>hr_code = 201, hr_body = NoBody\<rparr>, close w fsys)))))"

definition postRunnerGroupsRunnerResult ::
  "(Handler \<Rightarrow> string \<Rightarrow> group_error + bool) \<Rightarrow> Store \<Rightarrow> Handler list \<Rightarrow> upload \<Rightarrow> string \<Rightarrow> fs \<Rightarrow>
   http_response \<times> fs" where
  "postRunnerGroupsRunnerResult controlled s groups up runnerName fsys =
     (case find_controller controlled groups runnerName of
        Inl e \<Rightarrow> (renderErrorResponse 500 (ControlError e), fsys)
      | Inr False \<Rightarrow> (renderErrorResponse 404 (NoSuchRunner runnerName), fsys)
      | Inr True \<Rightarrow> store_result s up runnerName fsys)"

section \<open>Deployment and serving\<close>

record Server =
  srv_store :: Store
  srv_listeners :: "string list"
  srv_groups :: "Handler list"
  srv_ready :: bool
  srv_report :: "RunnerMetricReport option"

text \<open>The result and the listeners that have been closed again.\<close>

definition NewServer ::
  "goerr option \<times> goerr option \<Rightarrow> (string \<Rightarrow> goerr + string) \<Rightarrow> string \<Rightarrow> string list \<Rightarrow> Handler list \<Rightarrow>
   (server_error + Server) \<times> string list" where
  "NewServer = (\<lambda>(mk_data, mk_ingest) listen dataDir addrs groups.
     case NewStore mk_data mk_ingest dataDir of
       Inl e \<Rightarrow> (Inl (StoreError e), [])
     | Inr s \<Rightarrow>
         (case buildNetListeners listen addrs of
            (Inl e, shut) \<Rightarrow> (Inl e, shut)
          | (Inr listeners, shut) \<Rightarrow>
              (Inr \<lparr>srv_store = s, srv_listeners = listeners, srv_groups = groups,
                   srv_ready = False, srv_report = None\<rparr>, shut)))"

definition upload_url :: "string \<Rightarrow> string" where
  "upload_url targetAddr = ''http://'' @ targetAddr @ ''/v1/runnergroups/$(POD_NAME)/result''"

fun first_error :: "'e option list \<Rightarrow> 'e option" where
  "first_error [] = None"
| "first_error (Some e # es) = Some e"
| "first_error (None # es) = first_error es"

text \<open>Every group is deployed in its own goroutine; \<open>order\<close> is the order in which they send their result
  to the channel, which the final loop reads. The second component is what has been deployed.\<close>

definition deployRunnerGroups ::
  "(Handler \<Rightarrow> string \<Rightarrow> group_error option) \<Rightarrow> Server \<Rightarrow> Handler list \<Rightarrow>
   server_error option \<times> (Handler \<times> string) list" where
  "deployRunnerGroups deploy s order =
     (case firstNonLocalAddr (srv_listeners s) of
        Inl e \<Rightarrow> (Some e, [])
      | Inr targetAddr \<Rightarrow>
          (let uploadURL = upload_url targetAddr
           in (map_option GroupError (first_error (map (\<lambda>g. deploy g uploadURL) order)),
               map (\<lambda>g. (g, uploadURL)) (srv_groups s))))"

text \<open>The groups are awaited in parallel; a failing wait panics, and one that does not end blocks. Then the
  summary is built and the channel closed.\<close>

definition waitForRunnerGroups ::
  "(Handler \<Rightarrow> wait_error option outcome) \<Rightarrow> (Handler list \<Rightarrow> RunnerMetricReport option) \<Rightarrow> Server \<Rightarrow>
   Server outcome" where
  "waitForRunnerGroups wait_group build s =
     (if list_ex (\<lambda>g. wait_group g \<notin> {Return None, Pending}) (srv_groups s) then Panic
      else if list_ex (\<lambda>g. wait_group g = Pending) (srv_groups s) then Pending
      else case build (srv_groups s) of
        None \<Rightarrow> Panic
      | Some report \<Rightarrow> Return (s\<lparr>srv_report := Some report, srv_ready := True\<rparr>))"

datatype endpoint = ListGroups | GetSummary | PostResult string

text \<open>The routes of the router: method and path segments.\<close>

definition route :: "string \<Rightarrow> string list \<Rightarrow> endpoint option" where
  "route meth path =
     (case path of
        [a, b] \<Rightarrow> (if a = ''v1'' \<and> b = ''runnergroups'' \<and> meth = ''GET'' then Some ListGroups else None)
      | [a, b, c] \<Rightarrow>
          (if a = ''v1'' \<and> b = ''runnergroups'' \<and> c = ''summary'' \<and> meth = ''GET''
           then Some GetSummary else None)
      | [a, b, runner_name, d] \<Rightarrow>
          (if a = ''v1'' \<and> b = ''runnergroups'' \<and> runner_name \<noteq> '''' \<and> d = ''result'' \<and> meth = ''POST''
           then Some (PostResult runner_name) else None)
      | _ \<Rightarrow> None)"

text \<open>\<^verbatim>\<open>Run\<close> after the deployment: \<open>served\<close> are the results of \<^verbatim>\<open>http.Serve\<close> of the listeners that have
  ended, in the order in which they arrive. It waits for all listeners; the channel of errors is never closed,
  so it keeps waiting when there is none.\<close>

definition Run ::
  "(Handler \<Rightarrow> string \<Rightarrow> group_error option) \<Rightarrow> Server \<Rightarrow> Handler list \<Rightarrow> goerr option list \<Rightarrow>
   server_error option outcome" where
  "Run deploy s order served =
     (case deployRunnerGroups deploy s order of
        (Some e, _) \<Rightarrow> Return (Some (DeployFailed e))
      | (None, _) \<Rightarrow>
          (if length served < length (srv_listeners s) then Pending
           else case first_error served of
             Some e \<Rightarrow> Return (Some (ServeError e))
           | None \<Rightarrow> Pending))"

section \<open>Facts about the merge\<close>

text \<open>What the reports say about a key of the error statistics, a URL, and altogether.\<close>

definition stat_of :: "string \<Rightarrow> int gomap \<Rightarrow> int" where
  "stat_of k m = (\<Sum>(e, n)\<leftarrow>m. if e = k then n else 0)"

definition url_of :: "string \<Rightarrow> float64 list gomap \<Rightarrow> float64 list" where
  "url_of u m = concat (map (\<lambda>(v, l). if v = u then l else []) m)"

definition all_latencies :: "RunnerMetricReport list \<Rightarrow> float64 list" where
  "all_latencies reps = concat (map (\<lambda>r. concat (map snd (rep_LatenciesByURL r))) reps)"

definition url_latencies :: "string \<Rightarrow> RunnerMetricReport list \<Rightarrow> float64 list" where
  "url_latencies u reps = concat (map (\<lambda>r. url_of u (rep_LatenciesByURL r)) reps)"

definition has_url :: "string \<Rightarrow> RunnerMetricReport list \<Rightarrow> bool" where
  "has_url u reps \<longleftrightarrow> list_ex (\<lambda>r. u \<in> fst ` set (rep_LatenciesByURL r)) reps"

definition pod_report ::
  "(string \<Rightarrow> goerr + MultiSpecRunnerMetricReport) \<Rightarrow> (string \<Rightarrow> goerr + RunnerMetricReport) \<Rightarrow>
   Store \<Rightarrow> (string \<Rightarrow> read_faults) \<Rightarrow> fs \<Rightarrow> Pod \<Rightarrow> RunnerMetricReport option" where
  "pod_report unmarshal_multi unmarshal s read_fault fsys pod =
     (case readBlob s (read_fault (pod_Name pod)) (pod_Name pod) fsys of
        Inl e \<Rightarrow> None
      | Inr data \<Rightarrow> decode_report unmarshal_multi unmarshal data)"

text \<open>The reports that are merged, in the order of the loops.\<close>

definition group_reports ::
  "(string \<Rightarrow> goerr + MultiSpecRunnerMetricReport) \<Rightarrow> (string \<Rightarrow> goerr + RunnerMetricReport) \<Rightarrow>
   (Handler \<Rightarrow> group_error + Pod list) \<Rightarrow> Store \<Rightarrow> (string \<Rightarrow> read_faults) \<Rightarrow> fs \<Rightarrow>
   Handler \<Rightarrow> RunnerMetricReport list" where
  "group_reports unmarshal_multi unmarshal pods_of s read_fault fsys g =
     (case pods_of g of
        Inl e \<Rightarrow> []
      | Inr pods \<Rightarrow> List.map_filter (pod_report unmarshal_multi unmarshal s read_fault fsys) pods)"

abbreviation runner_reports ::
  "(string \<Rightarrow> goerr + MultiSpecRunnerMetricReport) \<Rightarrow> (string \<Rightarrow> goerr + RunnerMetricReport) \<Rightarrow>
   (Handler \<Rightarrow> group_error + Pod list) \<Rightarrow> Store \<Rightarrow> (string \<Rightarrow> read_faults) \<Rightarrow> fs \<Rightarrow>
   Handler list \<Rightarrow> RunnerMetricReport list" where
  "runner_reports um u pods_of s rf fsys groups \<equiv>
     concat (map (group_reports um u pods_of s rf fsys) groups)"

lemma fold_add_pod:
  "fold (add_pod um u s rf fsys) pods acc =
   fold add_report (List.map_filter (pod_report um u s rf fsys) pods) acc"
  by (induction pods arbitrary: acc)
     (auto simp: add_pod_def pod_report_def List.map_filter_simps split: sum.splits option.splits)

lemma fold_add_group:
  "fold (add_group um u pods_of s rf fsys) groups acc =
   fold add_report (runner_reports um u pods_of s rf fsys groups) acc"
proof (induction groups arbitrary: acc)
  case (Cons g groups)
  have "add_group um u pods_of s rf fsys g acc =
      fold add_report (group_reports um u pods_of s rf fsys g) acc"
    by (auto simp: add_group_def group_reports_def fold_add_pod split: sum.splits)
  with Cons show ?case by simp
qed simp

lemma stat_of_Nil [simp]: "stat_of k [] = 0"
  by (simp add: stat_of_def)

lemma stat_of_Cons: "stat_of k ((e, n) # d) = (if e = k then n else 0) + stat_of k d"
  by (simp add: stat_of_def)

lemma mergeErrorStat_get:
  "wrap32 (gomap_get 0 (mergeErrorStat s d) k + c) = wrap32 (gomap_get 0 s k + stat_of k d + c)"
proof (induction d arbitrary: s c)
  case (Cons x d)
  obtain e n where x: "x = (e, n)" by (cases x)
  have "wrap32 (gomap_get 0 (AList.update e (wrap32 (gomap_get 0 s e + n)) s) k + stat_of k d + c) =
      wrap32 (gomap_get 0 s k + (if e = k then n else 0) + stat_of k d + c)"
    using wrap32_add_left [of "gomap_get 0 s e + n" "stat_of k d + c"]
    by (cases "e = k") (simp_all add: ac_simps)
  then show ?case by (simp only: x mergeErrorStat.simps Cons.IH stat_of_Cons add.assoc)
qed simp

definition stats_ok :: "int gomap \<Rightarrow> bool" where
  "stats_ok m \<longleftrightarrow> (\<forall>k. is_int32 (gomap_get 0 m k))"

lemma mergeErrorStat_ok: "stats_ok s \<Longrightarrow> stats_ok (mergeErrorStat s d)"
  by (induction s d rule: mergeErrorStat.induct) (simp_all add: stats_ok_def)

lemma push_latencies_eq:
  "is_int64 totalResp \<Longrightarrow> push_latencies (totalResp, m) ls =
   (wrap64 (totalResp + int (length (concat (map snd ls)))),
    fold (\<lambda>(u, l) m. AList.update u (gomap_get [] m u @ l) m) ls m)"
proof (induction ls arbitrary: totalResp m)
  case (Cons x ls)
  then show ?case by (cases x) (simp add: add.assoc)
qed simp

abbreviation push_urls :: "float64 list gomap \<Rightarrow> float64 list gomap \<Rightarrow> float64 list gomap" where
  "push_urls ls m \<equiv> fold (\<lambda>(u, l) m. AList.update u (gomap_get [] m u @ l) m) ls m"

lemma push_urls_get: "gomap_get [] (push_urls ls m) u = gomap_get [] m u @ url_of u ls"
  by (induction ls arbitrary: m) (auto simp: url_of_def)

lemma push_urls_keys: "fst ` set (push_urls ls m) = fst ` set m \<union> fst ` set ls"
proof (induction ls arbitrary: m)
  case (Cons x ls)
  then show ?case by (cases x) (simp add: dom_update)
qed simp

lemma push_urls_wf: "wf_gomap m \<Longrightarrow> wf_gomap (push_urls ls m)"
  by (induction ls arbitrary: m) auto

text \<open>Every sample is entered under exactly one URL.\<close>

lemma mset_update_append:
  assumes "wf_gomap m"
  shows "mset (concat (map snd (AList.update u (gomap_get [] m u @ l) m))) =
    mset (concat (map snd m)) + mset l"
proof (cases "map_of m u")
  case None
  then have "u \<notin> fst ` set m" by (simp add: map_of_eq_None_iff)
  with None show ?thesis by (simp add: update_notin gomap_get_def)
next
  case (Some w)
  from gomap_split [OF Some assms] obtain m1 m2
    where "m = m1 @ (u, w) # m2" "u \<notin> fst ` set m1" by metis
  with Some show ?thesis by (simp add: update_split gomap_get_def)
qed

lemma push_urls_mset:
  "wf_gomap m \<Longrightarrow>
   mset (concat (map snd (push_urls ls m))) = mset (concat (map snd m)) + mset (concat (map snd ls))"
proof (induction ls arbitrary: m)
  case (Cons x ls)
  obtain u l where "x = (u, l)" by (cases x)
  with Cons.IH [of "AList.update u (gomap_get [] m u @ l) m"] Cons.prems show ?case
    by (simp add: mset_update_append)
qed simp

section \<open>The merged reports\<close>

lemma ParseDuration_int64: "ParseDuration s = Inr d \<Longrightarrow> is_int64 d"
proof -
  have "is_int64 (int n)" if "\<not> 2 ^ 63 - 1 < n" for n :: nat
    using that by (simp add: is_int64_def)
  then show "ParseDuration s = Inr d \<Longrightarrow> is_int64 d"
    by (auto simp: ParseDuration_def split: if_splits sum.splits prod.splits)
qed

lemma report_duration_int64: "is_int64 (report_duration r)"
  using ParseDuration_int64 by (auto simp: report_duration_def split: sum.splits)

text \<open>What the accumulator holds after some reports.\<close>

definition acc_of :: "RunnerMetricReport list \<Rightarrow> summary_acc \<Rightarrow> bool" where
  "acc_of reps acc \<longleftrightarrow>
     acc_totalBytes acc = wrap64 (\<Sum>r\<leftarrow>reps. rep_TotalReceivedBytes r) \<and>
     acc_totalResp acc = wrap64 (int (length (all_latencies reps))) \<and>
     acc_errs acc = concat (map rep_Errors reps) \<and>
     acc_maxDuration acc = fold (\<lambda>r. max (report_duration r)) reps 0 \<and>
     (\<forall>k. gomap_get 0 (acc_errStats acc) k = wrap32 (\<Sum>r\<leftarrow>reps. stat_of k (rep_ErrorStats r))) \<and>
     (\<forall>u. gomap_get [] (acc_latenciesByURL acc) u = url_latencies u reps) \<and>
     (\<forall>u. u \<in> fst ` set (acc_latenciesByURL acc) \<longleftrightarrow> has_url u reps) \<and>
     wf_gomap (acc_latenciesByURL acc) \<and>
     mset (concat (map snd (acc_latenciesByURL acc))) = mset (all_latencies reps)"

lemma acc_of_init: "acc_of [] acc_init"
  by (simp add: acc_of_def acc_init_def all_latencies_def url_latencies_def has_url_def)

lemma merged_stat:
  assumes "\<forall>k. gomap_get 0 s k = wrap32 (x k)"
  shows "gomap_get 0 (mergeErrorStat s d) k = wrap32 (x k + stat_of k d)"
proof -
  from assms have "stats_ok s" by (simp add: stats_ok_def)
  then have "is_int32 (gomap_get 0 (mergeErrorStat s d) k)"
    using mergeErrorStat_ok by (simp add: stats_ok_def)
  then show ?thesis using mergeErrorStat_get [of s d k 0] assms by simp
qed

lemma acc_of_add:
  assumes "acc_of reps acc"
  shows "acc_of (reps @ [r]) (add_report r acc)"
proof -
  have "is_int64 (acc_totalResp acc)" using assms by (simp add: acc_of_def)
  then have push: "push_latencies (acc_totalResp acc, acc_latenciesByURL acc) (rep_LatenciesByURL r) =
      (wrap64 (acc_totalResp acc + int (length (concat (map snd (rep_LatenciesByURL r))))),
       push_urls (rep_LatenciesByURL r) (acc_latenciesByURL acc))"
    by (rule push_latencies_eq)
  have wf: "wf_gomap (acc_latenciesByURL acc)" using assms by (simp add: acc_of_def)
  have "\<forall>k. gomap_get 0 (acc_errStats acc) k = wrap32 (\<Sum>r\<leftarrow>reps. stat_of k (rep_ErrorStats r))"
    using assms by (simp add: acc_of_def)
  note stats = merged_stat [OF this, of "rep_ErrorStats r"]
  have add: "add_report r acc =
      \<lparr>acc_totalBytes = wrap64 (acc_totalBytes acc + rep_TotalReceivedBytes r),
       acc_totalResp = wrap64 (acc_totalResp acc + int (length (concat (map snd (rep_LatenciesByURL r))))),
       acc_latenciesByURL = push_urls (rep_LatenciesByURL r) (acc_latenciesByURL acc),
       acc_errs = acc_errs acc @ rep_Errors r,
       acc_errStats = mergeErrorStat (acc_errStats acc) (rep_ErrorStats r),
       acc_maxDuration = max (report_duration r) (acc_maxDuration acc)\<rparr>"
    by (simp add: add_report_def push Let_def max_def)
  show ?thesis
    using assms
    by (simp add: acc_of_def add stats push_urls_get push_urls_keys
        push_urls_wf push_urls_mset all_latencies_def url_latencies_def has_url_def Un_iff)
qed

lemma acc_of_fold: "acc_of reps (fold add_report reps acc_init)"
  by (induction reps rule: rev_induct) (simp_all add: acc_of_init acc_of_add)

definition percentiles_of :: "float64 list \<Rightarrow> percentile_list" where
  "percentiles_of ls = fst (the (BuildPercentileLatencies ls))"

lemma Build_ok:
  "length ls < 2 ^ 40 \<Longrightarrow> BuildPercentileLatencies ls = Some (percentiles_of ls, sort ls)"
  using BuildPercentileLatencies_ranks [of ls]
  by (cases "ls = []") (auto simp: percentiles_of_def BuildPercentileLatencies_def)

lemma Build_mset:
  assumes "mset xs = mset ys"
  shows "BuildPercentileLatencies xs = BuildPercentileLatencies ys"
proof -
  from assms have "sort xs = sort ys" by (metis mset_sort properties_for_sort sorted_sort)
  moreover from assms have "xs = [] \<longleftrightarrow> ys = []" by auto
  ultimately show ?thesis by (simp add: BuildPercentileLatencies_def)
qed

lemma url_percentiles_eq:
  assumes "\<forall>l \<in> snd ` set m. length l < 2 ^ 40" "wf_gomap m"
  shows "\<exists>pm'. url_percentiles (ls, pm) m = Some (ls @ concat (map snd m), pm') \<and>
    (\<forall>u. map_of pm' u = (if u \<in> fst ` set m then Some (percentiles_of (gomap_get [] m u))
                         else map_of pm u))"
  using assms
proof (induction m arbitrary: ls pm)
  case (Cons x m)
  obtain u l where x: "x = (u, l)" by (cases x)
  obtain pm' where pm': "url_percentiles (ls @ l, AList.update u (percentiles_of l) pm) m =
      Some ((ls @ l) @ concat (map snd m), pm')"
    "\<forall>v. map_of pm' v = (if v \<in> fst ` set m then Some (percentiles_of (gomap_get [] m v))
       else map_of (AList.update u (percentiles_of l) pm) v)"
    using Cons.IH [of "ls @ l" "AList.update u (percentiles_of l) pm"] Cons.prems by auto
  have "map_of pm' v = (if v \<in> fst ` set (x # m) then Some (percentiles_of (gomap_get [] (x # m) v))
      else map_of pm v)" for v
    using pm'(2) Cons.prems(2) by (cases "v = u") (auto simp: x gomap_get_def)
  with pm'(1) Cons.prems show ?case by (auto simp: x Build_ok)
qed simp

lemma sublist_length_less:
  "length (concat (map snd m)) < n \<Longrightarrow> l \<in> snd ` set m \<Longrightarrow> length l < n"
proof -
  assume n: "length (concat (map snd m)) < n" and "l \<in> snd ` set m"
  then have "length l \<in> set (map (length \<circ> snd) m)" by auto
  then have "length l \<le> sum_list (map (length \<circ> snd) m)" by (rule member_le_sum_list) simp
  with n show ?thesis by (simp add: length_concat)
qed

text \<open>The summary that merging some reports must give; the order of map entries is free.\<close>

definition merged_summary :: "RunnerMetricReport list \<Rightarrow> RunnerMetricReport \<Rightarrow> bool" where
  "merged_summary reps s \<longleftrightarrow>
     rep_Total s = int (length (all_latencies reps)) \<and>
     rep_Errors s = concat (map rep_Errors reps) \<and>
     (\<forall>k. gomap_get 0 (rep_ErrorStats s) k = wrap32 (\<Sum>r\<leftarrow>reps. stat_of k (rep_ErrorStats r))) \<and>
     rep_TotalReceivedBytes s = wrap64 (\<Sum>r\<leftarrow>reps. rep_TotalReceivedBytes r) \<and>
     ParseDuration (rep_Duration s) = Inr (fold (\<lambda>r. max (report_duration r)) reps 0) \<and>
     BuildPercentileLatencies (all_latencies reps) =
       Some (rep_PercentileLatencies s, sort (all_latencies reps)) \<and>
     (\<forall>u. map_of (rep_PercentileLatenciesByURL s) u =
        (if has_url u reps then Some (percentiles_of (url_latencies u reps)) else None))"

lemma max_duration_int64: "is_int64 m \<Longrightarrow> is_int64 (fold (\<lambda>r. max (report_duration r)) reps m)"
  by (induction reps arbitrary: m) (simp_all add: report_duration_int64 max_def)

lemma finish_summary_merged:
  assumes acc: "acc_of reps acc" and len: "length (all_latencies reps) < 2 ^ 40"
  shows "\<exists>s. finish_summary acc = Some s \<and> merged_summary reps s"
proof -
  let ?m = "acc_latenciesByURL acc"
  from acc have wf: "wf_gomap ?m"
    and mset: "mset (concat (map snd ?m)) = mset (all_latencies reps)"
    by (simp_all add: acc_of_def)
  have all: "length (concat (map snd ?m)) < 2 ^ 40" using mset len by (metis mset_eq_length)
  have "\<forall>l \<in> snd ` set ?m. length l < 2 ^ 40" using sublist_length_less [OF all] by blast
  from url_percentiles_eq [OF this wf, of "[]" "[]"] obtain pm
    where pm: "url_percentiles ([], []) ?m = Some (concat (map snd ?m), pm)"
      "\<And>u. map_of pm u = (if u \<in> fst ` set ?m then Some (percentiles_of (gomap_get [] ?m u)) else None)"
    by auto
  have B: "BuildPercentileLatencies (concat (map snd ?m)) =
      Some (percentiles_of (all_latencies reps), sort (all_latencies reps))"
    using Build_mset [OF mset] Build_ok [OF len] by simp
  have "is_int64 (int (length (all_latencies reps)))" using len by (simp add: is_int64_def)
  then have total: "acc_totalResp acc = int (length (all_latencies reps))"
    using acc by (simp add: acc_of_def)
  have dur: "is_int64 (fold (\<lambda>r. max (report_duration r)) reps 0)" by (simp add: max_duration_int64)
  show ?thesis
    using acc B pm total dur Build_ok [OF len]
    by (simp add: finish_summary_def merged_summary_def acc_of_def)
qed


section \<open>Uploads\<close>

abbreviation up_body :: "upload \<Rightarrow> string" where
  "up_body up \<equiv> concat (map fst (up_chunks up))"

lemma write_chunks_open:
  assumes "w_open w" "fsys (w_name w) = Some c" "write_chunks w cs fsys = (None, fsys')"
  shows "fsys' = fsys(w_name w \<mapsto> c @ concat (map fst cs))"
  using assms(2,3)
proof (induction cs arbitrary: fsys c)
  case (Cons d cs)
  obtain data fault where d: "d = (data, fault)" by (cases d)
  have "fault = None" and run: "write_chunks w cs (fsys(w_name w \<mapsto> c @ data)) = (None, fsys')"
    using Cons.prems assms(1)
    by (auto simp: d writer_Write_def write_error_def written_def split: option.splits)
  have "fsys' = fsys(w_name w \<mapsto> c @ data, w_name w \<mapsto> (c @ data) @ concat (map fst cs))"
    by (rule Cons.IH [OF _ run]) simp
  then show ?case by (simp only: d fun_upd_upd append_assoc concat.simps list.map fst_conv)
qed (simp add: fun_upd_idem)

lemma write_chunks_frame: "p \<noteq> w_name w \<Longrightarrow> snd (write_chunks w cs fsys) p = fsys p"
proof (induction w cs fsys rule: write_chunks.induct)
  case (2 w c fault cs fsys)
  have "snd (writer_Write fault w c fsys) p = fsys p"
    using 2(2) by (simp add: writer_Write_def split: option.splits)
  with 2 show ?case by (auto split: prod.splits option.splits)
qed simp

lemma writer_Close_frame: "p \<noteq> w_name w \<Longrightarrow> snd (snd (writer_Close fault w fsys)) p = fsys p"
  by (simp add: writer_Close_def Let_def split: option.splits)

text \<open>When the whole body has been copied, the handler stores it as one blob; otherwise no blob changes.\<close>

lemma store_result_cases:
  obtains (stored) err fsys' where
      "put_blob s (up_open_fault up, None, up_commit up, up_close_fault up) (up_rnd up) ref (up_body up) fsys =
         (err, fsys')"
      "store_result s up ref fsys = (case err of
         None \<Rightarrow> \<lparr>hr_code = 201, hr_body = NoBody\<rparr>
       | Some e \<Rightarrow> renderErrorResponse (if is_already_exists e then 409 else 500) (StoreFailed e), fsys')"
  | (failed) "hr_code (fst (store_result s up ref fsys)) = 500"
      "\<And>p. p \<noteq> path_join [ingestDir s, ''ingest-'' @ up_rnd up] \<Longrightarrow> snd (store_result s up ref fsys) p = fsys p"
proof (cases "up_open_fault up")
  case None
  define name where "name = path_join [ingestDir s, ''ingest-'' @ up_rnd up]"
  define w where "w = \<lparr>w_name = name, w_open = True\<rparr>"
  define fsys1 where "fsys1 = fsys(name \<mapsto> '''')"
  have opened: "OpenWriter s None (up_rnd up) fsys = (Inr w, fsys1)"
    by (simp add: OpenWriter_def w_def fsys1_def name_def Let_def)
  obtain err fsys2 where written: "write_chunks w (up_chunks up) fsys1 = (err, fsys2)" by fastforce
  have frame: "snd (snd (writer_Close fault w fsys2)) p = fsys p" if "p \<noteq> name" for p fault
    using that write_chunks_frame [of p w "up_chunks up" fsys1] written writer_Close_frame [of p w fault fsys2]
    by (simp add: w_def fsys1_def)
  show ?thesis
  proof (cases "err = None \<and> up_copy_err up = None")
    case True
    then have "fsys2 = fsys1(name \<mapsto> up_body up)"
      using write_chunks_open [of w fsys1 "''''" "up_chunks up" fsys2] written by (simp add: w_def fsys1_def)
    then have whole: "writer_Write None w (up_body up) fsys1 = (None, fsys2)"
      by (simp add: writer_Write_def w_def fsys1_def write_error_def written_def)
    obtain cerr w' fsys3 where commit: "writer_Commit s (up_commit up) ref w fsys2 = (cerr, w', fsys3)"
      by (cases "writer_Commit s (up_commit up) ref w fsys2")
    show ?thesis
      by (rule stored [of cerr "snd (snd (writer_Close (up_close_fault up) w' fsys3))"]; cases cerr)
         (simp_all add: store_result_def put_blob_def None True opened written whole commit Let_def)
  next
    case False
    then show ?thesis
      using frame by (intro failed)
        (auto simp: store_result_def None opened written renderErrorResponse_def Let_def name_def
          split: option.splits)
  qed
next
  case (Some e)
  then show ?thesis
    by (intro failed) (auto simp: store_result_def OpenWriter_def renderErrorResponse_def)
qed


section \<open>Order of groups\<close>

lemma mset_concat_map: "mset (concat (map f xs)) = (\<Sum>x\<in>#mset xs. mset (f x))"
  by (induction xs) simp_all

lemma sum_list_map_mset: "(\<Sum>x\<leftarrow>xs. g x) = (\<Sum>x\<in>#mset xs. (g x :: int))"
  by (induction xs) simp_all

lemma fold_max_Max: "fold (\<lambda>r. max (f r)) xs (m :: int) = Max (insert m (f ` set xs))"
proof (induction xs arbitrary: m)
  case (Cons x xs)
  have "Max (insert (max (f x) m) (f ` set xs)) = Max (insert m (insert (f x) (f ` set xs)))"
    by (cases "xs = []") (simp_all add: ac_simps)
  with Cons show ?case by simp
qed simp

lemma merged_summary_mset:
  assumes eq: "mset reps = mset reps'" and s: "merged_summary reps s" and s': "merged_summary reps' s'"
  shows "rep_Total s = rep_Total s' \<and> mset (rep_Errors s) = mset (rep_Errors s') \<and>
    gomap_get 0 (rep_ErrorStats s) = gomap_get 0 (rep_ErrorStats s') \<and>
    rep_TotalReceivedBytes s = rep_TotalReceivedBytes s' \<and>
    ParseDuration (rep_Duration s) = ParseDuration (rep_Duration s') \<and>
    rep_PercentileLatencies s = rep_PercentileLatencies s' \<and>
    map_of (rep_PercentileLatenciesByURL s) = map_of (rep_PercentileLatenciesByURL s')"
proof -
  have set: "set reps = set reps'" using eq by (rule mset_eq_setD)
  have all: "mset (all_latencies reps) = mset (all_latencies reps')"
    by (simp add: all_latencies_def mset_concat_map eq)
  have url: "percentiles_of (url_latencies u reps) = percentiles_of (url_latencies u reps')" for u
    using Build_mset [of "url_latencies u reps" "url_latencies u reps'"]
    by (simp add: url_latencies_def mset_concat_map eq percentiles_of_def)
  have has: "has_url u reps = has_url u reps'" for u by (simp add: has_url_def list_ex_iff set)
  have "rep_PercentileLatencies s = rep_PercentileLatencies s'"
    using Build_mset [OF all] s s' by (simp add: merged_summary_def)
  moreover have "mset (rep_Errors s) = mset (rep_Errors s')"
    using s s' by (simp add: merged_summary_def mset_concat_map eq)
  moreover have "gomap_get 0 (rep_ErrorStats s) = gomap_get 0 (rep_ErrorStats s')"
    using s s' by (simp add: merged_summary_def fun_eq_iff sum_list_map_mset eq)
  moreover have "map_of (rep_PercentileLatenciesByURL s) = map_of (rep_PercentileLatenciesByURL s')"
    using s s' by (simp add: merged_summary_def fun_eq_iff url has)
  moreover have "length (all_latencies reps) = length (all_latencies reps')"
    using all by (rule mset_eq_length)
  ultimately show ?thesis
    using s s' by (simp add: merged_summary_def sum_list_map_mset eq fold_max_Max set)
qed

section \<open>Properties\<close>

text \<open>C10: The summary of the runner groups merges exactly the reports that can be listed, read and
  decoded. With fewer than 2^40 latencies it never panics; its total is the number of
  latencies in these reports, its errors are theirs in order, its error statistics and
  received bytes are their sums as 32-bit and 64-bit integers, its duration is the longest of
  theirs, and its percentiles, over all and per URL, are those of the latencies of all reports
  together.\<close>

theorem summary_exact:
  assumes "length (all_latencies (runner_reports um u pods_of s rf fsys groups)) < 2 ^ 40"
  shows "\<exists>r. buildRunnerGroupSummary um u pods_of s rf fsys groups = Some r \<and>
    merged_summary (runner_reports um u pods_of s rf fsys groups) r"
  unfolding buildRunnerGroupSummary_def fold_add_group
  by (rule finish_summary_merged [OF acc_of_fold assms])

definition empty_report :: RunnerMetricReport where
  "empty_report = \<lparr>rep_Total = 0, rep_Duration = '''', rep_Errors = [], rep_ErrorStats = [],
     rep_TotalReceivedBytes = 0, rep_LatenciesByURL = [], rep_PercentileLatencies = [],
     rep_PercentileLatenciesByURL = []\<rparr>"

definition sample_reports :: "string \<Rightarrow> goerr + RunnerMetricReport" where
  "sample_reports data = Inr (empty_report\<lparr>rep_LatenciesByURL := [(data, [Fin 1, Fin 2])],
     rep_ErrorStats := [(''http/429'', 3)]\<rparr>)"

definition sample_pods :: "Handler \<Rightarrow> group_error + Pod list" where
  "sample_pods g = Inr [\<lparr>pod_Name = h_name g, pod_Labels = []\<rparr>]"

lemma sample_runner_reports:
  "runner_reports (\<lambda>_. Inl (sample_err ''x'')) sample_reports sample_pods \<lparr>dataDir = ''/d'', ingestDir = ''/i''\<rparr>
     (\<lambda>_. (None, None, None)) (\<lambda>_. Some ''u'') [sample_handler] =
   [empty_report\<lparr>rep_LatenciesByURL := [(''u'', [Fin 1, Fin 2])], rep_ErrorStats := [(''http/429'', 3)]\<rparr>]"
  by (simp add: group_reports_def sample_pods_def pod_report_def readBlob_def OpenReader_def
      decode_report_def sample_reports_def List.map_filter_simps)

theorem summary_exact_witness:
  "\<exists>r. buildRunnerGroupSummary (\<lambda>_. Inl (sample_err ''x'')) sample_reports sample_pods
     \<lparr>dataDir = ''/d'', ingestDir = ''/i''\<rparr> (\<lambda>_. (None, None, None)) (\<lambda>_. Some ''u'') [sample_handler] = Some r \<and>
     rep_Total r = 2"
  using summary_exact [of "\<lambda>_. Inl (sample_err ''x'')" sample_reports sample_pods
      "\<lparr>dataDir = ''/d'', ingestDir = ''/i''\<rparr>" "\<lambda>_. (None, None, None)" "\<lambda>_. Some ''u''" "[sample_handler]"]
  unfolding sample_runner_reports by (auto simp: all_latencies_def merged_summary_def)




lemma put_blob_conflict:
  assumes "put_blob (store_at es) faults rnd ref v fsys = (Some e, fsys')" "is_already_exists e"
    and "list_all plain_elem es" "plain_elem ref" "CHR ''/'' \<notin> set rnd"
  shows "get_blob (store_at es) ref fsys \<noteq> None"
proof -
  have "data_path es ref \<noteq> temp_path es rnd"
    using store_paths(3) [OF assms(3,4,4,5,5)] .
  moreover obtain open_fault write_fault cf close_fault
    where f: "faults = (open_fault, write_fault, cf, close_fault)" by (cases faults)
  ultimately show ?thesis
    using assms(1,2) unfolding get_blob_eq f
    by (auto simp: put_blob_def OpenWriter_def writer_Write_def writer_Commit_def commit_body_def
        is_already_exists_def write_error_def Let_def
        split: option.splits if_splits prod.splits ls_error.splits)
qed

lemma store_result_effect:
  assumes "list_all plain_elem es" "plain_elem ref" "CHR ''/'' \<notin> set (up_rnd up)"
    and run: "store_result (store_at es) up ref fsys = (resp, fsys')"
  shows "hr_code resp = 201 \<Longrightarrow> get_blob (store_at es) ref fsys = None \<and>
      get_blob (store_at es) ref fsys' = Some (up_body up)"
    and "hr_code resp = 409 \<Longrightarrow> get_blob (store_at es) ref fsys \<noteq> None"
    and "plain_elem r \<Longrightarrow> hr_code resp \<noteq> 201 \<or> r \<noteq> ref \<Longrightarrow>
      get_blob (store_at es) r fsys' = get_blob (store_at es) r fsys"
proof (atomize (full), cases rule: store_result_cases [where s = "store_at es" and up = up and ref = ref and fsys = fsys])
  case (stored err fsys'')
  then have fsys: "fsys'' = fsys'" and resp: "resp = (case err of
         None \<Rightarrow> \<lparr>hr_code = 201, hr_body = NoBody\<rparr>
       | Some e \<Rightarrow> renderErrorResponse (if is_already_exists e then 409 else 500) (StoreFailed e))"
    using run by simp_all
  note put = stored(1) [unfolded fsys]
  show "(hr_code resp = 201 \<longrightarrow> get_blob (store_at es) ref fsys = None \<and>
      get_blob (store_at es) ref fsys' = Some (up_body up)) \<and>
    (hr_code resp = 409 \<longrightarrow> get_blob (store_at es) ref fsys \<noteq> None) \<and>
    (plain_elem r \<longrightarrow> hr_code resp \<noteq> 201 \<or> r \<noteq> ref \<longrightarrow>
      get_blob (store_at es) r fsys' = get_blob (store_at es) r fsys)"
  proof (cases err)
    case None
    then show ?thesis
      using local_blobs.put_ok [OF put [unfolded None]] local_blobs.put_frame [OF put, of r] assms resp
      by simp
  next
    case (Some e)
    then show ?thesis
      using local_blobs.put_error [OF put [unfolded Some], of r] put_blob_conflict [OF put [unfolded Some]]
        assms resp
      by (simp add: renderErrorResponse_def)
  qed
next
  case failed
  have "data_path es r \<noteq> temp_path es (up_rnd up)" if "plain_elem r"
    using store_paths(3) [OF assms(1) that that assms(3,3)] .
  with failed run show "(hr_code resp = 201 \<longrightarrow> get_blob (store_at es) ref fsys = None \<and>
      get_blob (store_at es) ref fsys' = Some (up_body up)) \<and>
    (hr_code resp = 409 \<longrightarrow> get_blob (store_at es) ref fsys \<noteq> None) \<and>
    (plain_elem r \<longrightarrow> hr_code resp \<noteq> 201 \<or> r \<noteq> ref \<longrightarrow>
      get_blob (store_at es) r fsys' = get_blob (store_at es) r fsys)"
    by (auto simp: get_blob_eq)
qed

text \<open>C19: The endpoint for results stores what it acknowledges. It answers 201 only for a runner that
  a group controls and that has not reported before, and then the report is the whole body; it
  answers 409 only when the runner has reported before; and with any other answer, and for any
  other runner, no stored report changes.\<close>

theorem upload_stores_report:
  assumes "list_all plain_elem es" "plain_elem runner" "CHR ''/'' \<notin> set (up_rnd up)"
    and "postRunnerGroupsRunnerResult controlled (store_at es) groups up runner fsys = (resp, fsys')"
  shows "(hr_code resp = 201 \<longrightarrow> find_controller controlled groups runner = Inr True \<and>
      get_blob (store_at es) runner fsys = None \<and> get_blob (store_at es) runner fsys' = Some (up_body up)) \<and>
    (hr_code resp = 409 \<longrightarrow> get_blob (store_at es) runner fsys \<noteq> None) \<and>
    (plain_elem r \<longrightarrow> hr_code resp \<noteq> 201 \<or> r \<noteq> runner \<longrightarrow>
      get_blob (store_at es) r fsys' = get_blob (store_at es) r fsys)"
  using assms(4) store_result_effect [OF assms(1-3)]
  by (auto simp: postRunnerGroupsRunnerResult_def renderErrorResponse_def
      split: sum.splits bool.splits)

definition sample_upload :: upload where
  "sample_upload = \<lparr>up_chunks = [(''a'', None), (''b'', None)], up_copy_err = None, up_open_fault = None,
     up_rnd = ''1'', up_commit = \<lparr>cf_sync = None, cf_stat = None, cf_rename = None, cf_remove = None\<rparr>,
     up_close_fault = None\<rparr>"

theorem upload_stores_report_witness:
  "\<exists>fsys. postRunnerGroupsRunnerResult (\<lambda>g r. Inr True) (store_at [''var'']) [sample_handler] sample_upload
     ''g-0'' (\<lambda>_. None) = (\<lparr>hr_code = 201, hr_body = NoBody\<rparr>, fsys) \<and>
     get_blob (store_at [''var'']) ''g-0'' fsys = Some ''ab''"
proof -
  have pl: "list_all plain_elem [''var'']" "plain_elem ''g-0''" by (simp_all add: plain_elem_def)
  have "data_path [''var''] ''g-0'' \<noteq> temp_path [''var''] ''1''"
    using store_paths(3) [OF pl(1) pl(2) pl(2), of "''1''" "''1''"] by simp
  then obtain fsys where "postRunnerGroupsRunnerResult (\<lambda>g r. Inr True) (store_at [''var'']) [sample_handler]
      sample_upload ''g-0'' (\<lambda>_. None) = (\<lparr>hr_code = 201, hr_body = NoBody\<rparr>, fsys)"
    by (simp add: postRunnerGroupsRunnerResult_def store_result_def sample_upload_def OpenWriter_def
        writer_Write_def writer_Commit_def commit_body_def writer_Close_def write_error_def written_def Let_def)
  with upload_stores_report [OF pl _ this] show ?thesis
    by (auto simp: sample_upload_def)
qed

text \<open>The groups are deployed with the upload URL of the first listener that is not local: all
  listeners before it have a loopback host, it has not, and every group gets the same URL. When
  every listener is local, nothing is deployed and the server reports it.\<close>

theorem deploy_targets_non_local:
  assumes "list_all (\<lambda>a. \<exists>b. isLocalhost a = Inr b) (srv_listeners s)"
  shows "case find (\<lambda>a. isLocalhost a = Inr False) (srv_listeners s) of
      None \<Rightarrow> deployRunnerGroups deploy s order = (Some NoNonLocalAddr, [])
    | Some addr \<Rightarrow> snd (deployRunnerGroups deploy s order) =
        map (\<lambda>g. (g, ''http://'' @ addr @ ''/v1/runnergroups/$(POD_NAME)/result'')) (srv_groups s)"
proof -
  have "firstNonLocalAddr addrs = (case find (\<lambda>a. isLocalhost a = Inr False) addrs of
      None \<Rightarrow> Inl NoNonLocalAddr | Some addr \<Rightarrow> Inr addr)"
    if "list_all (\<lambda>a. \<exists>b. isLocalhost a = Inr b) addrs" for addrs
    using that by (induction addrs) (auto split: bool.splits)
  from this [OF assms] show ?thesis
    by (auto simp: deployRunnerGroups_def upload_url_def Let_def split: option.splits)
qed

lemma isLocalhost_ipv4:
  assumes "a \<le> 255" "b \<le> 255" "c \<le> 255" "d \<le> 255"
  shows "isLocalhost (str_join ''.'' (map nat_digits [a, b, c, d]) @ CHR '':'' # nat_digits port) = Inr (a = 127)"
proof -
  let ?h = "str_join ''.'' (map nat_digits [a, b, c, d])"
  have digits: "\<And>n x. x \<in> set (nat_digits n) \<Longrightarrow> is_digit x"
    using nat_digits_is_digit by (auto simp: list_all_iff)
  have nd: "\<not> is_digit CHR '':''" "\<not> is_digit CHR ''[''" "\<not> is_digit CHR '']''" "\<not> is_digit CHR ''l''"
    by (simp_all add: is_digit_def)
  have "SplitHostPort (?h @ CHR '':'' # nat_digits port) = Inr (?h, nat_digits port)"
    using digits nd by (intro SplitHostPort_plain) auto
  moreover have "?h \<noteq> ''localhost''"
    using hd_nat_digits_is_digit [of a] nd(4) by (cases "nat_digits a") auto
  moreover have "IsLoopback (ParseIP ?h) \<longleftrightarrow> a = 127"
    using ParseIP_v4 [OF assms] by (simp add: IsLoopback_def To4_def eval_nat_numeral)
  ultimately show ?thesis by (simp add: isLocalhost_def)
qed

definition sample_server :: Server where
  "sample_server = \<lparr>srv_store = store_at [''var''],
     srv_listeners = [str_join ''.'' (map nat_digits [127, 0, 0, 1]) @ CHR '':'' # nat_digits 80,
       str_join ''.'' (map nat_digits [10, 0, 0, 1]) @ CHR '':'' # nat_digits 80],
     srv_groups = [sample_handler], srv_ready = False, srv_report = None\<rparr>"

theorem deploy_targets_non_local_witness:
  "snd (deployRunnerGroups (\<lambda>g url. None) sample_server [sample_handler]) =
   [(sample_handler, ''http://'' @ (str_join ''.'' (map nat_digits [10, 0, 0, 1]) @ CHR '':'' # nat_digits 80) @
      ''/v1/runnergroups/$(POD_NAME)/result'')]"
proof -
  define l1 where "l1 = str_join ''.'' (map nat_digits [127, 0, 0, 1]) @ CHR '':'' # nat_digits 80"
  define l2 where "l2 = str_join ''.'' (map nat_digits [10, 0, 0, 1]) @ CHR '':'' # nat_digits 80"
  have l: "isLocalhost l1 = Inr True" "isLocalhost l2 = Inr False"
    unfolding l1_def l2_def by (subst isLocalhost_ipv4; simp)+
  have s: "srv_listeners sample_server = [l1, l2]" "srv_groups sample_server = [sample_handler]"
    by (simp_all add: sample_server_def l1_def l2_def)
  show ?thesis
    unfolding l2_def [symmetric]
    using deploy_targets_non_local [of sample_server "\<lambda>g url. None" "[sample_handler]"]
    by (auto simp: s l)
qed

end
