(* ===== verification/Server_Run.thy ===== *)
theory Server_Run
  imports Runner_Server
begin

text \<open>
  The runner group server in operation: requests that upload reports are served in
  parallel, each a sequence of operations on the shared store, while the goroutine that
  waits for the groups builds the summary once they have finished. The theory rests on the
  refinement of the local store: every interleaving of the operations behaves like one on
  the abstract store.
\<close>

section \<open>Upload requests in parallel\<close>

text \<open>The progress of one upload: the request has arrived; its writer is open and has received
  some data; its outcome is decided and the deferred \<^verbatim>\<open>Close\<close> is due; it has been answered.\<close>

datatype phase = Arrived | Copying nat string | Closing nat string int | Answered string int

type_synonym session = "string \<times> phase"

record serving =
  sv_store :: store_state
  sv_used :: "string list"
  sv_sessions :: "session list"
  sv_waiting :: nat
  sv_summary :: "RunnerMetricReport option option"

text \<open>What the server is started with: its store, its groups, and the answers of the API server.\<close>

record serve_env =
  se_store :: Store
  se_groups :: "Handler list"
  se_controlled :: "Handler \<Rightarrow> string \<Rightarrow> group_error + bool"
  se_unmarshal_multi :: "string \<Rightarrow> goerr + MultiSpecRunnerMetricReport"
  se_unmarshal :: "string \<Rightarrow> goerr + RunnerMetricReport"
  se_pods :: "Handler \<Rightarrow> group_error + Pod list"

definition serving_init :: "serve_env \<Rightarrow> serving" where
  "serving_init env =
     \<lparr>sv_store = \<lparr>files = (\<lambda>_. None), writers = []\<rparr>, sv_used = [], sv_sessions = [],
      sv_waiting = length (se_groups env), sv_summary = None\<rparr>"

definition set_phase :: "nat \<Rightarrow> phase \<Rightarrow> serving \<Rightarrow> serving" where
  "set_phase j ph st =
     st\<lparr>sv_sessions := (sv_sessions st)[j := (fst (sv_sessions st ! j), ph)]\<rparr>"

definition commit_code :: "store_out \<Rightarrow> int" where
  "commit_code out =
     (case out of Ok \<Rightarrow> 201 | Failed e \<Rightarrow> (if is_already_exists e then 409 else 500) | _ \<Rightarrow> 500)"

text \<open>One step of the server. The router only matches a path segment as the name of the runner.
  \<^verbatim>\<open>os.CreateTemp\<close> draws random names until one is unused. The summary is built when the
  last group has finished.\<close>

inductive serve_step :: "serve_env \<Rightarrow> serving \<Rightarrow> serving \<Rightarrow> bool" for env where
  arrive: "plain_elem runner \<Longrightarrow>
    serve_step env st (st\<lparr>sv_sessions := sv_sessions st @ [(runner, Arrived)]\<rparr>)"
| refuse: "\<lbrakk>j < length (sv_sessions st); sv_sessions st ! j = (runner, Arrived);
     find_controller (se_controlled env) (se_groups env) runner = res; res \<noteq> Inr True\<rbrakk> \<Longrightarrow>
    serve_step env st
      (set_phase j (Answered '''' (case res of Inl e \<Rightarrow> 500 | Inr b \<Rightarrow> 404)) st)"
| open_writer: "\<lbrakk>j < length (sv_sessions st); sv_sessions st ! j = (runner, Arrived);
     find_controller (se_controlled env) (se_groups env) runner = Inr True;
     CHR ''/'' \<notin> set rnd; rnd \<notin> set (sv_used st);
     exec_op (se_store env) (OpOpen fault rnd) (sv_store st) = (out, store')\<rbrakk> \<Longrightarrow>
    serve_step env st
      (set_phase j (if out = Ok then Copying (length (writers (sv_store st))) '''' else Answered '''' 500)
        (st\<lparr>sv_store := store', sv_used := sv_used st @ op_names [OpOpen fault rnd]\<rparr>))"
| copy: "\<lbrakk>j < length (sv_sessions st); sv_sessions st ! j = (runner, Copying i data);
     exec_op (se_store env) (OpWrite i fault chunk) (sv_store st) = (out, store')\<rbrakk> \<Longrightarrow>
    serve_step env st
      (set_phase j (if out = Ok then Copying i (data @ chunk) else Closing i data 500)
        (st\<lparr>sv_store := store'\<rparr>))"
| body_error: "\<lbrakk>j < length (sv_sessions st); sv_sessions st ! j = (runner, Copying i data)\<rbrakk> \<Longrightarrow>
    serve_step env st (set_phase j (Closing i data 500) st)"
| commit: "\<lbrakk>j < length (sv_sessions st); sv_sessions st ! j = (runner, Copying i data);
     exec_op (se_store env) (OpCommit i cf runner) (sv_store st) = (out, store')\<rbrakk> \<Longrightarrow>
    serve_step env st
      (set_phase j (Closing i data (commit_code out)) (st\<lparr>sv_store := store'\<rparr>))"
| answer: "\<lbrakk>j < length (sv_sessions st); sv_sessions st ! j = (runner, Closing i data code);
     exec_op (se_store env) (OpClose i fault) (sv_store st) = (out, store')\<rbrakk> \<Longrightarrow>
    serve_step env st (set_phase j (Answered data code) (st\<lparr>sv_store := store'\<rparr>))"
| group_finished: "0 < sv_waiting st \<Longrightarrow>
    serve_step env st (st\<lparr>sv_waiting := sv_waiting st - 1\<rparr>)"
| summarize: "\<lbrakk>sv_waiting st = 0; sv_summary st = None\<rbrakk> \<Longrightarrow>
    serve_step env st (st\<lparr>sv_summary := Some (buildRunnerGroupSummary (se_unmarshal_multi env)
      (se_unmarshal env) (se_pods env) (se_store env) (\<lambda>_. (None, None, None))
      (files (sv_store st)) (se_groups env))\<rparr>)"

inductive serve_reach :: "serve_env \<Rightarrow> serving \<Rightarrow> bool" for env where
  start: "serve_reach env (serving_init env)"
| step: "serve_reach env st \<Longrightarrow> serve_step env st st' \<Longrightarrow> serve_reach env st'"

section \<open>Acknowledged reports\<close>

text \<open>The body of an upload that is or will be answered with 201.\<close>

definition acked :: "string \<Rightarrow> session \<Rightarrow> string option" where
  "acked r = (\<lambda>(runner, ph).
     if runner \<noteq> r then None
     else case ph of Closing i d c \<Rightarrow> if c = 201 then Some d else None
       | Answered d c \<Rightarrow> if c = 201 then Some d else None | _ \<Rightarrow> None)"

definition acked_bodies :: "string \<Rightarrow> serving \<Rightarrow> string list" where
  "acked_bodies r st = List.map_filter (acked r) (sv_sessions st)"

text \<open>The writer that a session uses.\<close>

fun writer_of :: "session \<Rightarrow> nat option" where
  "writer_of (r, Copying i d) = Some i"
| "writer_of (r, Closing i d c) = Some i"
| "writer_of _ = None"

definition serving_inv :: "string list \<Rightarrow> serving \<Rightarrow> abs_store \<Rightarrow> bool" where
  "serving_inv es st a \<longleftrightarrow>
     store_rel es (sv_used st) (sv_store st) a \<and>
     (\<forall>r. acked_bodies r st = (case blobs a r of None \<Rightarrow> [] | Some d \<Rightarrow> [d])) \<and>
     (\<forall>j < length (sv_sessions st). plain_elem (fst (sv_sessions st ! j))) \<and>
     (\<forall>j < length (sv_sessions st). \<forall>i. writer_of (sv_sessions st ! j) = Some i \<longrightarrow> i < length (sv_used st)) \<and>
     (\<forall>j < length (sv_sessions st). \<forall>i d. snd (sv_sessions st ! j) = Copying i d \<longrightarrow>
        pending a ! i = (Some d, True)) \<and>
     (\<forall>j < length (sv_sessions st). \<forall>k < length (sv_sessions st).
        writer_of (sv_sessions st ! j) \<noteq> None \<longrightarrow>
        writer_of (sv_sessions st ! j) = writer_of (sv_sessions st ! k) \<longrightarrow> j = k)"

lemma map_filter_update_same:
  "j < length xs \<Longrightarrow> f (xs ! j) = f y \<Longrightarrow> List.map_filter f (xs[j := y]) = List.map_filter f xs"
  by (induction xs arbitrary: j)
     (auto simp: List.map_filter_simps nth_Cons split: nat.splits option.splits)

lemma map_filter_update_new:
  "j < length xs \<Longrightarrow> List.map_filter f xs = [] \<Longrightarrow> f y = Some d \<Longrightarrow> List.map_filter f (xs[j := y]) = [d]"
  by (induction xs arbitrary: j)
     (auto simp: List.map_filter_simps nth_Cons split: nat.splits option.splits)

lemma acked_bodies_same:
  assumes "j < length (sv_sessions st)" "sv_sessions st ! j = (runner, ph)" "acked r (runner, ph) = acked r (runner, ph')"
    "sv_sessions st' = sv_sessions st"
  shows "acked_bodies r (set_phase j ph' st') = acked_bodies r st"
  using map_filter_update_same [of j "sv_sessions st" "acked r" "(runner, ph')"] assms
  by (simp add: acked_bodies_def set_phase_def)

lemma serving_invD:
  assumes "serving_inv es st a"
  shows "store_rel es (sv_used st) (sv_store st) a"
    "acked_bodies r st = (case blobs a r of None \<Rightarrow> [] | Some d \<Rightarrow> [d])"
    "j < length (sv_sessions st) \<Longrightarrow> plain_elem (fst (sv_sessions st ! j))"
    "j < length (sv_sessions st) \<Longrightarrow> sv_sessions st ! j = (runner, Copying i d) \<Longrightarrow>
      i < length (sv_used st) \<and> pending a ! i = (Some d, True)"
    "j < length (sv_sessions st) \<Longrightarrow> sv_sessions st ! j = (runner, Closing i d c) \<Longrightarrow> i < length (sv_used st)"
  using assms unfolding serving_inv_def by (blast, blast, blast, force, force)

text \<open>A step of session \<open>j\<close> keeps the invariant when it only touches the writer of that session.\<close>

lemma serving_inv_step:
  assumes inv: "serving_inv es st a" and j: "j < length (sv_sessions st)" "sv_sessions st ! j = (runner, old)"
    and rel: "store_rel es (sv_used st @ new) store' a'"
    and writer: "writer_of (runner, ph) \<in> {None, writer_of (runner, old), Some (length (sv_used st))}"
      "writer_of (runner, ph) = Some (length (sv_used st)) \<Longrightarrow> new \<noteq> []"
    and frame: "\<And>i. i < length (sv_used st) \<Longrightarrow> writer_of (runner, old) \<noteq> Some i \<Longrightarrow> pending a' ! i = pending a ! i"
    and own: "\<And>i d. ph = Copying i d \<Longrightarrow> pending a' ! i = (Some d, True)"
    and acks: "\<And>r. acked_bodies r (set_phase j ph st) = (case blobs a' r of None \<Rightarrow> [] | Some d \<Rightarrow> [d])"
  shows "serving_inv es (set_phase j ph (st\<lparr>sv_store := store', sv_used := sv_used st @ new\<rparr>)) a'"
proof -
  let ?ss = "sv_sessions st" and ?ss' = "(sv_sessions st)[j := (runner, ph)]"
  have nth: "?ss' ! k = (if k = j then (runner, ph) else ?ss ! k)" if "k < length ?ss" for k
    using that by (simp add: nth_list_update)
  have bound: "i < length (sv_used st)" if "k < length ?ss" "writer_of (?ss ! k) = Some i" for k i
    using inv that unfolding serving_inv_def by blast
  have uniq: "k = l" if "k < length ?ss" "l < length ?ss" "writer_of (?ss ! k) = Some i"
    "writer_of (?ss ! l) = Some i" for k l i
    using inv that unfolding serving_inv_def by (metis option.discI)
  have bound': "i < length (sv_used st @ new)" if "k < length ?ss" "writer_of (?ss' ! k) = Some i" for k i
    using that writer bound [of k i] bound [of j i] j nth [of k] by (cases "k = j") auto
  have copying: "pending a' ! i = (Some d, True)"
    if "k < length ?ss" "snd (?ss' ! k) = Copying i d" for k i d
  proof (cases "k = j")
    case True
    with that own j show ?thesis by simp
  next
    case False
    then have ssk: "?ss ! k = (fst (?ss ! k), Copying i d)"
      using that by (cases "?ss ! k") simp
    then have w: "writer_of (?ss ! k) = Some i" by (metis writer_of.simps(1))
    have "writer_of (runner, old) \<noteq> Some i" using uniq [of k j i] w that(1) j False by auto
    then have "pending a' ! i = pending a ! i" using frame bound [OF that(1) w] by blast
    with serving_invD(4) [OF inv that(1) ssk] show ?thesis by simp
  qed
  have uniq': "k = l" if kl: "k < length ?ss" "l < length ?ss" "writer_of (?ss' ! k) \<noteq> None"
    "writer_of (?ss' ! k) = writer_of (?ss' ! l)" for k l
  proof -
    obtain i where i: "writer_of (?ss' ! k) = Some i" "writer_of (?ss' ! l) = Some i" using kl by auto
    have "i \<noteq> length (sv_used st)" if "m < length ?ss" "m \<noteq> j" "writer_of (?ss' ! m) = Some i" for m
      using bound [of m i] nth [of m] that by auto
    with i kl(1,2) nth writer(1) j uniq [of k l i] uniq [of k j i] uniq [of j l i] show ?thesis
      by (cases "k = j"; cases "l = j") auto
  qed
  have plain: "plain_elem (fst (?ss' ! k))" if "k < length ?ss" for k
    using serving_invD(3) [OF inv] that j nth by (cases "k = j") (auto dest: serving_invD(3) [OF inv])
  have eqs: "sv_sessions (set_phase j ph (st\<lparr>sv_store := store', sv_used := sv_used st @ new\<rparr>)) = ?ss'"
    "acked_bodies r (set_phase j ph (st\<lparr>sv_store := store', sv_used := sv_used st @ new\<rparr>)) =
      acked_bodies r (set_phase j ph st)"
    "sv_used (set_phase j ph (st\<lparr>sv_store := store', sv_used := sv_used st @ new\<rparr>)) = sv_used st @ new"
    "sv_store (set_phase j ph (st\<lparr>sv_store := store', sv_used := sv_used st @ new\<rparr>)) = store'" for r
    using j by (simp_all add: set_phase_def acked_bodies_def)
  show ?thesis
    unfolding serving_inv_def eqs length_list_update
    by (intro conjI allI impI)
       (fact rel, fact acks, rule plain, assumption, rule bound', assumption+, rule copying, assumption+,
        rule uniq', assumption+)
qed


lemma serving_inv_op:
  assumes inv: "serving_inv es st a" and j: "j < length (sv_sessions st)" "sv_sessions st ! j = (runner, old)"
    and run: "exec_op (store_at es) x (sv_store st) = (out, store')"
    and pl: "op_plain x" "set (op_names [x]) \<inter> set (sv_used st) = {}"
    and abs: "abs_op x a = (out, a') \<Longrightarrow>
      writer_of (runner, ph) \<in> {None, writer_of (runner, old), Some (length (sv_used st))} \<and>
      (writer_of (runner, ph) = Some (length (sv_used st)) \<longrightarrow> op_names [x] \<noteq> []) \<and>
      (\<forall>i < length (sv_used st). writer_of (runner, old) \<noteq> Some i \<longrightarrow> pending a' ! i = pending a ! i) \<and>
      (\<forall>i d. ph = Copying i d \<longrightarrow> pending a' ! i = (Some d, True)) \<and>
      (\<forall>r. acked_bodies r (set_phase j ph st) = (case blobs a' r of None \<Rightarrow> [] | Some d \<Rightarrow> [d]))"
    and a': "a' = snd (abs_op x a)"
  shows "serving_inv es (set_phase j ph (st\<lparr>sv_store := store', sv_used := sv_used st @ op_names [x]\<rparr>)) a'"
proof -
  obtain out' where abs': "abs_op x a = (out', a')" using a' by (cases "abs_op x a") simp
  from exec_op_refines [OF serving_invD(1) [OF inv] pl run abs']
  have "out = out'" "store_rel es (sv_used st @ op_names [x]) store' a'" by simp_all
  with abs abs' show ?thesis by (intro serving_inv_step [OF inv j]) auto
qed

lemma op_names_simps [simp]:
  "op_names [OpOpen None rnd] = [rnd]" "op_names [OpOpen (Some e) rnd] = []"
  "op_names [OpWrite i f d] = []" "op_names [OpClose i g] = []" "op_names [OpCommit i cf ref] = []"
  by (simp_all add: op_names_def)

lemma pending_length: "serving_inv es st a \<Longrightarrow> length (pending a) = length (sv_used st)"
  by (simp add: serving_inv_def store_rel_def)

lemma writers_length: "serving_inv es st a \<Longrightarrow> length (writers (sv_store st)) = length (sv_used st)"
  by (simp add: serving_inv_def store_rel_def)

lemma open_inv:
  assumes inv: "serving_inv es st a" and j: "j < length (sv_sessions st)" "sv_sessions st ! j = (runner, Arrived)"
    and rnd: "CHR ''/'' \<notin> set rnd" "rnd \<notin> set (sv_used st)"
    and run: "exec_op (store_at es) (OpOpen fault rnd) (sv_store st) = (out, store')"
  shows "\<exists>a'. serving_inv es (set_phase j (if out = Ok then Copying (length (writers (sv_store st))) '''' else Answered '''' 500)
        (st\<lparr>sv_store := store', sv_used := sv_used st @ op_names [OpOpen fault rnd]\<rparr>)) a'"
proof -
  have same: "acked_bodies r (set_phase j ph st) = acked_bodies r st"
    if "ph \<in> {Copying i d, Answered '''' 500}" for r ph i d
    using that by (intro acked_bodies_same [OF j]) (auto simp: acked_def)
  show ?thesis
    by (rule exI, rule serving_inv_op [OF inv j run _ _ _ refl])
       (use rnd serving_invD(2) [OF inv] pending_length [OF inv] writers_length [OF inv] in
        \<open>auto simp: abs_op_def same op_names_def nth_append split: option.splits\<close>)
qed

lemma copy_inv:
  assumes inv: "serving_inv es st a" and j: "j < length (sv_sessions st)" "sv_sessions st ! j = (runner, Copying i data)"
    and run: "exec_op (store_at es) (OpWrite i fault chunk) (sv_store st) = (out, store')"
  shows "\<exists>a'. serving_inv es (set_phase j (if out = Ok then Copying i (data @ chunk) else Closing i data 500)
        (st\<lparr>sv_store := store', sv_used := sv_used st @ op_names [OpWrite i fault chunk]\<rparr>)) a'"
proof -
  note p = serving_invD(4) [OF inv j]
  have same: "acked_bodies r (set_phase j ph st) = acked_bodies r st"
    if "ph \<in> {Copying i d, Closing i data 500}" for r ph d
    using that by (intro acked_bodies_same [OF j]) (auto simp: acked_def)
  show ?thesis
    by (rule exI, rule serving_inv_op [OF inv j run _ _ _ refl])
       (use p serving_invD(2) [OF inv] pending_length [OF inv] in
        \<open>auto simp: abs_op_def same write_error_def written_def split: option.splits\<close>)
qed

lemma commit_inv:
  assumes inv: "serving_inv es st a" and j: "j < length (sv_sessions st)" "sv_sessions st ! j = (runner, Copying i data)"
    and run: "exec_op (store_at es) (OpCommit i cf runner) (sv_store st) = (out, store')"
  shows "\<exists>a'. serving_inv es (set_phase j (Closing i data (commit_code out))
        (st\<lparr>sv_store := store', sv_used := sv_used st @ op_names [OpCommit i cf runner]\<rparr>)) a'"
proof -
  note p = serving_invD(4) [OF inv j]
  have pl: "plain_elem runner" using serving_invD(3) [OF inv j(1)] j(2) by simp
  have same: "acked_bodies r (set_phase j (Closing i data c) st) = acked_bodies r st"
    if "c \<noteq> 201 \<or> r \<noteq> runner" for r c
    using that by (intro acked_bodies_same [OF j]) (auto simp: acked_def)
  have new: "acked_bodies runner (set_phase j (Closing i data 201) st) = [data]" if "blobs a runner = None"
    using map_filter_update_new [OF j(1), of "acked runner" "(runner, Closing i data 201)" data]
      serving_invD(2) [OF inv, of runner] that j
    by (simp add: acked_bodies_def set_phase_def acked_def)
  have code: "commit_code (Failed e) \<noteq> 201" for e by (simp add: commit_code_def)
  show ?thesis
  proof (cases "blobs a runner = None \<and> cf_sync cf = None \<and> cf_stat cf = None \<and> cf_rename cf = None")
    case True
    then have "abs_op (OpCommit i cf runner) a = (Ok, a\<lparr>blobs := (blobs a)(runner \<mapsto> data),
        pending := (pending a)[i := (None, False)]\<rparr>)"
      using p pending_length [OF inv] by (simp add: abs_op_def abs_commit_def)
    note abs = this
    show ?thesis
      by (rule exI, rule serving_inv_op [OF inv j run _ _ _ refl])
         (use abs p pl serving_invD(2) [OF inv] pending_length [OF inv] new True in
          \<open>auto simp: commit_code_def same\<close>)
  next
    case False
    then obtain e a' where abs: "abs_op (OpCommit i cf runner) a = (Failed e, a')" "blobs a' = blobs a"
      "\<forall>k. k \<noteq> i \<longrightarrow> pending a' ! k = pending a ! k"
      using p pending_length [OF inv]
      by (auto simp: abs_op_def abs_commit_def abs_close_def split: option.splits if_splits)
    show ?thesis
      by (rule exI, rule serving_inv_op [OF inv j run _ _ _ refl])
         (use abs p pl serving_invD(2) [OF inv] code in \<open>auto simp: same\<close>)
  qed
qed

lemma abs_close_frame:
  "blobs (snd (abs_close i fault a)) = blobs a"
  "k \<noteq> i \<Longrightarrow> pending (snd (abs_close i fault a)) ! k = pending a ! k"
  by (simp_all add: abs_close_def split: option.splits prod.splits)

lemma answer_inv:
  assumes inv: "serving_inv es st a" and j: "j < length (sv_sessions st)" "sv_sessions st ! j = (runner, Closing i data code)"
    and run: "exec_op (store_at es) (OpClose i fault) (sv_store st) = (out, store')"
  shows "\<exists>a'. serving_inv es (set_phase j (Answered data code)
        (st\<lparr>sv_store := store', sv_used := sv_used st @ op_names [OpClose i fault]\<rparr>)) a'"
proof -
  note p = serving_invD(5) [OF inv j]
  have same: "acked_bodies r (set_phase j (Answered data code) st) = acked_bodies r st" for r
    by (intro acked_bodies_same [OF j]) (auto simp: acked_def)
  obtain out' a' where abs: "abs_op (OpClose i fault) a = (out', a')" "blobs a' = blobs a"
      "\<forall>k. k \<noteq> i \<longrightarrow> pending a' ! k = pending a ! k"
    using p pending_length [OF inv] abs_close_frame(1) [of i fault a]
      abs_close_frame(2) [of _ i fault a]
    by (cases "abs_close i fault a") (simp add: abs_op_def)
  show ?thesis
    by (rule exI, rule serving_inv_op [OF inv j run _ _ _ refl])
       (use abs serving_invD(2) [OF inv] in \<open>auto simp: same\<close>)
qed

section \<open>Reachable states\<close>

lemma serving_inv_init: "list_all plain_elem es \<Longrightarrow> serving_inv es (serving_init env) \<lparr>blobs = (\<lambda>_. None), pending = []\<rparr>"
  using store_rel_init [of es]
  by (simp add: serving_inv_def serving_init_def acked_bodies_def List.map_filter_simps)

lemma local_inv:
  assumes inv: "serving_inv es st a" and j: "j < length (sv_sessions st)" "sv_sessions st ! j = (runner, old)"
    and ph: "writer_of (runner, ph) \<in> {None, writer_of (runner, old)}" "\<forall>i d. ph \<noteq> Copying i d"
      "\<forall>r. acked r (runner, ph) = acked r (runner, old)"
  shows "serving_inv es (set_phase j ph st) a"
proof -
  have bound: "writer_of (runner, old) = Some i \<Longrightarrow> i < length (sv_used st)" for i
    using inv j unfolding serving_inv_def by metis
  have acks: "acked_bodies r (set_phase j ph st) = acked_bodies r st" for r
    using ph(3) by (intro acked_bodies_same [OF j]) simp_all
  have "serving_inv es (set_phase j ph (st\<lparr>sv_store := sv_store st, sv_used := sv_used st @ []\<rparr>)) a"
  proof (rule serving_inv_step [OF inv j])
    show "store_rel es (sv_used st @ []) (sv_store st) a" using serving_invD(1) [OF inv] by simp
  qed (use ph bound [of "length (sv_used st)"] acks serving_invD(2) [OF inv] in \<open>auto dest: sym\<close>)
  then show ?thesis by simp
qed

lemma serve_step_inv:
  assumes "serve_step env st st'" "se_store env = store_at es" "serving_inv es st a"
  shows "\<exists>a'. serving_inv es st' a'"
  using assms
proof (induction rule: serve_step.induct)
  case (arrive runner st)
  have "serving_inv es (st\<lparr>sv_sessions := sv_sessions st @ [(runner, Arrived)]\<rparr>) a"
    using arrive unfolding serving_inv_def
    by (auto simp: acked_bodies_def acked_def map_filter_def nth_append less_Suc_eq)
  then show ?case by blast
next
  case (refuse j st runner res)
  then have "serving_inv es (set_phase j (Answered '''' (case res of Inl e \<Rightarrow> 500 | Inr b \<Rightarrow> 404)) st) a"
    by (intro local_inv) (auto simp: acked_def split: sum.splits)
  then show ?case by blast
next
  case (open_writer j st runner rnd fault out store')
  then show ?case using open_inv by metis
next
  case (copy j st runner i data fault chunk out store')
  then show ?case using copy_inv [of es st a j runner i data fault chunk out store'] by simp
next
  case (body_error j st runner i data)
  then have "serving_inv es (set_phase j (Closing i data 500) st) a"
    by (intro local_inv) (auto simp: acked_def)
  then show ?case by blast
next
  case (commit j st runner i data cf out store')
  then show ?case using commit_inv [of es st a j runner i data cf out store'] by simp
next
  case (answer j st runner i data code fault out store')
  then show ?case using answer_inv [of es st a j runner i data code fault out store'] by simp
next
  case (group_finished st)
  then show ?case by (auto simp: serving_inv_def acked_bodies_def)
next
  case (summarize st)
  then show ?case by (auto simp: serving_inv_def acked_bodies_def)
qed

lemma serve_reach_inv:
  assumes "serve_reach env st" "se_store env = store_at es" "list_all plain_elem es"
  shows "\<exists>a. serving_inv es st a"
  using assms
proof (induction rule: serve_reach.induct)
  case start
  then show ?case using serving_inv_init by blast
next
  case (step st st')
  then show ?case using serve_step_inv by blast
qed

definition acked_view :: "serving \<Rightarrow> string \<Rightarrow> string option" where
  "acked_view st r = (case acked_bodies r st of [] \<Rightarrow> None | d # _ \<Rightarrow> Some d)"

lemma acked_view_blobs: "serving_inv es st a \<Longrightarrow> acked_view st r = blobs a r"
  by (simp add: acked_view_def serving_inv_def split: option.splits)

lemma acked_view_get_blob:
  "serving_inv es st a \<Longrightarrow> plain_elem r \<Longrightarrow> get_blob (store_at es) r (files (sv_store st)) = acked_view st r"
  by (simp add: acked_view_blobs get_blob_eq) (simp add: serving_inv_def store_rel_def)

lemma acked_bodies_view: "serving_inv es st a \<Longrightarrow> acked_bodies r st = (case acked_view st r of None \<Rightarrow> [] | Some d \<Rightarrow> [d])"
  by (simp add: acked_view_blobs) (simp add: serving_inv_def)

text \<open>An acknowledgement is never taken back.\<close>

lemma map_filter_update_subset:
  "j < length xs \<Longrightarrow> (\<And>d. f (xs ! j) = Some d \<Longrightarrow> f y = Some d) \<Longrightarrow>
   set (List.map_filter f xs) \<subseteq> set (List.map_filter f (xs[j := y]))"
proof -
  assume j: "j < length xs" and keep: "\<And>d. f (xs ! j) = Some d \<Longrightarrow> f y = Some d"
  show ?thesis
  proof
    fix d assume "d \<in> set (List.map_filter f xs)"
    then obtain k where "k < length xs" "f (xs ! k) = Some d"
      by (auto simp: List.map_filter_def in_set_conv_nth)
    with keep have "f (xs[j := y] ! k) = Some d" by (cases "k = j") simp_all
    with \<open>k < length xs\<close> show "d \<in> set (List.map_filter f (xs[j := y]))"
      by (force simp: List.map_filter_def in_set_conv_nth)
  qed
qed

lemma set_phase_keeps_acks:
  assumes "j < length (sv_sessions st)" "sv_sessions st ! j = (runner, old)"
    "\<And>d. acked r (runner, old) = Some d \<Longrightarrow> acked r (runner, ph) = Some d" "sv_sessions st' = sv_sessions st"
  shows "set (acked_bodies r st) \<subseteq> set (acked_bodies r (set_phase j ph st'))"
  using map_filter_update_subset [of j "sv_sessions st" "acked r" "(runner, ph)"] assms
  by (simp add: acked_bodies_def set_phase_def)

lemma serve_step_keeps_acks:
  assumes "serve_step env st st'"
  shows "set (acked_bodies r st) \<subseteq> set (acked_bodies r st')"
  using assms
proof (induction rule: serve_step.induct)
  case (arrive runner st)
  then show ?case by (auto simp: acked_bodies_def List.map_filter_def)
next
  case (group_finished st)
  then show ?case by (simp add: acked_bodies_def)
next
  case (summarize st)
  then show ?case by (simp add: acked_bodies_def)
qed (rule set_phase_keeps_acks, assumption, assumption, force simp: acked_def split: if_splits, simp)+


section \<open>The summary\<close>

text \<open>The reports of the listed pods, as far as a view of the acknowledged bodies knows them.\<close>

definition view_reports :: "serve_env \<Rightarrow> (string \<Rightarrow> string option) \<Rightarrow> RunnerMetricReport list" where
  "view_reports env view =
     concat (map (\<lambda>g. case se_pods env g of
         Inl e \<Rightarrow> []
       | Inr pods \<Rightarrow> List.map_filter
           (\<lambda>pod. Option.bind (view (pod_Name pod)) (decode_report (se_unmarshal_multi env) (se_unmarshal env)))
           pods) (se_groups env))"

definition pods_plain :: "serve_env \<Rightarrow> bool" where
  "pods_plain env \<longleftrightarrow> (\<forall>g pods. se_pods env g = Inr pods \<longrightarrow> list_all (\<lambda>pod. plain_elem (pod_Name pod)) pods)"

lemma readBlob_get_blob:
  "readBlob s (None, None, None) ref fsys =
   (case get_blob s ref fsys of Some d \<Rightarrow> Inr d | None \<Rightarrow> Inl (ReadStore (NoSuchRef ref)))"
  by (simp add: readBlob_def get_blob_def OpenReader_def Let_def split: option.splits)

lemma map_filter_cong: "(\<And>x. x \<in> set xs \<Longrightarrow> f x = g x) \<Longrightarrow> List.map_filter f xs = List.map_filter g xs"
  by (induction xs) (auto simp: List.map_filter_simps split: option.splits)

lemma runner_reports_view:
  assumes "serving_inv es st a" "pods_plain env"
  shows "runner_reports (se_unmarshal_multi env) (se_unmarshal env) (se_pods env) (store_at es)
      (\<lambda>_. (None, None, None)) (files (sv_store st)) (se_groups env) = view_reports env (acked_view st)"
proof -
  have "pod_report (se_unmarshal_multi env) (se_unmarshal env) (store_at es) (\<lambda>_. (None, None, None))
      (files (sv_store st)) pod =
    Option.bind (acked_view st (pod_Name pod)) (decode_report (se_unmarshal_multi env) (se_unmarshal env))"
    if "plain_elem (pod_Name pod)" for pod
    using acked_view_get_blob [OF assms(1) that]
    by (auto simp: pod_report_def readBlob_get_blob split: option.splits)
  then have "group_reports (se_unmarshal_multi env) (se_unmarshal env) (se_pods env) (store_at es)
      (\<lambda>_. (None, None, None)) (files (sv_store st)) g =
    (case se_pods env g of
         Inl e \<Rightarrow> []
       | Inr pods \<Rightarrow> List.map_filter
           (\<lambda>pod. Option.bind (acked_view st (pod_Name pod))
              (decode_report (se_unmarshal_multi env) (se_unmarshal env))) pods)" for g
    using assms(2) unfolding group_reports_def pods_plain_def
    by (auto simp: list_all_iff intro!: map_filter_cong split: sum.splits)
  then show ?thesis
    unfolding view_reports_def by (intro arg_cong [of _ _ concat] map_cong refl)
qed

inductive_cases serve_stepE: "serve_step env st st'"

lemma serve_step_summary:
  assumes "serve_step env st st'"
  shows "sv_summary st' = sv_summary st \<or>
    (sv_waiting st = 0 \<and> sv_summary st = None \<and>
     sv_summary st' = Some (buildRunnerGroupSummary (se_unmarshal_multi env) (se_unmarshal env) (se_pods env)
       (se_store env) (\<lambda>_. (None, None, None)) (files (sv_store st)) (se_groups env)))"
  using assms by (auto elim!: serve_stepE simp: set_phase_def)

lemma acked_view_mono:
  assumes "serve_step env st st'" "serving_inv es st a" "serving_inv es st' a'" "acked_view st r = Some d"
  shows "acked_view st' r = Some d"
proof -
  have "d \<in> set (acked_bodies r st)" using assms(4) by (auto simp: acked_view_def split: list.splits)
  then have "d \<in> set (acked_bodies r st')" using serve_step_keeps_acks [OF assms(1)] by blast
  then show ?thesis using acked_bodies_view [OF assms(3), of r] by (auto split: option.splits)
qed

section \<open>Properties\<close>

text \<open>C5: However the uploads of runners, the failures of the operating system and the end of the
  groups interleave, every runner is acknowledged at most once, and the report stored for a
  runner is the body that was acknowledged, or absent when none was: a retried or duplicated
  upload neither replaces a report nor mixes with another one.\<close>

theorem one_report_per_runner:
  assumes "serve_reach env st" "se_store env = store_at es" "list_all plain_elem es" "plain_elem r"
  shows "acked_bodies r st = (case get_blob (store_at es) r (files (sv_store st)) of None \<Rightarrow> [] | Some d \<Rightarrow> [d])"
proof -
  from serve_reach_inv [OF assms(1-3)] obtain a where inv: "serving_inv es st a" by blast
  show ?thesis using acked_bodies_view [OF inv, of r] acked_view_get_blob [OF inv assms(4)] by simp
qed

definition sample_serve_env :: serve_env where
  "sample_serve_env =
     \<lparr>se_store = store_at [''var''], se_groups = [sample_handler], se_controlled = (\<lambda>g r. Inr True),
      se_unmarshal_multi = (\<lambda>_. Inl (sample_err ''x'')), se_unmarshal = sample_reports,
      se_pods = (\<lambda>g. Inr [\<lparr>pod_Name = ''g-0'', pod_Labels = []\<rparr>])\<rparr>"

text \<open>A run in which a runner uploads its report.\<close>

lemma sample_upload_reach:
  "\<exists>st. serve_reach sample_serve_env st \<and> sv_sessions st = [(''g-0'', Closing 0 ''ab'' 201)]"
proof -
  let ?env = sample_serve_env and ?s0 = "serving_init sample_serve_env"
  let ?cf = "\<lparr>cf_sync = None, cf_stat = None, cf_rename = None, cf_remove = None\<rparr>"
  let ?ops = "[OpOpen None ''1'', OpWrite 0 None ''ab'', OpCommit 0 ?cf ''g-0'']"
  let ?a = "\<lparr>blobs = (\<lambda>_. None), pending = []\<rparr>"
  have env: "se_store ?env = store_at [''var'']" "se_groups ?env = [sample_handler]"
    "find_controller (se_controlled ?env) (se_groups ?env) ''g-0'' = Inr True"
    by (simp_all add: sample_serve_env_def)
  have pl: "list_all plain_elem [''var'']" "plain_elem ''g-0''" by (simp_all add: plain_elem_def)
  obtain o1 s1 o2 s2 o3 s3 where run:
    "exec_op (store_at [''var'']) (OpOpen None ''1'') (sv_store ?s0) = (o1, s1)"
    "exec_op (store_at [''var'']) (OpWrite 0 None ''ab'') s1 = (o2, s2)"
    "exec_op (store_at [''var'']) (OpCommit 0 ?cf ''g-0'') s2 = (o3, s3)"
    by (meson surj_pair)
  have "exec_ops (store_at [''var'']) ?ops (sv_store ?s0) = ([o1, o2, o3], s3)" using run by simp
  moreover have "abs_ops ?ops ?a = ([Ok, Ok, Ok], \<lparr>blobs = [''g-0'' \<mapsto> ''ab''], pending = [(None, False)]\<rparr>)"
    by (simp add: abs_op_def abs_commit_def write_error_def written_def)
  ultimately have "[o1, o2, o3] = [Ok, Ok, Ok]"
    using exec_ops_refines [OF store_rel_init [OF pl(1)], of ?ops "[o1, o2, o3]" s3] pl
    by (simp add: serving_init_def op_names_def)
  then have out: "o1 = Ok" "o2 = Ok" "o3 = Ok" by simp_all
  define t where "t = (\<lambda>ph s used. \<lparr>sv_store = s, sv_used = used, sv_sessions = [(''g-0'', ph)],
    sv_waiting = 1, sv_summary = None\<rparr>)"
  define t1 where "t1 = t Arrived (sv_store ?s0) []"
  define t2 where "t2 = t (Copying 0 []) s1 [''1'']"
  define t3 where "t3 = t (Copying 0 ''ab'') s2 [''1'']"
  define t4 where "t4 = t (Closing 0 ''ab'' 201) s3 [''1'']"
  have "serve_step ?env ?s0 t1"
    using serve_step.arrive [OF pl(2), of ?env ?s0] env by (simp add: t1_def t_def serving_init_def)
  moreover have "serve_step ?env t1 t2"
    using serve_step.open_writer [of 0 t1 "''g-0''" ?env "''1''" None o1 s1] env run(1) out
    by (simp add: t1_def t2_def t_def serving_init_def set_phase_def)
  moreover have "serve_step ?env t2 t3"
    using serve_step.copy [of 0 t2 "''g-0''" 0 "[]" ?env None "''ab''" o2 s2] env run(2) out
    by (simp add: t2_def t3_def t_def set_phase_def)
  moreover have "serve_step ?env t3 t4"
    using serve_step.commit [of 0 t3 "''g-0''" 0 "''ab''" ?env ?cf o3 s3] env run(3) out
    by (simp add: t3_def t4_def t_def set_phase_def commit_code_def)
  ultimately have "serve_reach ?env t4" by (meson serve_reach.intros)
  then show ?thesis by (auto simp: t4_def t_def)
qed

theorem one_report_per_runner_witness:
  "\<exists>st. serve_reach sample_serve_env st \<and> acked_bodies ''g-0'' st = [''ab''] \<and>
    get_blob (store_at [''var'']) ''g-0'' (files (sv_store st)) = Some ''ab''"
proof -
  obtain st where st: "serve_reach sample_serve_env st" "sv_sessions st = [(''g-0'', Closing 0 ''ab'' 201)]"
    using sample_upload_reach by blast
  then have ack: "acked_bodies ''g-0'' st = [''ab'']"
    by (simp add: acked_bodies_def acked_def List.map_filter_simps)
  with one_report_per_runner [OF st(1), of "[''var'']" "''g-0''"] st(1) show ?thesis
    by (auto simp: sample_serve_env_def plain_elem_def split: option.splits)
qed



end
