(* ===== verification/Cli_Utils.thy ===== *)
theory Cli_Utils
  imports Go_Path Metrics
begin

text \<open>
  What the commands share: the values of the command line as \<^verbatim>\<open>urfave/cli\<close> delivers them, and
  \<^verbatim>\<open>cmd/kperf/commands/utils/helper.go\<close>, which parses the \<^verbatim>\<open>KEY=VALUE\<close> flags, finds the
  default kubeconfig and applies the priority level of the virtual nodes.
\<close>

section \<open>The command line\<close>

text \<open>The accessors of \<^verbatim>\<open>cli.Context\<close>, by flag name; a flag that is not set has its default value.\<close>

record Context =
  cli_IsSet :: "string \<Rightarrow> bool"
  cli_Int :: "string \<Rightarrow> int"
  cli_Float64 :: "string \<Rightarrow> float64"
  cli_String :: "string \<Rightarrow> string"
  cli_Bool :: "string \<Rightarrow> bool"
  cli_StringSlice :: "string \<Rightarrow> string list"
  cli_GlobalString :: "string \<Rightarrow> string"
  cli_GlobalBool :: "string \<Rightarrow> bool"
  cli_Args :: "string list"

section \<open>Flags of the form \<^verbatim>\<open>KEY=VALUE\<close>\<close>

datatype kv_error = ExpectedKeyValues string | ExpectedKeyValue string

fun key_values_loop :: "string list gomap \<Rightarrow> string list \<Rightarrow> kv_error + string list gomap" where
  "key_values_loop res [] = Inr res"
| "key_values_loop res (str # strs) =
     (case str_cut CHR ''='' str of
        None \<Rightarrow> Inl (ExpectedKeyValues str)
      | Some (key, valuesInStr) \<Rightarrow>
          key_values_loop (AList.update key (str_split CHR '','' valuesInStr) res) strs)"

definition KeyValuesMap :: "string list \<Rightarrow> kv_error + string list gomap" where
  "KeyValuesMap strs = key_values_loop [] strs"

fun key_value_loop :: "string gomap \<Rightarrow> string list \<Rightarrow> kv_error + string gomap" where
  "key_value_loop res [] = Inr res"
| "key_value_loop res (str # strs) =
     (case str_cut CHR ''='' str of
        None \<Rightarrow> Inl (ExpectedKeyValue str)
      | Some (key, v) \<Rightarrow> key_value_loop (AList.update key v res) strs)"

definition KeyValueMap :: "string list \<Rightarrow> kv_error + string gomap" where
  "KeyValueMap strs = key_value_loop [] strs"

section \<open>The default kubeconfig\<close>

text \<open>\<open>token\<close> is the answer of \<^verbatim>\<open>os.Stat\<close> for the service account's token: no answer, or whether
  it is a directory.\<close>

definition inCluster :: "bool option \<Rightarrow> (string \<Rightarrow> string) \<Rightarrow> bool" where
  "inCluster token getenv =
     (case token of
        None \<Rightarrow> False
      | Some is_dir \<Rightarrow>
          (if is_dir then False
           else getenv ''KUBERNETES_SERVICE_HOST'' \<noteq> '''' \<and> getenv ''KUBERNETES_SERVICE_PORT'' \<noteq> ''''))"

definition DefaultKubeConfigPath :: "bool option \<Rightarrow> (string \<Rightarrow> string) \<Rightarrow> string \<Rightarrow> string" where
  "DefaultKubeConfigPath token getenv home =
     (if \<not> inCluster token getenv \<and> home \<noteq> '''' then path_join [home, ''.kube'', ''config''] else '''')"

section \<open>The priority level\<close>

record PriorityLevelConfiguration =
  plc_APIVersion :: string
  plc_Kind :: string
  plc_Name :: string
  plc_Type :: string
  plc_LendablePercent :: int
  plc_LimitResponseType :: string
  plc_Queues :: int
  plc_HandSize :: int
  plc_QueueLengthLimit :: int

definition custom_system :: PriorityLevelConfiguration where
  "custom_system =
     \<lparr>plc_APIVersion = ''flowcontrol.apiserver.k8s.io/v1'', plc_Kind = ''PriorityLevelConfiguration'',
      plc_Name = ''custom-system'', plc_Type = ''Limited'', plc_LendablePercent = 30,
      plc_LimitResponseType = ''Queue'', plc_Queues = 64, plc_HandSize = 6,
      plc_QueueLengthLimit = 50\<rparr>"

datatype plc_request = PlcCreate PriorityLevelConfiguration | PlcUpdate PriorityLevelConfiguration

datatype plc_error = LoadKubeconfig goerr | CreateClient goerr | ApplyPlc goerr

text \<open>The answers are those of loading the kubeconfig, building the client, the create and the
  update call; the result holds the error and the calls that were made.\<close>

record plc_answers =
  plc_config :: "goerr option"
  plc_client :: "goerr option"
  plc_create :: "goerr option"
  plc_update :: "goerr option"

definition ApplyPriorityLevelConfiguration ::
  "(api_reason \<Rightarrow> goerr \<Rightarrow> bool) \<Rightarrow> plc_answers \<Rightarrow> plc_error option \<times> plc_request list" where
  "ApplyPriorityLevelConfiguration api_is ans =
     (case plc_config ans of
        Some e \<Rightarrow> (Some (LoadKubeconfig e), [])
      | None \<Rightarrow>
          (case plc_client ans of
             Some e \<Rightarrow> (Some (CreateClient e), [])
           | None \<Rightarrow>
               (case plc_create ans of
                  None \<Rightarrow> (None, [PlcCreate custom_system])
                | Some e \<Rightarrow>
                    (if api_is IsAlreadyExists e then
                       (map_option ApplyPlc (plc_update ans),
                        [PlcCreate custom_system, PlcUpdate custom_system])
                     else (Some (ApplyPlc e), [PlcCreate custom_system])))))"

section \<open>Facts about the flags\<close>

definition kv_pair :: "string \<Rightarrow> string \<times> string" where
  "kv_pair str = the (str_cut CHR ''='' str)"

abbreviation is_kv :: "string \<Rightarrow> bool" where
  "is_kv str \<equiv> CHR ''='' \<in> set str"

lemma str_cut_kv: "is_kv str \<Longrightarrow> str_cut CHR ''='' str = Some (kv_pair str)"
  using str_cut_None [of "CHR ''=''" str] by (auto simp: kv_pair_def)

lemma key_value_loop_eq:
  "key_value_loop res strs =
     (case find (\<lambda>s. \<not> is_kv s) strs of
        Some s \<Rightarrow> Inl (ExpectedKeyValue s)
      | None \<Rightarrow> Inr (fold (\<lambda>s. AList.update (fst (kv_pair s)) (snd (kv_pair s))) strs res))"
proof (induction strs arbitrary: res)
  case (Cons s strs)
  show ?case
  proof (cases "is_kv s")
    case True
    then show ?thesis
      using Cons [of "AList.update (fst (kv_pair s)) (snd (kv_pair s)) res"]
      by (cases "kv_pair s") (simp add: str_cut_kv split: option.splits)
  next
    case False
    then have "str_cut CHR ''='' s = None" by (simp add: str_cut_None)
    with False show ?thesis by simp
  qed
qed simp

lemma key_values_loop_eq:
  "key_values_loop res strs =
     (case find (\<lambda>s. \<not> is_kv s) strs of
        Some s \<Rightarrow> Inl (ExpectedKeyValues s)
      | None \<Rightarrow> Inr (fold (\<lambda>s. AList.update (fst (kv_pair s)) (str_split CHR '','' (snd (kv_pair s)))) strs res))"
proof (induction strs arbitrary: res)
  case (Cons s strs)
  show ?case
  proof (cases "is_kv s")
    case True
    then show ?thesis
      using Cons [of "AList.update (fst (kv_pair s)) (str_split CHR '','' (snd (kv_pair s))) res"]
      by (cases "kv_pair s") (simp add: str_cut_kv split: option.splits)
  next
    case False
    then have "str_cut CHR ''='' s = None" by (simp add: str_cut_None)
    with False show ?thesis by simp
  qed
qed simp

lemma fold_update_get:
  "map_of (fold (\<lambda>s. AList.update (f s) (g s)) strs res) k =
     (case find (\<lambda>s. f s = k) (rev strs) of Some s \<Rightarrow> Some (g s) | None \<Rightarrow> map_of res k)"
proof (induction strs rule: rev_induct)
  case (snoc s strs)
  then show ?case by simp
qed simp

lemma fold_update_wf: "wf_gomap res \<Longrightarrow> wf_gomap (fold (\<lambda>s. AList.update (f s) (g s)) strs res)"
  by (induction strs arbitrary: res) simp_all

lemma fold_update_fresh:
  "distinct (map f strs) \<Longrightarrow> fst ` set res \<inter> f ` set strs = {} \<Longrightarrow>
   fold (\<lambda>s. AList.update (f s) (g s)) strs res = res @ map (\<lambda>s. (f s, g s)) strs"
proof (induction strs arbitrary: res)
  case (Cons s strs)
  then have "AList.update (f s) (g s) res = res @ [(f s, g s)]" by (simp add: update_notin)
  with Cons.prems Cons.IH [of "res @ [(f s, g s)]"] show ?case by auto
qed simp

text \<open>The flag that a selector entry is written as.\<close>

definition render_kv :: "string \<times> string list \<Rightarrow> string" where
  "render_kv kv = fst kv @ ''='' @ str_join '','' (snd kv)"

definition kv_ok :: "string list gomap \<Rightarrow> bool" where
  "kv_ok m \<longleftrightarrow> wf_gomap m \<and>
     (\<forall>(k, vs) \<in> set m. CHR ''='' \<notin> set k \<and> vs \<noteq> [] \<and> (\<forall>v \<in> set vs. CHR '','' \<notin> set v))"

lemma kv_pair_render:
  "CHR ''='' \<notin> set (fst kv) \<Longrightarrow> kv_pair (render_kv kv) = (fst kv, str_join '','' (snd kv))"
  using str_cut_Some [of "CHR ''=''" "render_kv kv" "fst kv" "str_join '','' (snd kv)"]
  by (simp add: kv_pair_def render_kv_def)

lemma KeyValuesMap_render:
  assumes "kv_ok m"
  shows "KeyValuesMap (map render_kv m) = Inr m"
proof -
  let ?f = "\<lambda>s. fst (kv_pair s)" and ?g = "\<lambda>s. str_split CHR '','' (snd (kv_pair s))"
  have kv: "?f (render_kv kv) = fst kv" "?g (render_kv kv) = snd kv" if "kv \<in> set m" for kv
    using assms that kv_pair_render [of kv] str_split_str_join [of "snd kv" "CHR '',''"]
    by (auto simp: kv_ok_def)
  have "find (\<lambda>s. \<not> is_kv s) (map render_kv m) = None"
    by (auto simp: find_None_iff render_kv_def)
  moreover have keys: "map ?f (map render_kv m) = map fst m" using kv(1) by simp
  have "fold (\<lambda>s. AList.update (?f s) (?g s)) (map render_kv m) [] =
      map (\<lambda>s. (?f s, ?g s)) (map render_kv m)"
    using fold_update_fresh [of ?f "map render_kv m" "[]" ?g] keys assms
    by (simp only: kv_ok_def) simp
  moreover have "map (\<lambda>s. (?f s, ?g s)) (map render_kv m) = m"
    using kv by (simp add: map_idI)
  ultimately show ?thesis by (simp add: KeyValuesMap_def key_values_loop_eq)
qed

section \<open>Properties\<close>

text \<open>
  The \<^verbatim>\<open>KEY=VALUE[,VALUE]\<close> flags are read back as they were written: a selector map whose
  keys have no equals sign and whose values have no comma, written as one flag per entry, is
  what \<^verbatim>\<open>KeyValuesMap\<close> returns. A list of flags is rejected exactly when some flag has no equals
  sign, and the error names the first of them.
\<close>

theorem key_values_roundtrip:
  "(kv_ok m \<longrightarrow> KeyValuesMap (map render_kv m) = Inr m) \<and>
   (KeyValuesMap strs = Inl e \<longleftrightarrow>
      (\<exists>s. find (\<lambda>s. CHR ''='' \<notin> set s) strs = Some s \<and> e = ExpectedKeyValues s))"
  using KeyValuesMap_render [of m]
  by (auto simp: KeyValuesMap_def key_values_loop_eq split: option.splits)

theorem key_values_roundtrip_witness:
  "KeyValuesMap [''zone=a,b'', ''type=x''] = Inr [(''zone'', [''a'', ''b'']), (''type'', [''x''])]"
  using key_values_roundtrip [of "[(''zone'', [''a'', ''b'']), (''type'', [''x''])]" "[]"]
  by (simp add: kv_ok_def render_kv_def)

end
