(* ===== verification/Schedule.thy ===== *)
theory Schedule
  imports Metrics Requests
begin

text \<open>
  The scheduler of \<^verbatim>\<open>request/schedule.go\<close> with the generator loop \<^verbatim>\<open>Run\<close> and \<^verbatim>\<open>Stop\<close> of
  \<^verbatim>\<open>request/random.go\<close>: one generator goroutine hands builders over an unbuffered channel
  to a fixed set of workers, which build, throttle, send and record. A step relation
  interleaves them. The responses of the API server, the clock, the random numbers and the
  moment at which the context ends are free.
\<close>

section \<open>Sequential parts\<close>

definition ErrCodeNo :: ErrCode where "ErrCodeNo = 0"

definition isHTTP2StreamNoError :: "goerr option \<Rightarrow> bool" where
  "isHTTP2StreamNoError err =
     (case err of None \<Rightarrow> False
      | Some e \<Rightarrow> (case errors_As as_StreamError e of None \<Rightarrow> False | Some code \<Rightarrow> code = ErrCodeNo))"

text \<open>A stream that the server resets with \<^verbatim>\<open>NO_ERROR\<close> after a complete response counts as a
  success.\<close>

definition mask_no_error :: "goerr option \<Rightarrow> goerr option" where
  "mask_no_error err = (if err \<noteq> None \<and> isHTTP2StreamNoError err then None else err)"

definition schedule_qps :: "LoadProfileSpec \<Rightarrow> float64" where
  "schedule_qps spec = (if feq (Rate spec) (Fin 0) then float_of_int 2147483647 else Rate spec)"

definition schedule_clients :: "LoadProfileSpec \<Rightarrow> int" where
  "schedule_clients spec = (if Client spec = 0 then Conns spec else Client spec)"

definition defaultTimeout :: int where
  "defaultTimeout = 60 * 1000000000"

text \<open>\<^verbatim>\<open>Do\<close> of the interface, with the builder whose cache a post/delete request updates. The
  outcome of the exchange with the API server is given: a stream for ordinary requests, a
  watch for the streaming list.\<close>

record exchange =
  ex_stream :: "goerr + (int \<times> goerr option)"
  ex_watch :: "goerr + (goerr + bool)"

fun Do :: "Requester \<Rightarrow> exchange \<Rightarrow> RESTRequestBuilder \<Rightarrow> (int \<times> goerr option) \<times> RESTRequestBuilder" where
  "Do (DiscardRequester b) ex bld = (DiscardRequester_Do (ex_stream ex), bld)"
| "Do (WatchListRequester b) ex bld = (WatchListRequester_Do (ex_watch ex), bld)"
| "Do (PostDelDiscardRequester name operation b) ex (PostDelBuilder bld) =
     (case PostDelDiscardRequester_Do name operation (ex_stream ex) (pdb_cache bld) of
        (res, c) \<Rightarrow> (res, PostDelBuilder (bld\<lparr>pdb_cache := c\<rparr>)))"
| "Do (PostDelDiscardRequester name operation b) ex bld = (DiscardRequester_Do (ex_stream ex), bld)"

section \<open>States\<close>

text \<open>A worker waits for a builder, has received builder \<open>k\<close>, waits for the rate limiter with a
  built request, has to record an outcome, left the loop after the channel was closed, or
  left it because the limiter failed.\<close>

datatype worker =
  Idle | Received nat | Waiting Requester nat | Reporting string string "goerr option"
| Finished | Dropped

record sched =
  sent :: int
  generating :: bool
  cancelled :: bool
  crashed :: bool
  workers :: "worker list"
  sbuilders :: "RESTRequestBuilder list"
  smetric :: responseMetricImpl

text \<open>What a run is started with: the spec and its generator, the code of other packages that
  it calls, and whether the caller's context may end.\<close>

record run_env =
  su_spec :: LoadProfileSpec
  su_reqs :: WeightedRandomRequests
  su_template :: template
  su_url :: "rest_Request \<Rightarrow> url"
  su_url_string :: "url \<Rightarrow> string"
  su_api_is :: "api_reason \<Rightarrow> goerr \<Rightarrow> bool"
  su_code_string :: "ErrCode \<Rightarrow> string"
  su_external :: bool

definition may_cancel :: "run_env \<Rightarrow> bool" where
  "may_cancel su \<longleftrightarrow> su_external su \<or> Duration (su_spec su) > 0"

definition sched_init :: "run_env \<Rightarrow> sched" where
  "sched_init su =
     \<lparr>sent = 0, generating = True, cancelled = False, crashed = False,
      workers = replicate (nat (schedule_clients (su_spec su))) Idle,
      sbuilders = reqBuilders (su_reqs su), smetric = NewResponseMetric\<rparr>"

text \<open>The loop condition of \<^verbatim>\<open>Run\<close>.\<close>

definition all_sent :: "run_env \<Rightarrow> sched \<Rightarrow> bool" where
  "all_sent su s \<longleftrightarrow> Total (su_spec su) > 0 \<and> sent s \<ge> Total (su_spec su)"

text \<open>One iteration of \<^verbatim>\<open>Run\<close> up to its \<^verbatim>\<open>select\<close>: leave the loop, panic in the choice, or offer
  a builder on the channel.\<close>

datatype run_action = Break | PickPanic | Offer nat

definition Run_next :: "run_env \<Rightarrow> sched \<Rightarrow> int \<Rightarrow> run_action" where
  "Run_next su s draw =
     (if all_sent su s then Break
      else case randomPick (su_reqs su) draw of None \<Rightarrow> PickPanic | Some k \<Rightarrow> Offer k)"

lemma Run_next_iff [simp]:
  "Run_next su s draw = Break \<longleftrightarrow> all_sent su s"
  "Run_next su s draw = PickPanic \<longleftrightarrow> \<not> all_sent su s \<and> randomPick (su_reqs su) draw = None"
  "Run_next su s draw = Offer k \<longleftrightarrow> \<not> all_sent su s \<and> randomPick (su_reqs su) draw = Some k"
  by (auto simp: Run_next_def split: option.splits)

section \<open>Steps\<close>

text \<open>The \<^verbatim>\<open>select\<close> of \<^verbatim>\<open>Run\<close> hands the offered builder to an idle worker or notices that a
  context has ended; when \<^verbatim>\<open>Run\<close> has returned, \<^verbatim>\<open>Stop\<close> closes the channel.\<close>

inductive sched_step :: "run_env \<Rightarrow> sched \<Rightarrow> sched \<Rightarrow> bool" for su where
  handoff: "sched_step su s (s\<lparr>sent := sent s + 1, workers := (workers s)[i := Received k]\<rparr>)"
    if "\<not> crashed s" "generating s" "Run_next su s draw = Offer k"
      "i < length (workers s)" "workers s ! i = Idle"
| pick_panic: "sched_step su s (s\<lparr>crashed := True\<rparr>)"
    if "\<not> crashed s" "generating s" "Run_next su s draw = PickPanic"
| run_done: "sched_step su s (s\<lparr>generating := False\<rparr>)"
    if "\<not> crashed s" "generating s" "Run_next su s draw = Break"
| run_cancelled: "sched_step su s (s\<lparr>generating := False\<rparr>)"
    if "\<not> crashed s" "generating s" "Run_next su s draw = Offer k" "cancelled s"
| cancel: "sched_step su s (s\<lparr>cancelled := True\<rparr>)"
    if "\<not> crashed s" "may_cancel su" "\<not> cancelled s"
| build: "sched_step su s
      (s\<lparr>workers := (workers s)[i := Waiting r k], sbuilders := (sbuilders s)[k := b']\<rparr>)"
    if "\<not> crashed s" "i < length (workers s)" "workers s ! i = Received k"
      "Build (su_template su) (sbuilders s ! k) ent = Return (r, b')"
| build_panic: "sched_step su s (s\<lparr>crashed := True\<rparr>)"
    if "\<not> crashed s" "i < length (workers s)" "workers s ! i = Received k"
      "Build (su_template su) (sbuilders s ! k) ent = Panic"
| wait_failed: "sched_step su s (s\<lparr>cancelled := True, workers := (workers s)[i := Dropped]\<rparr>)"
    if "\<not> crashed s" "i < length (workers s)" "workers s ! i = Waiting r k"
      "cancelled s \<or> may_cancel su"
| execute: "sched_step su s
      (s\<lparr>workers := (workers s)[i := Reporting (br_method (base r))
             (su_url_string su (MaskedURL (su_url su) (Timeout defaultTimeout (base r))))
             (mask_no_error err)],
         sbuilders := (sbuilders s)[k := b'],
         smetric := ObserveReceivedBytes n (smetric s)\<rparr>)"
    if "\<not> crashed s" "i < length (workers s)" "workers s ! i = Waiting r k"
      "Do r ex (sbuilders s ! k) = ((n, err), b')"
| report: "sched_step su s
      (s\<lparr>workers := (workers s)[i := Idle],
         smetric := (case err of
             Some e \<Rightarrow> ObserveFailure (su_api_is su) (su_code_string su) meth url now latency err (smetric s)
           | None \<Rightarrow> ObserveLatency meth url latency (smetric s))\<rparr>)"
    if "\<not> crashed s" "i < length (workers s)" "workers s ! i = Reporting meth url err"
| exit: "sched_step su s (s\<lparr>workers := (workers s)[i := Finished]\<rparr>)"
    if "\<not> crashed s" "i < length (workers s)" "workers s ! i = Idle" "\<not> generating s"

inductive sched_reach :: "run_env \<Rightarrow> sched \<Rightarrow> bool" for su where
  start: "sched_reach su (sched_init su)"
| step: "sched_reach su t" if "sched_reach su s" and "sched_step su s t"

text \<open>\<^verbatim>\<open>wg.Wait\<close> returns when all workers have left; the result is then gathered.\<close>

definition terminal :: "sched \<Rightarrow> bool" where
  "terminal s \<longleftrightarrow> \<not> generating s \<and> list_all (\<lambda>w. w = Finished \<or> w = Dropped) (workers s)"

record Result = ResponseStats +
  res_Duration :: int
  res_Total :: int

definition Schedule_result :: "run_env \<Rightarrow> sched \<Rightarrow> int \<Rightarrow> Result" where
  "Schedule_result su s totalDuration =
     ResponseStats.extend (Gather (smetric s))
       (Result.fields totalDuration (Total (su_spec su)))"

section \<open>Counting\<close>

text \<open>The number of recorded outcomes, and the number of workers in given states.\<close>

definition observed :: "responseMetricImpl \<Rightarrow> nat" where
  "observed m = length (m_errors m) + sum_list (map (length \<circ> snd) (m_latenciesByURLs m))"

fun busy :: "worker \<Rightarrow> bool" where
  "busy (Received k) = True"
| "busy (Waiting r k) = True"
| "busy (Reporting meth url err) = True"
| "busy w = False"

definition count_busy :: "sched \<Rightarrow> nat" where
  "count_busy s = length (filter busy (workers s))"

definition count_dropped :: "sched \<Rightarrow> nat" where
  "count_dropped s = length (filter (\<lambda>w. w = Dropped) (workers s))"

lemma observed_new [simp]: "observed NewResponseMetric = 0"
  by (simp add: observed_def NewResponseMetric_def)

lemma observed_bytes [simp]: "observed (ObserveReceivedBytes n m) = observed m"
  by (simp add: observed_def ObserveReceivedBytes_def)

lemma observed_failure [simp]:
  "observed (ObserveFailure api_is code_string meth url now s (Some e) m) = Suc (observed m)"
  by (simp add: observed_def ObserveFailure_def)

lemma sum_lengths_update:
  assumes "wf_gomap m"
  shows "sum_list (map (length \<circ> snd) (AList.update k (gomap_get [] m k @ [x]) m)) =
    Suc (sum_list (map (length \<circ> snd) m))"
proof (cases "map_of m k")
  case None
  moreover from None have "k \<notin> fst ` set m" by (simp add: map_of_eq_None_iff)
  ultimately show ?thesis by (simp add: gomap_get_def update_notin)
next
  case (Some v)
  with assms obtain xs ys where "m = xs @ (k, v) # ys" "k \<notin> fst ` set xs"
    using gomap_split by metis
  with Some show ?thesis by (simp add: gomap_get_def update_split)
qed

lemma observed_latency [simp]:
  assumes "metric_ok m"
  shows "observed (ObserveLatency meth url s m) = Suc (observed m)"
  using sum_lengths_update [of "m_latenciesByURLs m" "latency_key meth url" s] assms
  by (simp add: observed_def ObserveLatency_def Let_def gomap_get_def metric_ok_def)

lemma length_filter_update:
  "i < length xs \<Longrightarrow>
     length (filter P (xs[i := y])) + (if P (xs ! i) then 1 else 0) =
     length (filter P xs) + (if P y then 1 else 0)"
proof (induction xs arbitrary: i)
  case (Cons x xs)
  then show ?case using Cons.IH [of "i - 1"] by (cases i) auto
qed simp

section \<open>The invariant\<close>

definition sched_inv :: "run_env \<Rightarrow> sched \<Rightarrow> bool" where
  "sched_inv su s \<longleftrightarrow>
     metric_ok (smetric s) \<and>
     sent s = int (observed (smetric s) + count_busy s + count_dropped s) \<and>
     (Total (su_spec su) > 0 \<longrightarrow> sent s \<le> Total (su_spec su)) \<and>
     (count_dropped s > 0 \<longrightarrow> cancelled s) \<and>
     (cancelled s \<longrightarrow> may_cancel su) \<and>
     (\<not> generating s \<longrightarrow> cancelled s \<or> all_sent su s) \<and>
     (Finished \<in> set (workers s) \<longrightarrow> \<not> generating s) \<and>
     length (workers s) = nat (schedule_clients (su_spec su))"

lemma sched_inv_init: "sched_inv su (sched_init su)"
proof -
  have "metric_ok NewResponseMetric" by (simp add: metric_ok_def NewResponseMetric_def)
  then show ?thesis
    by (simp add: sched_inv_def sched_init_def count_busy_def count_dropped_def)
qed

lemma Finished_update:
  "Finished \<in> set (ws[i := w]) \<Longrightarrow> w \<noteq> Finished \<Longrightarrow> Finished \<in> set ws"
  using set_update_subset_insert [of ws i w] by blast

lemma metric_ok_steps [simp]:
  assumes "metric_ok m"
  shows "metric_ok (ObserveReceivedBytes n m)" "metric_ok (ObserveLatency meth url lat m)"
    "metric_ok (ObserveFailure api_is code_string meth url now lat err m)"
  using assms metric.ok_received metric.ok_latency metric.ok_failure by blast+

text \<open>How the two counts change when one worker moves.\<close>

lemma worker_moves:
  assumes "i < length (workers s)" "workers t = (workers s)[i := w]"
  shows "count_busy t + (if busy (workers s ! i) then 1 else 0) =
      count_busy s + (if busy w then 1 else 0)"
    and "count_dropped t + (if workers s ! i = Dropped then 1 else 0) =
      count_dropped s + (if w = Dropped then 1 else 0)"
  using length_filter_update [OF assms(1), of busy w]
    length_filter_update [OF assms(1), of "\<lambda>w. w = Dropped" w] assms(2)
  by (simp_all add: count_busy_def count_dropped_def)

lemma sched_inv_move:
  assumes inv: "sched_inv su s" and i: "i < length (workers s)"
    and t: "workers t = (workers s)[i := w]" "generating t = generating s"
    and w: "w = Finished \<longrightarrow> \<not> generating s"
  shows "Finished \<in> set (workers t) \<longrightarrow> \<not> generating t"
    and "length (workers t) = nat (schedule_clients (su_spec su))"
  using inv t w Finished_update [of "workers s" i w] by (auto simp: sched_inv_def)

lemma sched_inv_step:
  assumes "sched_step su s t" "sched_inv su s"
  shows "sched_inv su t"
  using assms
proof (induction rule: sched_step.induct)
  case (handoff s draw k i)
  let ?t = "s\<lparr>sent := sent s + 1, workers := (workers s)[i := Received k]\<rparr>"
  show ?case
    using handoff worker_moves [of i s ?t "Received k"] sched_inv_move [of su s i ?t "Received k"]
    by (auto simp: sched_inv_def all_sent_def)
next
  case (build s i k ent r b')
  let ?t = "s\<lparr>workers := (workers s)[i := Waiting r k], sbuilders := (sbuilders s)[k := b']\<rparr>"
  show ?case
    using build worker_moves [of i s ?t "Waiting r k"] sched_inv_move [of su s i ?t "Waiting r k"]
    by (auto simp: sched_inv_def all_sent_def)
next
  case (wait_failed s i r k)
  let ?t = "s\<lparr>cancelled := True, workers := (workers s)[i := Dropped]\<rparr>"
  show ?case
    using wait_failed worker_moves [of i s ?t Dropped] sched_inv_move [of su s i ?t Dropped]
    by (auto simp: sched_inv_def all_sent_def)
next
  case (execute s i r k ex n err b')
  let ?w = "Reporting (br_method (base r))
    (su_url_string su (MaskedURL (su_url su) (Timeout defaultTimeout (base r)))) (mask_no_error err)"
  let ?t = "s\<lparr>workers := (workers s)[i := ?w], sbuilders := (sbuilders s)[k := b'],
    smetric := ObserveReceivedBytes n (smetric s)\<rparr>"
  show ?case
    using execute worker_moves [of i s ?t ?w] sched_inv_move [of su s i ?t ?w]
    by (auto simp: sched_inv_def all_sent_def)
next
  case (report s i meth url err now latency)
  let ?m = "case err of
      Some e \<Rightarrow> ObserveFailure (su_api_is su) (su_code_string su) meth url now latency err (smetric s)
    | None \<Rightarrow> ObserveLatency meth url latency (smetric s)"
  let ?t = "s\<lparr>workers := (workers s)[i := Idle], smetric := ?m\<rparr>"
  have "metric_ok ?m" "observed ?m = Suc (observed (smetric s))"
    using report.prems by (auto simp: sched_inv_def split: option.split)
  then show ?case
    using report worker_moves [of i s ?t Idle] sched_inv_move [of su s i ?t Idle]
    by (auto simp: sched_inv_def all_sent_def)
next
  case (exit s i)
  let ?t = "s\<lparr>workers := (workers s)[i := Finished]\<rparr>"
  show ?case
    using exit worker_moves [of i s ?t Finished] sched_inv_move [of su s i ?t Finished]
    by (auto simp: sched_inv_def all_sent_def)
qed (auto simp: sched_inv_def all_sent_def count_busy_def count_dropped_def)

lemma sched_reach_inv: "sched_reach su s \<Longrightarrow> sched_inv su s"
  by (induction rule: sched_reach.induct) (auto intro: sched_inv_init sched_inv_step)

section \<open>Progress\<close>

text \<open>No builder waits for random bytes for ever.\<close>

lemma randomPayload_ready: "\<exists>src. randomPayload n src \<noteq> Pending"
proof (cases "0 < n")
  case True
  let ?src = "replicate (nat (min n 4096) * nat n) (0 :: 8 word)"
  have acc: "accepted 0" by (simp add: accepted_def threshold_eq)
  have "nat n \<le> nat (min n 4096) * nat n" using True by simp
  then have "nat n \<le> length (filter accepted (take (nat (min n 4096) * (length ?src div nat (min n 4096))) ?src))"
    using True acc by (simp add: filter_replicate)
  then show ?thesis using True by (intro exI [of _ ?src]) (simp add: randomPayload_eq Let_def)
qed (simp add: randomPayload_def)

lemma bind_outcome_Pending:
  "bind_outcome x f = Pending \<longleftrightarrow> x = Pending \<or> (\<exists>y. x = Return y \<and> f y = Pending)"
  by (cases x) auto

lemma Build_ready: "\<exists>ent. Build tpl b ent \<noteq> Pending"
proof (cases b)
  case (PutBuilder u)
  obtain src where "randomPayload (ub_payloadSize u) src \<noteq> Pending" using randomPayload_ready by blast
  then show ?thesis using PutBuilder
    by (intro exI [of _ "\<lparr>ent_int = 0, ent_now = 0, ent_bytes = src\<rparr>"])
      (auto simp: Build_put_def bind_outcome_Pending Let_def)
next
  case (PostDelBuilder d)
  obtain src where src: "randomPayload (pdb_payloadSize d) src \<noteq> Pending" using randomPayload_ready by blast
  let ?ent = "\<lparr>ent_int = 0, ent_now = 0, ent_bytes = src\<rparr>"
  have "Build_post tpl d' ?ent \<noteq> Pending" if "pdb_payloadSize d' = pdb_payloadSize d" for d'
    using src that by (auto simp: Build_post_def bind_outcome_Pending Let_def split: option.splits)
  then have "Build_postdel tpl d ?ent \<noteq> Pending"
    by (auto simp: Build_postdel_def bind_outcome_Pending split: prod.splits bool.splits)
  then show ?thesis using PostDelBuilder
    by (intro exI [of _ ?ent]) (auto simp: bind_outcome_Pending)
next
  case (PatchBuilder p)
  then show ?thesis by (auto simp: Build_patch_def bind_outcome_Pending Let_def)
qed auto

lemma busy_steps:
  assumes "\<not> crashed s" "w \<in> set (workers s)" "busy w"
  shows "\<exists>t. sched_step su s t"
proof -
  obtain i where i: "i < length (workers s)" "workers s ! i = w"
    using assms(2) by (auto simp: in_set_conv_nth)
  show ?thesis
  proof (cases w)
    case (Received k)
    obtain ent where "Build (su_template su) (sbuilders s ! k) ent \<noteq> Pending" using Build_ready by blast
    then show ?thesis using assms(1) i Received sched_step.build sched_step.build_panic
      by (cases "Build (su_template su) (sbuilders s ! k) ent") fastforce+
  next
    case (Waiting r k)
    obtain n err b' where "Do r undefined (sbuilders s ! k) = ((n, err), b')" by (metis surj_pair)
    then show ?thesis using assms(1) i Waiting sched_step.execute by blast
  next
    case (Reporting meth url err)
    then show ?thesis using assms(1) i sched_step.report by blast
  qed (use assms(3) in auto)
qed

lemma sched_progress:
  assumes inv: "sched_inv su s" and run: "\<not> crashed s" "\<not> terminal s"
    and clients: "schedule_clients (su_spec su) > 0"
  shows "\<exists>t. sched_step su s t"
proof (cases "\<exists>w \<in> set (workers s). busy w")
  case True
  then show ?thesis using busy_steps run(1) by blast
next
  case nobusy: False
  show ?thesis
  proof (cases "Idle \<in> set (workers s)")
    case True
    then obtain i where i: "i < length (workers s)" "workers s ! i = Idle"
      by (auto simp: in_set_conv_nth)
    show ?thesis
    proof (cases "generating s")
      case True
      then show ?thesis
        by (cases "Run_next su s 0")
          (use i run(1) sched_step.run_done sched_step.pick_panic sched_step.handoff in blast)+
    next
      case False
      then show ?thesis using i run(1) sched_step.exit by blast
    qed
  next
    case False
    have out: "w = Finished \<or> w = Dropped" if "w \<in> set (workers s)" for w
    proof -
      have "\<not> busy w" "w \<noteq> Idle" using that nobusy False by blast+
      then show ?thesis by (cases w) auto
    qed
    then have gen: "generating s" using run(2) by (auto simp: terminal_def list_all_iff)
    then have dropped: "list_all (\<lambda>w. w = Dropped) (workers s)"
      using inv out by (fastforce simp: sched_inv_def list_all_iff)
    moreover have "workers s \<noteq> []" using inv clients by (auto simp: sched_inv_def)
    ultimately have "count_dropped s > 0"
      by (cases "workers s") (auto simp: count_dropped_def)
    then have "cancelled s" using inv by (simp add: sched_inv_def)
    then show ?thesis
      by (cases "Run_next su s 0")
        (use gen run(1) sched_step.run_done sched_step.pick_panic sched_step.run_cancelled in blast)+
  qed
qed

section \<open>Termination\<close>

fun worker_fuel :: "worker \<Rightarrow> nat" where
  "worker_fuel Idle = 1"
| "worker_fuel (Received k) = 4"
| "worker_fuel (Waiting r k) = 3"
| "worker_fuel (Reporting meth url err) = 2"
| "worker_fuel w = 0"

definition sched_fuel :: "run_env \<Rightarrow> sched \<Rightarrow> nat" where
  "sched_fuel su s =
     (if crashed s then 0
      else 1 + (if cancelled s then 0 else 1) + (if generating s then 1 else 0) +
        5 * nat (Total (su_spec su) - sent s) + sum_list (map worker_fuel (workers s)))"

lemma worker_fuel_update:
  "i < length ws \<Longrightarrow>
     sum_list (map worker_fuel (ws[i := w])) + worker_fuel (ws ! i) =
     sum_list (map worker_fuel ws) + worker_fuel w"
proof (induction ws arbitrary: i)
  case (Cons x xs)
  then show ?case using Cons.IH [of "i - 1"] by (cases i) auto
qed simp

lemma sched_fuel_decreases:
  assumes "sched_step su s t" "Total (su_spec su) > 0"
  shows "sched_fuel su t < sched_fuel su s"
  using assms
proof (induction rule: sched_step.induct)
  case (handoff s draw k i)
  have "nat (Total (su_spec su) - sent s) = Suc (nat (Total (su_spec su) - (sent s + 1)))"
    using handoff by (auto simp: all_sent_def)
  then show ?case using handoff worker_fuel_update [of i "workers s" "Received k"]
    by (simp add: sched_fuel_def)
next
  case (build s i k ent r b')
  then show ?case using worker_fuel_update [of i "workers s" "Waiting r k"]
    by (simp add: sched_fuel_def)
next
  case (wait_failed s i r k)
  then show ?case using worker_fuel_update [of i "workers s" Dropped]
    by (auto simp: sched_fuel_def)
next
  case (execute s i r k ex n err b')
  then show ?case
    using worker_fuel_update [of i "workers s" "Reporting (br_method (base r))
      (su_url_string su (MaskedURL (su_url su) (Timeout defaultTimeout (base r)))) (mask_no_error err)"]
    by (simp add: sched_fuel_def)
next
  case (report s i meth url err now latency)
  then show ?case using worker_fuel_update [of i "workers s" Idle]
    by (simp add: sched_fuel_def)
next
  case (exit s i)
  then show ?case using worker_fuel_update [of i "workers s" Finished]
    by (simp add: sched_fuel_def)
qed (auto simp: sched_fuel_def)

section \<open>Results\<close>

definition result_count :: "'a ResponseStats_scheme \<Rightarrow> nat" where
  "result_count r = length (rs_Errors r) + sum_list (map (length \<circ> snd) (rs_LatenciesByURL r))"

lemma result_count_observed:
  "metric_ok (smetric s) \<Longrightarrow> result_count (Schedule_result su s d) = observed (smetric s)"
  by (simp add: result_count_def observed_def Schedule_result_def ResponseStats.defs Result.defs
      Gather_def dumpLatencies_eq metric_ok_def)

lemma terminal_counts:
  assumes "terminal s"
  shows "count_busy s = 0"
proof -
  have "\<not> busy w" if "w \<in> set (workers s)" for w
    using assms that by (auto simp: terminal_def list_all_iff)
  then show ?thesis by (simp add: count_busy_def filter_empty_conv)
qed

text \<open>A run that nothing cancelled ends with one recorded outcome for each of the spec's total.\<close>

lemma completed_run:
  assumes "sched_reach su s" "terminal s" "\<not> cancelled s"
  shows "int (result_count (Schedule_result su s d)) = Total (su_spec su)"
    "res_Total (Schedule_result su s d) = Total (su_spec su)" "Total (su_spec su) > 0"
proof -
  note inv = sched_reach_inv [OF assms(1)]
  have "all_sent su s" "count_dropped s = 0"
    using inv assms(2,3) by (auto simp: sched_inv_def terminal_def)
  then show "int (result_count (Schedule_result su s d)) = Total (su_spec su)"
    and "Total (su_spec su) > 0"
    using inv terminal_counts [OF assms(2)]
    by (auto simp: sched_inv_def all_sent_def result_count_observed)
  show "res_Total (Schedule_result su s d) = Total (su_spec su)"
    by (simp add: Schedule_result_def ResponseStats.defs Result.defs)
qed

section \<open>A sample run\<close>

definition sample_env :: run_env where
  "sample_env =
     \<lparr>su_spec = (sample_spec [Some (empty_request\<lparr>QuorumGet := Some \<lparr>Group = [], Version = ''v1'',
        Resource = ''pods'', get_Namespace = ''ns'', get_Name = ''x''\<rparr>\<rparr>)])\<lparr>Total := 1, Client := 1\<rparr>,
      su_reqs = \<lparr>shares = [1], reqBuilders = [GetBuilder
        \<lparr>gb_version = \<lparr>gv_Group = [], gv_Version = ''v1''\<rparr>, gb_resource = ''pods'',
         gb_namespace = ''ns'', gb_name = ''x'', gb_resourceVersion = [], gb_maxRetries = 0\<rparr>]\<rparr>,
      su_template = (\<lambda>_ _ _. None),
      su_url = (\<lambda>rq. \<lparr>url_prefix = [], url_path = str_join ''/'' (rq_path rq), url_query = []\<rparr>),
      su_url_string = url_path, su_api_is = (\<lambda>_ _. False), su_code_string = (\<lambda>_. []),
      su_external = False\<rparr>"

lemma sample_pick: "randomPick (su_reqs sample_env) 0 = Some 0"
  by (simp add: sample_env_def randomPick_def sum_shares_def rand_Int_def is_int64_def)

lemma sample_run:
  "\<exists>s. sched_reach sample_env s \<and> terminal s \<and> \<not> cancelled s"
proof -
  let ?su = sample_env
  let ?b = "reqBuilders (su_reqs ?su) ! 0"
  have sel: "Total (su_spec ?su) = 1" "schedule_clients (su_spec ?su) = 1"
    by (simp_all add: sample_env_def sample_spec_def schedule_clients_def)
  define s0 where "s0 = sched_init ?su"
  have s0: "sched_reach ?su s0" "\<not> crashed s0" "generating s0" "sent s0 = 0" "workers s0 = [Idle]"
      "sbuilders s0 ! 0 = ?b" "\<not> cancelled s0"
    using sched_reach.start [of ?su] by (simp_all add: s0_def sched_init_def sel)
  define s1 where "s1 = s0\<lparr>sent := sent s0 + 1, workers := (workers s0)[0 := Received 0]\<rparr>"
  have "sched_step ?su s0 s1" unfolding s1_def
    by (rule sched_step.handoff [where draw = 0]) (simp_all add: s0 all_sent_def sel sample_pick)
  with s0 have s1: "sched_reach ?su s1" "\<not> crashed s1" "generating s1" "sent s1 = 1"
      "workers s1 = [Received 0]" "sbuilders s1 ! 0 = ?b" "\<not> cancelled s1"
    by (auto simp: s1_def intro: sched_reach.step)
  obtain r where r: "Build (su_template ?su) ?b undefined = Return (r, ?b)"
    by (simp add: sample_env_def)
  define s2 where "s2 = s1\<lparr>workers := (workers s1)[0 := Waiting r 0], sbuilders := (sbuilders s1)[0 := ?b]\<rparr>"
  have "sched_step ?su s1 s2" unfolding s2_def
    by (rule sched_step.build [where ent = undefined]) (simp_all add: s1 r)
  with s1 have s2: "sched_reach ?su s2" "\<not> crashed s2" "generating s2" "sent s2 = 1"
      "workers s2 = [Waiting r 0]" "\<not> cancelled s2"
    by (auto simp: s2_def intro: sched_reach.step)
  obtain n err b' where ex: "Do r undefined (sbuilders s2 ! 0) = ((n, err), b')" by (metis surj_pair)
  obtain s3 w where "sched_step ?su s2 s3" "workers s3 = [Reporting (br_method (base r)) w (mask_no_error err)]"
      "\<not> crashed s3" "generating s3" "sent s3 = 1" "\<not> cancelled s3"
    using sched_step.execute [of s2 0 r 0 undefined n err b' ?su] s2 ex by simp
  with s2 have s3: "sched_reach ?su s3" "\<not> crashed s3" "generating s3" "sent s3 = 1"
      "workers s3 = [Reporting (br_method (base r)) w (mask_no_error err)]" "\<not> cancelled s3"
    by (auto intro: sched_reach.step)
  obtain s4 where "sched_step ?su s3 s4" "workers s4 = [Idle]"
      "\<not> crashed s4" "generating s4" "sent s4 = 1" "\<not> cancelled s4"
    using sched_step.report [where s = s3 and i = 0 and su = ?su and now = 0 and latency = "Fin 0"] s3
    by fastforce
  with s3 have s4: "sched_reach ?su s4" "\<not> crashed s4" "generating s4" "sent s4 = 1"
      "workers s4 = [Idle]" "\<not> cancelled s4"
    by (auto intro: sched_reach.step)
  define s5 where "s5 = s4\<lparr>generating := False\<rparr>"
  have "sched_step ?su s4 s5" unfolding s5_def
    by (rule sched_step.run_done) (simp_all add: s4 all_sent_def sel)
  with s4 have s5: "sched_reach ?su s5" by (auto intro: sched_reach.step)
  define s6 where "s6 = s5\<lparr>workers := (workers s5)[0 := Finished]\<rparr>"
  have "sched_step ?su s5 s6" unfolding s6_def
    by (rule sched_step.exit) (simp_all add: s5_def s4)
  with s5 have "sched_reach ?su s6" by (auto intro: sched_reach.step)
  moreover have "terminal s6" "\<not> cancelled s6" by (simp_all add: s6_def s5_def s4 terminal_def)
  ultimately show ?thesis by blast
qed

section \<open>Properties\<close>

text \<open>
  C15: every builder that the generator hands over is accounted for, in every state that
  any interleaving reaches: it led to a recorded outcome, is being processed by a worker,
  or was dropped by a worker whose rate limiter failed, which only happens when the context
  may end. With a positive total, never more than the total are handed over.
\<close>

theorem schedule_accounts:
  assumes "sched_reach su s"
  shows "sent s = int (observed (smetric s) + count_busy s + count_dropped s) \<and>
    (Total (su_spec su) > 0 \<longrightarrow> sent s \<le> Total (su_spec su)) \<and>
    (count_dropped s > 0 \<longrightarrow> cancelled s \<and> may_cancel su)"
  using sched_reach_inv [OF assms] by (auto simp: sched_inv_def)

theorem schedule_accounts_witness:
  "sched_reach sample_env (sched_init sample_env) \<and> sent (sched_init sample_env) = 0"
  using schedule_accounts [OF sched_reach.start, of sample_env] sched_reach.start [of sample_env]
  by (simp add: sched_init_def)

text \<open>
  C1: a schedule whose context did not end records exactly the requested total: when all
  workers have left and the run was not cancelled, the gathered result has as many
  latencies and errors as the spec's total, which is also the total it reports.
\<close>

theorem schedule_completes:
  assumes "sched_reach su s" "terminal s" "\<not> cancelled s"
  shows "int (result_count (Schedule_result su s d)) = Total (su_spec su) \<and>
    res_Total (Schedule_result su s d) = Total (su_spec su) \<and> Total (su_spec su) > 0"
  using completed_run [OF assms] by blast

theorem schedule_completes_witness:
  "\<exists>s. sched_reach sample_env s \<and> int (result_count (Schedule_result sample_env s 0)) = 1"
proof -
  obtain s where s: "sched_reach sample_env s" "terminal s" "\<not> cancelled s" using sample_run by blast
  have "Total (su_spec sample_env) = 1" by (simp add: sample_env_def)
  with schedule_completes [OF s, of 0] s(1) show ?thesis by auto
qed

text \<open>
  C2: the scheduler does not deadlock. With at least one client, every reachable state that
  has not panicked and in which some worker or the generator is still active has a next
  step; in particular the generator is released when all workers have dropped out, because
  a dropping worker cancels the context.
\<close>

theorem schedule_no_deadlock:
  assumes "sched_reach su s" "schedule_clients (su_spec su) > 0" "\<not> crashed s" "\<not> terminal s"
  shows "\<exists>t. sched_step su s t"
  using sched_progress [OF sched_reach_inv [OF assms(1)] assms(3,4,2)] .

theorem schedule_no_deadlock_witness: "\<exists>t. sched_step sample_env (sched_init sample_env) t"
  by (rule schedule_no_deadlock [OF sched_reach.start])
    (simp_all add: sched_init_def terminal_def sample_env_def sample_spec_def schedule_clients_def)

text \<open>
  C11: with a positive total every run of the scheduler is finite, whatever the responses,
  the random choices and the interleaving.
\<close>

theorem schedule_terminates:
  assumes "Total (su_spec su) > 0"
  shows "\<not> (\<exists>run. run 0 = sched_init su \<and> (\<forall>n. sched_step su (run n) (run (Suc n))))"
proof
  assume "\<exists>run. run 0 = sched_init su \<and> (\<forall>n. sched_step su (run n) (run (Suc n)))"
  then obtain run where "\<And>n. sched_step su (run n) (run (Suc n))" by blast
  then have "\<And>n. sched_fuel su (run (Suc n)) < sched_fuel su (run n)"
    using sched_fuel_decreases assms by blast
  then have "\<forall>n. (run (Suc n), run n) \<in> measure (sched_fuel su)" by simp
  then show False using wf_measure [of "sched_fuel su"] by (auto simp: wf_iff_no_infinite_down_chain)
qed

theorem schedule_terminates_witness:
  "\<not> (\<exists>run. run 0 = sched_init sample_env \<and> (\<forall>n. sched_step sample_env (run n) (run (Suc n))))"
  by (rule schedule_terminates) (simp add: sample_env_def)

text \<open>
  C37: a response that the scheduler counts as a success may still be a failure for the
  post/delete bookkeeping. When the server resets the stream with \<^verbatim>\<open>NO_ERROR\<close>, the scheduler
  records a latency, but a created object does not enter the cache and a deleted one is
  put back into it.
\<close>

theorem no_error_bookkeeping:
  assumes "errors_As as_StreamError e = Some ErrCodeNo"
  shows "mask_no_error (snd (fst (PostDelDiscardRequester_Do name operation (Inl e) c))) = None \<and>
    snd (PostDelDiscardRequester_Do name ''POST'' (Inl e) c) = c \<and>
    items (snd (PostDelDiscardRequester_Do name ''DELETE'' (Inl e) c)) = items c @ [name]"
  using assms name_cache.contents_push
  by (simp add: PostDelDiscardRequester_Do_def DiscardRequester_Do_def mask_no_error_def
      isHTTP2StreamNoError_def)

theorem no_error_bookkeeping_witness:
  "items (snd (PostDelDiscardRequester_Do ''p'' ''DELETE''
     (Inl \<lparr>err_text = ''stream error'', err_chain = [plain_link\<lparr>as_StreamError := Some 0\<rparr>]\<rparr>) InitCache)) = [''p'']"
  using no_error_bookkeeping
    [of "\<lparr>err_text = ''stream error'', err_chain = [plain_link\<lparr>as_StreamError := Some 0\<rparr>]\<rparr>" "''p''" "''POST''" InitCache]
  by (simp add: errors_As_def ErrCodeNo_def InitCache_def)

end
