(* ===== verification/Runner_Cmd.thy ===== *)
theory Runner_Cmd
  imports Cli_Utils Schedule Runner_Server
begin

text \<open>
  The command \<^verbatim>\<open>kperf runner run\<close>, \<^verbatim>\<open>cmd/kperf/commands/runner/runner.go\<close>, with the REST
  clients of \<^verbatim>\<open>request/client.go\<close>: loading the profile and overriding it by flags, running its
  specs one after the other, aggregating their results and building the reports. Reading
  the file, the YAML decoder, client-go and the operating system are arguments; each call of
  \<^verbatim>\<open>request.Schedule\<close> is a run of the scheduler of theory \<open>Schedule\<close>.
\<close>

section \<open>Clients (\<^verbatim>\<open>request/client.go\<close>)\<close>

record clientCfg =
  cc_userAgent :: string
  cc_qps :: float64
  cc_contentType :: ContentType
  cc_disableHTTP2 :: bool

definition defaultClientCfg :: clientCfg where
  "defaultClientCfg = \<lparr>cc_userAgent = '''', cc_qps = Fin (2 ^ 31 - 1),
     cc_contentType = ContentTypeJSON, cc_disableHTTP2 = False\<rparr>"

definition WithClientQPSOpt :: "float64 \<Rightarrow> clientCfg \<Rightarrow> clientCfg" where
  "WithClientQPSOpt qps cfg = (if flt (Fin 0) qps then cfg\<lparr>cc_qps := qps\<rparr> else cfg)"

definition WithClientUserAgentOpt :: "string \<Rightarrow> clientCfg \<Rightarrow> clientCfg" where
  "WithClientUserAgentOpt ua cfg = cfg\<lparr>cc_userAgent := ua\<rparr>"

definition WithClientContentTypeOpt :: "ContentType \<Rightarrow> clientCfg \<Rightarrow> clientCfg" where
  "WithClientContentTypeOpt ct cfg = cfg\<lparr>cc_contentType := ct\<rparr>"

definition WithClientDisableHTTP2Opt :: "bool \<Rightarrow> clientCfg \<Rightarrow> clientCfg" where
  "WithClientDisableHTTP2Opt b cfg = cfg\<lparr>cc_disableHTTP2 := b\<rparr>"

text \<open>The fields of \<^verbatim>\<open>rest.Config\<close> that kperf sets. \<open>rc_Proxy\<close> says that the proxy function is set,
  \<open>rc_Unstructured\<close> that the serializer is kperf's own; \<open>float32\<close> is Go's conversion.\<close>

record rest_Config =
  rc_QPS :: float64
  rc_UserAgent :: string
  rc_ContentType :: string
  rc_NextProtos :: "string list"
  rc_Proxy :: bool
  rc_Unstructured :: bool

datatype client_error = InvalidContentType string | BuildConfig goerr | RESTClientFor goerr

definition clientCfg_apply ::
  "(float64 \<Rightarrow> float64) \<Rightarrow> string \<Rightarrow> clientCfg \<Rightarrow> rest_Config \<Rightarrow> client_error + rest_Config" where
  "clientCfg_apply float32 default_agent cfg restCfg =
     (let rc1 = restCfg\<lparr>rc_QPS := float32 (cc_qps cfg),
                         rc_UserAgent := (if cc_userAgent cfg = '''' then default_agent else cc_userAgent cfg)\<rparr>;
          finish = (\<lambda>rc. if cc_disableHTTP2 cfg then rc\<lparr>rc_NextProtos := [''http/1.1'']\<rparr> else rc)
      in if cc_contentType cfg = ContentTypeJSON
         then Inr (finish (rc1\<lparr>rc_ContentType := ''application/json''\<rparr>))
         else if cc_contentType cfg = ContentTypeProtobuffer
         then Inr (finish (rc1\<lparr>rc_ContentType := ''application/vnd.kubernetes.protobuf''\<rparr>))
         else Inl (InvalidContentType (cc_contentType cfg)))"

text \<open>The loop that builds one client after the other from a copy of the configuration; \<open>client_for\<close> is
  the answer of \<^verbatim>\<open>rest.UnversionedRESTClientFor\<close> in each round.\<close>

fun build_clients ::
  "(nat \<Rightarrow> rest_Config \<Rightarrow> goerr + 'c) \<Rightarrow> rest_Config \<Rightarrow> nat \<Rightarrow> nat \<Rightarrow> client_error + 'c list" where
  "build_clients client_for restCfg i 0 = Inr []"
| "build_clients client_for restCfg i (Suc n) =
     (case client_for i restCfg of
        Inl e \<Rightarrow> Inl (RESTClientFor e)
      | Inr cli \<Rightarrow>
          (case build_clients client_for restCfg (Suc i) n of
             Inl e \<Rightarrow> Inl e
           | Inr clis \<Rightarrow> Inr (cli # clis)))"

text \<open>A negative number of connections panics in \<^verbatim>\<open>make\<close>, as does a capacity beyond memory.\<close>

definition NewClients ::
  "(float64 \<Rightarrow> float64) \<Rightarrow> string \<Rightarrow> (goerr + rest_Config) \<Rightarrow> (nat \<Rightarrow> rest_Config \<Rightarrow> goerr + 'c) \<Rightarrow>
   int \<Rightarrow> (clientCfg \<Rightarrow> clientCfg) list \<Rightarrow> (client_error + 'c list) outcome" where
  "NewClients float32 default_agent config client_for connsNum opts =
     (let cfg = fold (\<lambda>opt. opt) opts defaultClientCfg
      in case config of
           Inl e \<Rightarrow> Return (Inl (BuildConfig e))
         | Inr restCfg \<Rightarrow>
             (case clientCfg_apply float32 default_agent cfg
                     (restCfg\<lparr>rc_Unstructured := True, rc_Proxy := True\<rparr>) of
                Inl e \<Rightarrow> Return (Inl e)
              | Inr restCfg' \<Rightarrow>
                  (if connsNum < 0 then Panic
                   else Return (build_clients client_for restCfg' 0 (nat connsNum)))))"

section \<open>Loading the profile\<close>

datatype cmd_error =
  ReadConfig string goerr | UnmarshalConfig string goerr | ConfigInvalid verror
| OverridesNotAllowed | Clients client_error | OutputDir string goerr | CreateOutput goerr
| NoSpecs | SpecFailed nat new_error | EncodeFailed goerr

text \<open>The overrides, in the order of the code, one local value per assignment to a field of
  \<^verbatim>\<open>profileCfg.Specs[0]\<close>; the total and the duration are assigned twice.\<close>

definition override_spec :: "Context \<Rightarrow> LoadProfileSpec \<Rightarrow> LoadProfileSpec" where
  "override_spec c s =
     (let rate = (if cli_IsSet c ''rate'' then cli_Float64 c ''rate'' else Rate s);
          conns = (if cli_IsSet c ''conns'' \<or> Conns s = 0 then cli_Int c ''conns'' else Conns s);
          client = (if cli_IsSet c ''client'' \<or> Client s = 0 then cli_Int c ''client'' else Client s);
          total0 = (if cli_IsSet c ''total'' then cli_Int c ''total'' else Total s);
          duration0 = (if cli_IsSet c ''duration'' then cli_Int c ''duration'' else Duration s);
          duration = (if total0 > 0 \<and> duration0 > 0 then 0 else duration0);
          total = (if total0 = 0 \<and> duration = 0 then cli_Int c ''total'' else total0);
          contentType = (if cli_IsSet c ''content-type'' \<or> spec_ContentType s = ''''
                         then cli_String c ''content-type'' else spec_ContentType s);
          disableHTTP2 = (if cli_IsSet c ''disable-http2'' then cli_Bool c ''disable-http2''
                          else DisableHTTP2 s);
          maxRetries = (if cli_IsSet c ''max-retries'' then cli_Int c ''max-retries'' else MaxRetries s)
      in \<lparr>Rate = rate, Total = total, Duration = duration, Conns = conns, Client = client,
          spec_ContentType = contentType, DisableHTTP2 = disableHTTP2, MaxRetries = maxRetries,
          Requests = Requests s\<rparr>)"

text \<open>\<^verbatim>\<open>profileCfg.Specs[0]\<close> is read on every path, so a profile without specs panics before it is
  validated.\<close>

definition loadConfig ::
  "(string \<Rightarrow> goerr + string) \<Rightarrow> (string \<Rightarrow> goerr + LoadProfile) \<Rightarrow> Context \<Rightarrow>
   (cmd_error + LoadProfile) outcome" where
  "loadConfig read_file unmarshal c =
     (let cfgPath = cli_String c ''config''
      in case read_file cfgPath of
           Inl e \<Rightarrow> Return (Inl (ReadConfig cfgPath e))
         | Inr raw \<Rightarrow>
             (case unmarshal raw of
                Inl e \<Rightarrow> Return (Inl (UnmarshalConfig cfgPath e))
              | Inr cfg \<Rightarrow>
                  (case Specs cfg of
                     [] \<Rightarrow> Panic
                   | s # ss \<Rightarrow>
                       (case LoadProfile_Validate (cfg\<lparr>Specs := override_spec c s # ss\<rparr>) of
                          (Valid, cfg') \<Rightarrow> Return (Inr cfg')
                        | (Invalid e, cfg') \<Rightarrow> Return (Inl (ConfigInvalid e))
                        | (NilDereference, cfg') \<Rightarrow> Panic))))"

definition overrideFlags :: "string list" where
  "overrideFlags = [''rate'', ''conns'', ''client'', ''total'', ''duration'', ''content-type'',
     ''disable-http2'', ''max-retries'']"

definition hasCliOverrides :: "Context \<Rightarrow> bool" where
  "hasCliOverrides c = list_ex (cli_IsSet c) overrideFlags"

section \<open>Running the specs\<close>

text \<open>What a call of \<^verbatim>\<open>request.Schedule\<close> may return: the error of building its requests, or the
  result gathered when a run of the scheduler has ended.\<close>

inductive Schedule_returns :: "run_env \<Rightarrow> LoadProfileSpec \<Rightarrow> new_error + Result \<Rightarrow> bool" for su where
  Schedule_failed: "Schedule_returns su spec (Inl e)"
    if "NewWeightedRandomRequests spec = (Return (Inl e), spec')"
| Schedule_gathered: "Schedule_returns su spec (Inr (Schedule_result su' s d))"
    if "NewWeightedRandomRequests spec = (Return (Inr rndReqs), spec')"
      "su' = su\<lparr>su_spec := spec', su_reqs := rndReqs\<rparr>" "sched_reach su' s" "terminal s"

text \<open>\<open>schedule\<close> is the answer of each call of \<^verbatim>\<open>Schedule\<close>.\<close>

fun execute_loop ::
  "(nat \<Rightarrow> LoadProfileSpec \<Rightarrow> new_error + Result) \<Rightarrow> nat \<Rightarrow> LoadProfileSpec list \<Rightarrow>
   Result list \<Rightarrow> int \<Rightarrow> cmd_error + Result list \<times> int" where
  "execute_loop schedule i [] results totalDuration = Inr (results, totalDuration)"
| "execute_loop schedule i (spec # specs) results totalDuration =
     (case schedule i spec of
        Inl e \<Rightarrow> Inl (SpecFailed (i + 1) e)
      | Inr result \<Rightarrow>
          execute_loop schedule (Suc i) specs (results @ [result])
            (wrap64 (totalDuration + res_Duration result)))"

fun aggregate_latencies ::
  "float64 list gomap \<Rightarrow> float64 list gomap \<Rightarrow> float64 list gomap" where
  "aggregate_latencies m [] = m"
| "aggregate_latencies m ((url, latencies) # ls) =
     (let m' = (if map_of m url = None then AList.update url [] m else m)
      in aggregate_latencies (AList.update url (gomap_get [] m' url @ latencies) m') ls)"

definition aggregate_add :: "Result \<Rightarrow> Result \<Rightarrow> Result" where
  "aggregate_add result agg =
     \<lparr>rs_Errors = rs_Errors agg @ rs_Errors result,
      rs_LatenciesByURL = aggregate_latencies (rs_LatenciesByURL agg) (rs_LatenciesByURL result),
      rs_TotalReceivedBytes = wrap64 (rs_TotalReceivedBytes agg + rs_TotalReceivedBytes result),
      res_Duration = res_Duration agg,
      res_Total = wrap64 (res_Total agg + res_Total result)\<rparr>"

definition aggregateResults :: "Result list \<Rightarrow> Result" where
  "aggregateResults results =
     fold aggregate_add results
       \<lparr>rs_Errors = [], rs_LatenciesByURL = [], rs_TotalReceivedBytes = 0,
        res_Duration = 0, res_Total = 0\<rparr>"

definition executeSpecs ::
  "(nat \<Rightarrow> LoadProfileSpec \<Rightarrow> new_error + Result) \<Rightarrow> LoadProfileSpec list \<Rightarrow>
   cmd_error + Result list \<times> Result" where
  "executeSpecs schedule specs =
     (if length specs = 0 then Inl NoSpecs
      else case execute_loop schedule 0 specs [] 0 of
        Inl e \<Rightarrow> Inl e
      | Inr (results, totalDuration) \<Rightarrow>
          Inr (results, (aggregateResults results)\<lparr>res_Duration := totalDuration\<rparr>))"

section \<open>Reports\<close>

text \<open>The loop that builds the percentiles of each URL. \<^verbatim>\<open>BuildPercentileLatencies\<close> sorts the slice
  it is given, which is the one the result holds, so the raw data that the report carries are
  the sorted samples.\<close>

fun report_by_url ::
  "float64 list gomap \<Rightarrow> (percentile_list gomap \<times> float64 list gomap) option" where
  "report_by_url [] = Some ([], [])"
| "report_by_url ((u, l) # ls) =
     (case BuildPercentileLatencies l of
        None \<Rightarrow> None
      | Some (ps, l') \<Rightarrow>
          (case report_by_url ls of
             None \<Rightarrow> None
           | Some (byURL, raw) \<Rightarrow> Some ((u, ps) # byURL, (u, l') # raw)))"

definition buildRunnerMetricReport :: "Result \<Rightarrow> bool \<Rightarrow> RunnerMetricReport option" where
  "buildRunnerMetricReport stats includeRawData =
     (case BuildPercentileLatencies (concat (map snd (rs_LatenciesByURL stats))) of
        None \<Rightarrow> None
      | Some (ps, _) \<Rightarrow>
          (case report_by_url (rs_LatenciesByURL stats) of
             None \<Rightarrow> None
           | Some (byURL, raw) \<Rightarrow> Some
               \<lparr>rep_Total = res_Total stats,
                rep_Duration = duration_String (res_Duration stats),
                rep_Errors = (if includeRawData then rs_Errors stats else []),
                rep_ErrorStats = BuildErrorStatsGroupByType (rs_Errors stats),
                rep_TotalReceivedBytes = rs_TotalReceivedBytes stats,
                rep_LatenciesByURL = (if includeRawData then raw else []),
                rep_PercentileLatencies = ps,
                rep_PercentileLatenciesByURL = byURL\<rparr>))"

fun build_reports :: "bool \<Rightarrow> Result list \<Rightarrow> RunnerMetricReport list option" where
  "build_reports raw [] = Some []"
| "build_reports raw (r # rs) =
     (case buildRunnerMetricReport r raw of
        None \<Rightarrow> None
      | Some rep \<Rightarrow> map_option (\<lambda>reps. rep # reps) (build_reports raw rs))"

text \<open>The report that is encoded, and the error of the encoder; \<open>encode\<close> is its answer. \<open>None\<close> is a
  panic.\<close>

definition printMultiSpecResults ::
  "(MultiSpecRunnerMetricReport \<Rightarrow> goerr option) \<Rightarrow> bool \<Rightarrow> Result list \<Rightarrow> Result \<Rightarrow>
   (cmd_error option \<times> MultiSpecRunnerMetricReport) option" where
  "printMultiSpecResults encode raw perSpecResults aggregated =
     (case build_reports raw perSpecResults of
        None \<Rightarrow> None
      | Some perSpec \<Rightarrow>
          (case buildRunnerMetricReport aggregated raw of
             None \<Rightarrow> None
           | Some agg \<Rightarrow>
               (let multi = \<lparr>multi_PerSpecResults = perSpec, multi_Aggregated = agg\<rparr>
                in Some (map_option EncodeFailed (encode multi), multi))))"

section \<open>The command\<close>

text \<open>The answers of the operating system when the output file is prepared: \<^verbatim>\<open>os.Stat\<close> of its
  directory, \<^verbatim>\<open>os.MkdirAll\<close> and \<^verbatim>\<open>os.Create\<close>.\<close>

record output_answers =
  out_stat :: "goerr option"
  out_mkdir :: "goerr option"
  out_create :: "goerr option"

definition open_output ::
  "(goerr \<Rightarrow> bool) \<Rightarrow> output_answers \<Rightarrow> string \<Rightarrow> cmd_error option" where
  "open_output is_not_exist ans outputFilePath =
     (if outputFilePath = '''' then None
      else let dir = path_dir outputFilePath;
               err = (case out_stat ans of
                        None \<Rightarrow> None
                      | Some e \<Rightarrow> (if is_not_exist e then out_mkdir ans else Some e))
           in case err of
                Some e \<Rightarrow> Some (OutputDir dir e)
              | None \<Rightarrow> map_option CreateOutput (out_create ans))"

text \<open>What the command depends on besides its flags.\<close>

record 'c run_deps =
  dep_read_file :: "string \<Rightarrow> goerr + string"
  dep_unmarshal :: "string \<Rightarrow> goerr + LoadProfile"
  dep_float32 :: "float64 \<Rightarrow> float64"
  dep_agent :: string
  dep_config :: "goerr + rest_Config"
  dep_client_for :: "nat \<Rightarrow> rest_Config \<Rightarrow> goerr + 'c"
  dep_is_not_exist :: "goerr \<Rightarrow> bool"
  dep_output :: output_answers
  dep_schedule :: "'c list \<Rightarrow> nat \<Rightarrow> LoadProfileSpec \<Rightarrow> new_error + Result"
  dep_encode :: "MultiSpecRunnerMetricReport \<Rightarrow> goerr option"

definition run_clients :: "'c run_deps \<Rightarrow> Context \<Rightarrow> LoadProfileSpec \<Rightarrow> (client_error + 'c list) outcome" where
  "run_clients d c firstSpec =
     NewClients (dep_float32 d) (dep_agent d) (dep_config d) (dep_client_for d) (Conns firstSpec)
       [WithClientUserAgentOpt (cli_String c ''user-agent''), WithClientQPSOpt (Rate firstSpec),
        WithClientContentTypeOpt (spec_ContentType firstSpec),
        WithClientDisableHTTP2Opt (DisableHTTP2 firstSpec)]"

definition runCommand_Action ::
  "'c run_deps \<Rightarrow> Context \<Rightarrow> (cmd_error option \<times> MultiSpecRunnerMetricReport option) outcome" where
  "runCommand_Action d c =
     bind_outcome (loadConfig (dep_read_file d) (dep_unmarshal d) c) (\<lambda>loaded.
       case loaded of
         Inl e \<Rightarrow> Return (Some e, None)
       | Inr profileCfg \<Rightarrow>
           (if length (Specs profileCfg) > 1 \<and> hasCliOverrides c then Return (Some OverridesNotAllowed, None)
            else bind_outcome (run_clients d c (hd (Specs profileCfg))) (\<lambda>clients.
              case clients of
                Inl e \<Rightarrow> Return (Some (Clients e), None)
              | Inr restClis \<Rightarrow>
                  (case open_output (dep_is_not_exist d) (dep_output d) (cli_String c ''result'') of
                     Some e \<Rightarrow> Return (Some e, None)
                   | None \<Rightarrow>
                       (case executeSpecs (dep_schedule d restClis) (Specs profileCfg) of
                          Inl e \<Rightarrow> Return (Some e, None)
                        | Inr (perSpecResults, aggregated) \<Rightarrow>
                            (case printMultiSpecResults (dep_encode d) (cli_Bool c ''raw-data'')
                                    perSpecResults aggregated of
                               None \<Rightarrow> Panic
                             | Some (err, multi) \<Rightarrow> Return (err, Some multi)))))))"

section \<open>Loading yields a runnable profile\<close>

text \<open>After the overrides the first spec never has both a total and a duration.\<close>

lemma override_spec_exclusive: "\<not> (Total (override_spec c s) > 0 \<and> Duration (override_spec c s) > 0)"
  by (simp add: override_spec_def Let_def)

lemma override_spec_flags:
  "cli_IsSet c ''rate'' \<Longrightarrow> Rate (override_spec c s) = cli_Float64 c ''rate''"
  "cli_IsSet c ''conns'' \<Longrightarrow> Conns (override_spec c s) = cli_Int c ''conns''"
  "cli_IsSet c ''client'' \<Longrightarrow> Client (override_spec c s) = cli_Int c ''client''"
  "cli_IsSet c ''total'' \<Longrightarrow> Total (override_spec c s) = cli_Int c ''total''"
  "cli_IsSet c ''content-type'' \<Longrightarrow> spec_ContentType (override_spec c s) = cli_String c ''content-type''"
  "cli_IsSet c ''disable-http2'' \<Longrightarrow> DisableHTTP2 (override_spec c s) = cli_Bool c ''disable-http2''"
  "cli_IsSet c ''max-retries'' \<Longrightarrow> MaxRetries (override_spec c s) = cli_Int c ''max-retries''"
  "Requests (override_spec c s) = Requests s"
  by (simp_all add: override_spec_def Let_def)

lemma Validate_spec_fields:
  assumes "LoadProfileSpec_Validate s = (Valid, s')"
  shows "Total s' = Total s" "Duration s' = Duration s" "Rate s' = Rate s" "Conns s' = Conns s"
    "Client s' = Client s"
proof -
  from assms obtain rs where "s' = s\<lparr>Requests := rs\<rparr>" unfolding LoadProfileSpec_Validate_Valid by blast
  then show "Total s' = Total s" "Duration s' = Duration s" "Rate s' = Rate s" "Conns s' = Conns s"
    "Client s' = Client s" by simp_all
qed

lemma loadConfig_Inr:
  assumes "loadConfig read_file unmarshal c = Return (Inr lp)"
  obtains s ss s' ss' where "Specs lp = s' # ss'"
    "LoadProfileSpec_Validate (override_spec c s) = (Valid, s')"
    "list_all2 (\<lambda>s s'. LoadProfileSpec_Validate s = (Valid, s')) ss ss'"
proof -
  obtain cfg s ss where "Specs cfg = s # ss"
    and v: "LoadProfile_Validate (cfg\<lparr>Specs := override_spec c s # ss\<rparr>) = (Valid, lp)"
    using assms
    by (auto simp: loadConfig_def Let_def split: sum.splits list.splits prod.splits check.splits)
  then obtain ts where ts: "validate_specs 0 (override_spec c s # ss) = (Valid, ts)" "Specs lp = ts"
    by (auto simp: LoadProfile_Validate_def split: if_splits prod.splits)
  then obtain s' ss' where "ts = s' # ss'"
    "LoadProfileSpec_Validate (override_spec c s) = (Valid, s')"
    "list_all2 (\<lambda>s s'. LoadProfileSpec_Validate s = (Valid, s')) ss ss'"
    unfolding validate_specs_Valid list_all2_Cons1 by blast
  with ts(2) that show thesis by blast
qed

lemma loadConfig_specs:
  assumes "loadConfig read_file unmarshal c = Return (Inr lp)"
  shows "Specs lp \<noteq> []" "\<forall>s \<in> set (Specs lp). LoadProfileSpec_Validate s = (Valid, s)"
    "(0 < Total (hd (Specs lp))) \<noteq> (0 < Duration (hd (Specs lp)))"
proof -
  from loadConfig_Inr [OF assms] obtain s ss s' ss' where
    lp: "Specs lp = s' # ss'" and v: "LoadProfileSpec_Validate (override_spec c s) = (Valid, s')"
    and vs: "list_all2 (\<lambda>s s'. LoadProfileSpec_Validate s = (Valid, s')) ss ss'" .
  have "\<forall>s \<in> set ss'. LoadProfileSpec_Validate s = (Valid, s)"
    using vs by (induction rule: list_all2_induct) (auto dest: LoadProfileSpec_Validate_idem)
  with lp LoadProfileSpec_Validate_idem [OF v]
  show "Specs lp \<noteq> []" "\<forall>s \<in> set (Specs lp). LoadProfileSpec_Validate s = (Valid, s)" by auto
  show "(0 < Total (hd (Specs lp))) \<noteq> (0 < Duration (hd (Specs lp)))"
    using override_spec_exclusive [of c s] Validate_spec_fields(1,2) [OF v] lp
      v [unfolded LoadProfileSpec_Validate_Valid] by auto
qed


section \<open>Results and their aggregate\<close>

lemma aggregate_latencies_eq: "aggregate_latencies m ls = push_urls ls m"
proof (induction ls arbitrary: m)
  case (Cons x ls)
  obtain u l where x: "x = (u, l)" by (cases x)
  let ?m = "if map_of m u = None then AList.update u [] m else m"
  have "AList.update u (gomap_get [] ?m u @ l) ?m = AList.update u (gomap_get [] m u @ l) m"
    by (simp add: gomap_get_def)
  with Cons show ?case by (simp add: x Let_def)
qed simp

definition result_latencies :: "Result \<Rightarrow> float64 list" where
  "result_latencies r = concat (map snd (rs_LatenciesByURL r))"

lemma result_count_latencies:
  "result_count r = length (rs_Errors r) + length (result_latencies r)"
  by (simp add: result_count_def result_latencies_def length_concat comp_def)

text \<open>What aggregating some results gives.\<close>

definition aggregate_of :: "Result list \<Rightarrow> Result \<Rightarrow> bool" where
  "aggregate_of rs agg \<longleftrightarrow>
     rs_Errors agg = concat (map rs_Errors rs) \<and>
     wf_gomap (rs_LatenciesByURL agg) \<and>
     (\<forall>u. gomap_get [] (rs_LatenciesByURL agg) u = concat (map (\<lambda>r. url_of u (rs_LatenciesByURL r)) rs)) \<and>
     mset (result_latencies agg) = mset (concat (map result_latencies rs)) \<and>
     rs_TotalReceivedBytes agg = wrap64 (\<Sum>r\<leftarrow>rs. rs_TotalReceivedBytes r) \<and>
     res_Total agg = wrap64 (\<Sum>r\<leftarrow>rs. res_Total r)"

lemma aggregate_of_results: "aggregate_of rs (aggregateResults rs)"
proof (induction rs rule: rev_induct)
  case Nil
  show ?case by (simp add: aggregate_of_def aggregateResults_def result_latencies_def)
next
  case (snoc r rs)
  let ?a = "aggregateResults rs"
  have "aggregateResults (rs @ [r]) = aggregate_add r ?a" by (simp add: aggregateResults_def)
  with snoc show ?case
    by (simp add: aggregate_of_def aggregate_add_def aggregate_latencies_eq push_urls_wf
        push_urls_get push_urls_mset result_latencies_def)
qed

lemma aggregate_count:
  assumes "aggregate_of rs agg"
  shows "result_count agg = (\<Sum>r\<leftarrow>rs. result_count r)"
proof -
  have "length (result_latencies agg) = length (concat (map result_latencies rs))"
    using assms by (metis aggregate_of_def mset_eq_length)
  moreover have "(\<Sum>r\<leftarrow>rs. result_count r) =
      length (concat (map rs_Errors rs)) + length (concat (map result_latencies rs))"
    by (induction rs) (simp_all add: result_count_latencies)
  ultimately show ?thesis using assms by (simp add: result_count_latencies aggregate_of_def)
qed

lemma aggregate_of_duration [simp]: "aggregate_of rs (agg\<lparr>res_Duration := d\<rparr>) = aggregate_of rs agg"
  by (simp add: aggregate_of_def result_latencies_def)

lemma execute_loop_ok:
  assumes "\<forall>k < length specs. \<exists>r. schedule (i + k) (specs ! k) = Inr r"
  shows "\<exists>rs d. execute_loop schedule i specs acc t = Inr (acc @ rs, d) \<and>
    length rs = length specs \<and> (\<forall>k < length specs. schedule (i + k) (specs ! k) = Inr (rs ! k))"
  using assms
proof (induction specs arbitrary: i acc t)
  case (Cons spec specs)
  obtain r where r: "schedule i spec = Inr r" using Cons.prems by force
  have "\<forall>k < length specs. \<exists>r. schedule (Suc i + k) (specs ! k) = Inr r"
    using Cons.prems by fastforce
  from Cons.IH [OF this, of "acc @ [r]" "wrap64 (t + res_Duration r)"] obtain rs d
    where rs: "execute_loop schedule (Suc i) specs (acc @ [r]) (wrap64 (t + res_Duration r)) =
        Inr (acc @ r # rs, d)" "length rs = length specs"
      "\<forall>k < length specs. schedule (Suc i + k) (specs ! k) = Inr (rs ! k)"
    by auto
  have "\<forall>k < length (spec # specs). schedule (i + k) ((spec # specs) ! k) = Inr ((r # rs) ! k)"
    using r rs(3) by (auto simp: nth_Cons split: nat.splits)
  with rs(1,2) r show ?case by (intro exI [of _ "r # rs"] exI [of _ d]) simp
qed simp

lemma executeSpecs_ok:
  assumes "specs \<noteq> []" "\<forall>k < length specs. \<exists>r. schedule k (specs ! k) = Inr r"
  shows "\<exists>rs agg. executeSpecs schedule specs = Inr (rs, agg) \<and> length rs = length specs \<and>
    (\<forall>k < length specs. schedule k (specs ! k) = Inr (rs ! k)) \<and> aggregate_of rs agg"
  using execute_loop_ok [of specs schedule 0 "[]" 0] assms
  by (auto simp: executeSpecs_def aggregate_of_results)

text \<open>A validated spec without a duration, under a context that never ends, returns a result that
  holds as many outcomes as the spec's total.\<close>

lemma Schedule_returns_complete:
  assumes "Schedule_returns su spec res" "LoadProfileSpec_Validate spec = (Valid, spec)"
    "\<not> su_external su" "Duration spec \<le> 0"
  shows "\<exists>r. res = Inr r \<and> int (result_count r) = Total spec \<and> res_Total r = Total spec"
  using assms(1)
proof cases
  case (Schedule_failed e spec')
  with NewWeightedRandomRequests_ok [OF assms(2)] show ?thesis by simp
next
  case (Schedule_gathered rndReqs spec' su' s d)
  have spec: "su_spec su' = spec" "su_external su' = su_external su"
    using Schedule_gathered NewWeightedRandomRequests_ok [OF assms(2)] by simp_all
  have "cancelled s \<Longrightarrow> may_cancel su'"
    using sched_reach_inv [OF Schedule_gathered(4)] by (simp add: sched_inv_def)
  with spec assms(3,4) have "\<not> cancelled s" by (auto simp: may_cancel_def)
  from completed_run(1,2) [OF Schedule_gathered(4,5) this, of d] spec Schedule_gathered(1)
  show ?thesis by simp
qed

section \<open>Reports and results\<close>

lemma report_by_url_eq:
  assumes "\<forall>l \<in> snd ` set m. length l < 2 ^ 40"
  shows "report_by_url m = Some (map (\<lambda>(u, l). (u, percentiles_of l)) m, map (\<lambda>(u, l). (u, sort l)) m)"
  using assms
proof (induction m)
  case (Cons x m)
  then show ?case by (cases x) (auto simp: Build_ok)
qed simp

definition raw_report :: "Result \<Rightarrow> RunnerMetricReport" where
  "raw_report r = the (buildRunnerMetricReport r True)"

lemma buildRunnerMetricReport_eq:
  assumes "length (result_latencies r) < 2 ^ 40"
  shows "buildRunnerMetricReport r raw = Some
    \<lparr>rep_Total = res_Total r, rep_Duration = duration_String (res_Duration r),
     rep_Errors = (if raw then rs_Errors r else []),
     rep_ErrorStats = BuildErrorStatsGroupByType (rs_Errors r),
     rep_TotalReceivedBytes = rs_TotalReceivedBytes r,
     rep_LatenciesByURL = (if raw then map (\<lambda>(u, l). (u, sort l)) (rs_LatenciesByURL r) else []),
     rep_PercentileLatencies = percentiles_of (result_latencies r),
     rep_PercentileLatenciesByURL = map (\<lambda>(u, l). (u, percentiles_of l)) (rs_LatenciesByURL r)\<rparr>"
proof -
  have "\<forall>l \<in> snd ` set (rs_LatenciesByURL r). length l < 2 ^ 40"
    using sublist_length_less [of "rs_LatenciesByURL r"] assms by (auto simp: result_latencies_def)
  with assms show ?thesis
    by (simp add: buildRunnerMetricReport_def report_by_url_eq Build_ok result_latencies_def)
qed

lemma mset_sorted_urls:
  "mset (concat (map snd (map (\<lambda>(u, l). (u, sort l)) m))) = mset (concat (map snd m))"
  by (induction m) auto

lemma raw_report_latencies:
  assumes "\<forall>r \<in> set rs. length (result_latencies r) < 2 ^ 40"
  shows "mset (all_latencies (map raw_report rs)) = mset (concat (map result_latencies rs))"
  using assms
proof (induction rs)
  case (Cons r rs)
  then show ?case
    using mset_sorted_urls [of "rs_LatenciesByURL r"]
    by (simp add: all_latencies_def raw_report_def buildRunnerMetricReport_eq result_latencies_def)
qed (simp add: all_latencies_def)

lemma raw_report_fields:
  assumes "length (result_latencies r) < 2 ^ 40" "is_int64 (res_Duration r)"
  shows "rep_Errors (raw_report r) = rs_Errors r"
    "rep_TotalReceivedBytes (raw_report r) = rs_TotalReceivedBytes r"
    "rep_ErrorStats (raw_report r) = BuildErrorStatsGroupByType (rs_Errors r)"
    "report_duration (raw_report r) = res_Duration r"
  using assms by (simp_all add: raw_report_def buildRunnerMetricReport_eq report_duration_def)

section \<open>Properties\<close>


definition sample_flags :: Context where
  "sample_flags = \<lparr>cli_IsSet = (\<lambda>_. False), cli_Int = (\<lambda>_. 1), cli_Float64 = (\<lambda>_. Fin 0),
     cli_String = (\<lambda>_. ContentTypeJSON), cli_Bool = (\<lambda>_. False), cli_StringSlice = (\<lambda>_. []),
     cli_GlobalString = (\<lambda>_. ''''), cli_GlobalBool = (\<lambda>_. False), cli_Args = []\<rparr>"

abbreviation sample_run_profile :: LoadProfile where
  "sample_run_profile \<equiv> \<lparr>lp_Version = 1, Description = '''', Specs = [su_spec sample_env]\<rparr>"

lemma sample_env_Valid: "LoadProfileSpec_Validate (su_spec sample_env) = (Valid, su_spec sample_env)"
  by (simp add: sample_env_def sample_spec_def empty_request_def LoadProfileSpec_Validate_def
      ContentType_Validate_def WeightedRequest_Validate_def RequestGet_Validate_def
      kube_metadata_def KGVR_Validate_def del: KGVR_Validate_None kube_metadata_None)

lemma sample_load:
  "loadConfig (\<lambda>_. Inr []) (\<lambda>_. Inr sample_run_profile) sample_flags = Return (Inr sample_run_profile)"
proof -
  have "override_spec sample_flags (su_spec sample_env) = su_spec sample_env"
    by (simp add: override_spec_def sample_flags_def sample_env_def sample_spec_def)
  then show ?thesis by (simp add: loadConfig_def LoadProfile_Validate_def sample_env_Valid)
qed

lemma sample_schedule: "\<exists>r. Schedule_returns sample_env (su_spec sample_env) (Inr r)"
proof -
  obtain s where s: "sched_reach sample_env s" "terminal s" using sample_run by blast
  have new: "NewWeightedRandomRequests (su_spec sample_env) = (Return (Inr (su_reqs sample_env)), su_spec sample_env)"
    by (simp add: NewWeightedRandomRequests_def sample_env_Valid)
       (simp add: sample_env_def sample_spec_def empty_request_def request_builder_def newRequestGetBuilder_def)
  have "sample_env = sample_env\<lparr>su_spec := su_spec sample_env, su_reqs := su_reqs sample_env\<rparr>" by simp
  from Schedule_gathered [OF new this s] show ?thesis by blast
qed


text \<open>
  C21: a profile that \<^verbatim>\<open>loadConfig\<close> returns can be run as it is: it has a spec, all its specs are
  acceptable and unchanged by another validation, and the first spec, to which the flags apply,
  is bounded either by a number of requests or by a duration and not by both. A profile
  without specs is not reported as invalid; loading it panics.
\<close>

theorem load_config_runnable:
  "(loadConfig read_file unmarshal c = Return (Inr lp) \<longrightarrow>
      Specs lp \<noteq> [] \<and> list_all spec_ok (Specs lp) \<and>
      (\<forall>s \<in> set (Specs lp). LoadProfileSpec_Validate s = (Valid, s)) \<and>
      (0 < Total (hd (Specs lp))) \<noteq> (0 < Duration (hd (Specs lp)))) \<and>
   (read_file (cli_String c ''config'') = Inr raw \<and> unmarshal raw = Inr cfg \<and> Specs cfg = [] \<longrightarrow>
      loadConfig read_file unmarshal c = Panic)"
  using loadConfig_specs [of read_file unmarshal c lp]
  by (auto simp: loadConfig_def list_all_iff spec_ok_iff)

theorem load_config_runnable_witness:
  "list_all spec_ok [su_spec sample_env] \<and>
   loadConfig (\<lambda>_. Inr []) (\<lambda>_. Inr (sample_run_profile\<lparr>Specs := []\<rparr>)) sample_flags = Panic"
  using load_config_runnable [of "\<lambda>_. Inr []" "\<lambda>_. Inr sample_run_profile" sample_flags sample_run_profile]
    load_config_runnable [of "\<lambda>_. Inr []" "\<lambda>_. Inr (sample_run_profile\<lparr>Specs := []\<rparr>)" sample_flags
      undefined "[]" "sample_run_profile\<lparr>Specs := []\<rparr>"] sample_load
  by simp


definition sample_result :: Result where
  "sample_result = \<lparr>rs_Errors = [], rs_LatenciesByURL = [(''u'', [Fin 2, Fin 1])],
     rs_TotalReceivedBytes = 7, res_Duration = 5, res_Total = 2\<rparr>"


end
