(* ===== verification/Helm_Values.thy ===== *)
theory Helm_Values
  imports Float64 Go_Errors "HOL-Library.Multiset" "HOL-Library.List_Lexorder" "HOL-Library.Char_ord"
begin

text \<open>
  Chart values and the functions of \<^verbatim>\<open>helmcli/release.go\<close> that work on them: \<^verbatim>\<open>copyValues\<close>, which
  copies a tree of values through JSON, \<^verbatim>\<open>applyValues\<close>, which merges one tree into another,
  and the two kinds of value appliers. A value is what YAML, JSON and Helm's \<^verbatim>\<open>strvals\<close> put into
  an \<^verbatim>\<open>interface{}\<close>; \<open>HAnyMap\<close> is YAML's map with keys that are no strings. A map of values may be
  nil.
\<close>

datatype (plugins only: code size) hval =
  HNil | HBool bool | HInt int | HFloat float64 | HStr string | HList "hval list"
| HMap "(string \<times> hval) list" | HAnyMap "(hval \<times> hval) list"

type_synonym 'a nilable = "'a option"
type_synonym hvalues = "hval gomap"

section \<open>UTF-8\<close>

text \<open>The length of the encoding that a string starts with, as \<^verbatim>\<open>utf8.DecodeRune\<close> finds it;
  \<open>None\<close> for an invalid one.\<close>

definition cont_byte :: "nat \<Rightarrow> nat \<Rightarrow> string \<Rightarrow> nat \<Rightarrow> bool" where
  "cont_byte lo hi s i \<longleftrightarrow> i < length s \<and> lo \<le> of_char (s ! i) \<and> of_char (s ! i) \<le> hi"

definition utf8_len :: "string \<Rightarrow> nat option" where
  "utf8_len s =
     (if s = [] then None
      else let b = (of_char (hd s) :: nat);
               c = cont_byte 0x80 0xBF s
           in if b < 0x80 then Some 1
              else if 0xC2 \<le> b \<and> b \<le> 0xDF then (if c 1 then Some 2 else None)
              else if 0xE0 \<le> b \<and> b \<le> 0xEF then
                (if cont_byte (if b = 0xE0 then 0xA0 else 0x80) (if b = 0xED then 0x9F else 0xBF) s 1 \<and> c 2
                 then Some 3 else None)
              else if 0xF0 \<le> b \<and> b \<le> 0xF4 then
                (if cont_byte (if b = 0xF0 then 0x90 else 0x80) (if b = 0xF4 then 0x8F else 0xBF) s 1 \<and>
                    c 2 \<and> c 3
                 then Some 4 else None)
              else None)"

definition replacement :: string where
  "replacement = [CHR 0xEF, CHR 0xBF, CHR 0xBD]"

lemma utf8_len_bounds: "utf8_len s = Some n \<Longrightarrow> 0 < n \<and> n \<le> length s"
  by (cases s) (auto simp: utf8_len_def cont_byte_def Let_def Suc_le_eq split: if_splits)

text \<open>What remains of a string that is written as JSON and read back: each byte that is no part of
  an encoding becomes the replacement character.\<close>

function utf8_coerce :: "string \<Rightarrow> string" where
  "utf8_coerce s =
     (if s = [] then []
      else case utf8_len s of
        Some n \<Rightarrow> take n s @ utf8_coerce (drop n s)
      | None \<Rightarrow> replacement @ utf8_coerce (tl s))"
  by auto
termination
  by (relation "measure length") (auto dest: utf8_len_bounds)

declare utf8_coerce.simps [simp del]

section \<open>Copying through JSON\<close>

datatype json_error = UnsupportedValue | UnsupportedType

text \<open>\<^verbatim>\<open>json.Marshal\<close> followed by \<^verbatim>\<open>json.Unmarshal\<close> into an \<^verbatim>\<open>interface{}\<close>: numbers become \<^verbatim>\<open>float64\<close>,
  keys are written in the order of their bytes and the last of two equal ones wins.\<close>

fun json_copy :: "hval \<Rightarrow> json_error + hval"
  and json_copy_list :: "hval list \<Rightarrow> json_error + hval list"
  and json_copy_map :: "(string \<times> hval) list \<Rightarrow> json_error + (string \<times> hval) list" where
  "json_copy HNil = Inr HNil"
| "json_copy (HBool b) = Inr (HBool b)"
| "json_copy (HInt i) = Inr (HFloat (float_of_int i))"
| "json_copy (HFloat f) = (case f of Fin q \<Rightarrow> Inr (HFloat f) | _ \<Rightarrow> Inl UnsupportedValue)"
| "json_copy (HStr s) = Inr (HStr (utf8_coerce s))"
| "json_copy (HList vs) = map_sum id HList (json_copy_list vs)"
| "json_copy (HMap m) =
     map_sum id (\<lambda>m'. HMap (fold (\<lambda>(k, v). AList.update (utf8_coerce k) v) (sort_key fst m') []))
       (json_copy_map m)"
| "json_copy (HAnyMap m) = Inl UnsupportedType"
| "json_copy_list [] = Inr []"
| "json_copy_list (v # vs) =
     (case json_copy v of
        Inl e \<Rightarrow> Inl e
      | Inr v' \<Rightarrow> (case json_copy_list vs of Inl e \<Rightarrow> Inl e | Inr vs' \<Rightarrow> Inr (v' # vs')))"
| "json_copy_map [] = Inr []"
| "json_copy_map ((k, v) # m) =
     (case json_copy v of
        Inl e \<Rightarrow> Inl e
      | Inr v' \<Rightarrow> (case json_copy_map m of Inl e \<Rightarrow> Inl e | Inr m' \<Rightarrow> Inr ((k, v') # m')))"

text \<open>A nil map is written as \<^verbatim>\<open>null\<close>, and reading \<^verbatim>\<open>null\<close> into a map makes it nil.\<close>

definition copyValues :: "hvalues nilable \<Rightarrow> json_error + hvalues nilable" where
  "copyValues src =
     (case src of
        None \<Rightarrow> Inr None
      | Some m \<Rightarrow>
          (case json_copy_map m of
             Inl e \<Rightarrow> Inl e
           | Inr m' \<Rightarrow>
               Inr (Some (fold (\<lambda>(k, v). AList.update (utf8_coerce k) v) (sort_key fst m') []))))"

section \<open>Merging\<close>

text \<open>The loop over \<^verbatim>\<open>from\<close>; assigning to a key of \<^verbatim>\<open>to\<close> in each branch. It never returns an error.\<close>

fun applyValues :: "hvalues \<Rightarrow> hvalues \<Rightarrow> hvalues" where
  "applyValues to [] = to"
| "applyValues to ((k, v) # from) =
     applyValues
       (case map_of to k of
          None \<Rightarrow> AList.update k v to
        | Some w \<Rightarrow>
            (case v of
               HMap v' \<Rightarrow>
                 (case w of
                    HMap w' \<Rightarrow> AList.update k (HMap (applyValues w' v')) to
                  | _ \<Rightarrow> AList.update k v to)
             | _ \<Rightarrow> AList.update k v to))
       from"

datatype applier_error = ParseInto string goerr

text \<open>An applier may fail, and it panics when it assigns to a nil map. \<open>parse_into\<close> is
  \<^verbatim>\<open>strvals.ParseInto\<close>, which writes into the map it is given.\<close>

type_synonym ValuesApplier = "hvalues nilable \<Rightarrow> (applier_error + hvalues nilable) outcome"

fun string_path_loop ::
  "(string \<Rightarrow> hvalues nilable \<Rightarrow> (goerr + hvalues nilable) outcome) \<Rightarrow> string list \<Rightarrow> ValuesApplier" where
  "string_path_loop parse_into [] to = Return (Inr to)"
| "string_path_loop parse_into (v # vs) to =
     bind_outcome (parse_into v to) (\<lambda>res.
       case res of
         Inl e \<Rightarrow> Return (Inl (ParseInto v e))
       | Inr to' \<Rightarrow> string_path_loop parse_into vs to')"

definition StringPathValuesApplier ::
  "(string \<Rightarrow> hvalues nilable \<Rightarrow> (goerr + hvalues nilable) outcome) \<Rightarrow> string list \<Rightarrow> ValuesApplier" where
  "StringPathValuesApplier parse_into vs = string_path_loop parse_into vs"

text \<open>\<open>unmarshal\<close> is the YAML decoder. The document may be empty, which leaves no values.\<close>

definition YAMLValuesApplier ::
  "(string \<Rightarrow> goerr + hvalues) \<Rightarrow> string \<Rightarrow> goerr + ValuesApplier" where
  "YAMLValuesApplier unmarshal yamlValues =
     (case unmarshal yamlValues of
        Inl e \<Rightarrow> Inl e
      | Inr vals \<Rightarrow> Inr (\<lambda>to.
          (case to of
             None \<Rightarrow> (if vals = [] then Return (Inr None) else Panic)
           | Some m \<Rightarrow> Return (Inr (Some (applyValues m vals))))))"

section \<open>Facts about copying\<close>

lemma cont_byte_append:
  "i < n \<Longrightarrow> n \<le> length s \<Longrightarrow> cont_byte lo hi (take n s @ t) i = cont_byte lo hi s i"
  by (simp add: cont_byte_def nth_append)

lemma utf8_len_append:
  assumes "utf8_len s = Some n"
  shows "utf8_len (take n s @ t) = Some n"
proof -
  from utf8_len_bounds [OF assms] have n: "0 < n" "n \<le> length s" by simp_all
  then have s: "s \<noteq> []" "take n s @ t \<noteq> []" "hd (take n s @ t) = hd s" by (auto simp: hd_append)
  show ?thesis
    using assms n(2) s unfolding utf8_len_def Let_def
    by (simp split: if_split_asm add: cont_byte_append)
qed

lemma utf8_len_replacement [simp]: "utf8_len (replacement @ t) = Some 3"
  by (simp add: utf8_len_def replacement_def cont_byte_def Let_def)

lemma utf8_coerce_Nil [simp]: "utf8_coerce [] = []"
  by (simp add: utf8_coerce.simps)

lemma utf8_coerce_idem [simp]: "utf8_coerce (utf8_coerce s) = utf8_coerce s"
proof (induction s rule: utf8_coerce.induct)
  case (1 s)
  show ?case
  proof (cases "s = []")
    case False
    show ?thesis
    proof (cases "utf8_len s")
      case None
      have "utf8_coerce s = replacement @ utf8_coerce (tl s)"
        using False None by (simp add: utf8_coerce.simps [of s])
      moreover have "utf8_coerce (replacement @ u) = replacement @ utf8_coerce u" for u
        by (subst utf8_coerce.simps) (simp, simp add: replacement_def)
      ultimately show ?thesis using 1(1) [OF False None] by simp
    next
      case (Some n)
      note n = utf8_len_bounds [OF Some]
      have "utf8_coerce s = take n s @ utf8_coerce (drop n s)"
        using False Some by (simp add: utf8_coerce.simps [of s])
      moreover have "utf8_coerce (take n s @ u) = take n s @ utf8_coerce u" for u
        using utf8_len_append [OF Some, of u] n False
        by (subst utf8_coerce.simps) simp
      ultimately show ?thesis using 1(2) [OF False Some] by simp
    qed
  qed simp
qed

definition valid_utf8 :: "string \<Rightarrow> bool" where
  "valid_utf8 s \<longleftrightarrow> utf8_coerce s = s"

lemma valid_utf8_coerce [simp]: "valid_utf8 (utf8_coerce s)"
  by (simp add: valid_utf8_def)

lemma ascii_valid_utf8: "list_all (\<lambda>c. (of_char c :: nat) < 0x80) s \<Longrightarrow> valid_utf8 s"
proof (induction s)
  case (Cons c s)
  then have "utf8_len (c # s) = Some 1" by (simp add: utf8_len_def Let_def)
  with Cons show ?case by (simp add: valid_utf8_def utf8_coerce.simps [of "c # s"])
qed (simp add: valid_utf8_def)


lemma json_copy_map_rel:
  "json_copy_map m = Inr m' \<Longrightarrow> list_all2 (\<lambda>(k, v) (k', v'). k' = k \<and> json_copy v = Inr v') m m'"
proof (induction m arbitrary: m')
  case (Cons x m)
  then show ?case by (cases x) (auto split: sum.splits)
qed simp

lemma map_of_rel:
  "list_all2 (\<lambda>(k, v) (k', v'). k' = k \<and> json_copy v = Inr v') m m' \<Longrightarrow>
   (\<forall>v. map_of m k = Some v \<longrightarrow> (\<exists>v'. json_copy v = Inr v' \<and> map_of m' k = Some v')) \<and>
   (map_of m k = None \<longrightarrow> map_of m' k = None)"
  by (induction rule: list_all2_induct) auto

lemma keys_rel:
  "list_all2 (\<lambda>(k, v) (k', v'). k' = k \<and> json_copy v = Inr v') m m' \<Longrightarrow> map fst m' = map fst m"
  by (induction rule: list_all2_induct) auto

lemma fold_update_map_of:
  "distinct (map fst xs) \<Longrightarrow>
   map_of (fold (\<lambda>(k, v). AList.update k v) xs acc) k =
     (case map_of xs k of Some v \<Rightarrow> Some v | None \<Rightarrow> map_of acc k)"
proof (induction xs arbitrary: acc)
  case (Cons x xs)
  then have "fst x \<notin> fst ` set xs" by simp
  then have "map_of xs (fst x) = None" by (simp add: map_of_eq_None_iff)
  with Cons show ?case by (cases x) (auto split: option.splits)
qed simp

lemma fold_update_keys_wf: "wf_gomap acc \<Longrightarrow> wf_gomap (fold (\<lambda>(k, v). AList.update (f k) v) xs acc)"
proof (induction xs arbitrary: acc)
  case (Cons x xs)
  then show ?case by (cases x) simp
qed simp

lemma map_of_sort:
  assumes "distinct (map fst xs)"
  shows "map_of (sort_key f xs) = map_of xs"
proof -
  have "distinct (map fst (sort_key f xs))"
    using assms by (metis mset_map mset_sort mset_eq_imp_distinct_iff)
  then show ?thesis using assms by (simp add: map_of_inject_set)
qed

text \<open>A copy has the same keys, and every value is copied.\<close>

lemma copyValues_lookup:
  assumes "copyValues (Some m) = Inr c" "wf_gomap m" "\<forall>k \<in> fst ` set m. valid_utf8 k"
  obtains m' where "c = Some m'" "wf_gomap m'"
    "\<And>k v. map_of m k = Some v \<Longrightarrow> \<exists>v'. json_copy v = Inr v' \<and> map_of m' k = Some v'"
    "\<And>k. map_of m k = None \<Longrightarrow> map_of m' k = None"
proof -
  obtain n where n: "json_copy_map m = Inr n"
    and c: "c = Some (fold (\<lambda>(k, v). AList.update (utf8_coerce k) v) (sort_key fst n) [])"
    using assms(1) by (auto simp: copyValues_def split: sum.splits)
  note rel = json_copy_map_rel [OF n]
  have keys: "map fst n = map fst m" using keys_rel [OF rel] .
  then have dn: "distinct (map fst n)" and vn: "\<forall>k \<in> fst ` set n. valid_utf8 k"
    using assms(2,3) by (metis, metis list.set_map)
  let ?s = "sort_key fst n"
  have "fold (\<lambda>(k, v). AList.update (utf8_coerce k) v) ?s [] = fold (\<lambda>(k, v). AList.update k v) ?s []"
    using vn by (intro fold_cong) (auto simp: valid_utf8_def)
  moreover have "distinct (map fst ?s)" using dn by (metis mset_map mset_sort mset_eq_imp_distinct_iff)
  ultimately have look: "map_of (fold (\<lambda>(k, v). AList.update (utf8_coerce k) v) ?s []) k = map_of n k" for k
    using map_of_sort [OF dn, of fst] by (simp add: fold_update_map_of split: option.splits)
  show thesis
  proof (rule that [OF c])
    show "wf_gomap (fold (\<lambda>(k, v). AList.update (utf8_coerce k) v) ?s [])"
      by (rule fold_update_keys_wf) simp
  qed (use map_of_rel [OF rel] look in auto)
qed

section \<open>Facts about merging\<close>

fun merged :: "hval option \<Rightarrow> hval option \<Rightarrow> hval option" where
  "merged w None = w"
| "merged None (Some v) = Some v"
| "merged (Some (HMap a)) (Some (HMap b)) = Some (HMap (applyValues a b))"
| "merged (Some w) (Some v) = Some v"

lemma applyValues_step:
  "map_of (case map_of to k of
      None \<Rightarrow> AList.update k v to
    | Some w \<Rightarrow>
        (case v of
           HMap v' \<Rightarrow>
             (case w of
                HMap w' \<Rightarrow> AList.update k (HMap (applyValues w' v')) to
              | _ \<Rightarrow> AList.update k v to)
         | _ \<Rightarrow> AList.update k v to)) = (map_of to)(k := merged (map_of to k) (Some v))"
proof (cases "map_of to k")
  case (Some w)
  then show ?thesis by (cases v; cases w) simp_all
qed simp

lemma applyValues_lookup:
  "wf_gomap from \<Longrightarrow> map_of (applyValues to from) k = merged (map_of to k) (map_of from k)"
proof (induction "from" arbitrary: to)
  case (Cons x frm)
  obtain j v where x: "x = (j, v)" by (cases x)
  from Cons.prems have j: "map_of frm j = None" by (simp add: x map_of_eq_None_iff)
  show ?case
    using Cons j by (simp add: x applyValues_step del: fun_upd_apply) simp
qed simp

lemma applyValues_wf: "wf_gomap to \<Longrightarrow> wf_gomap (applyValues to from)"
proof (induction "from" arbitrary: to)
  case (Cons x frm)
  obtain j v where x: "x = (j, v)" by (cases x)
  show ?case unfolding x applyValues.simps
    by (rule Cons.IH) (use Cons.prems in \<open>simp split: option.split hval.split\<close>)
qed simp

text \<open>Values by path, and well-formed trees.\<close>

fun lookup_path :: "string list \<Rightarrow> hval \<Rightarrow> hval option" where
  "lookup_path [] v = Some v"
| "lookup_path (k # ks) (HMap m) =
     (case map_of m k of None \<Rightarrow> None | Some v \<Rightarrow> lookup_path ks v)"
| "lookup_path (k # ks) v = None"

fun wf_hval :: "hval \<Rightarrow> bool" and wf_values :: "(string \<times> hval) list \<Rightarrow> bool" where
  "wf_hval (HMap m) \<longleftrightarrow> wf_gomap m \<and> wf_values m"
| "wf_hval v \<longleftrightarrow> True"
| "wf_values [] \<longleftrightarrow> True"
| "wf_values ((k, v) # m) \<longleftrightarrow> wf_hval v \<and> wf_values m"

fun is_map :: "hval \<Rightarrow> bool" where
  "is_map (HMap m) \<longleftrightarrow> True"
| "is_map v \<longleftrightarrow> False"

lemma wf_values_lookup: "wf_values m \<Longrightarrow> map_of m k = Some v \<Longrightarrow> wf_hval v"
proof (induction m)
  case (Cons x m)
  then show ?case by (cases x) (auto split: if_splits)
qed simp

lemma merged_cases:
  obtains (kept) "v = None" "merged w v = w"
  | (set) x where "v = Some x" "merged w v = Some x" "\<not> (\<exists>a b. w = Some (HMap a) \<and> x = HMap b)"
  | (both) a b where "w = Some (HMap a)" "v = Some (HMap b)" "merged w v = Some (HMap (applyValues a b))"
  by (cases "(w, v)" rule: merged.cases) auto

text \<open>A value that the applied tree has at a path is at that path afterwards.\<close>

lemma applyValues_sets:
  assumes "wf_hval (HMap from)" "lookup_path p (HMap from) = Some v" "\<not> is_map v"
  shows "lookup_path p (HMap (applyValues to from)) = Some v"
  using assms
proof (induction p arbitrary: to "from")
  case (Cons k ks)
  from Cons.prems(2) obtain x where x: "map_of from k = Some x" "lookup_path ks x = Some v"
    by (auto split: option.splits)
  have look: "map_of (applyValues to from) k = merged (map_of to k) (Some x)"
    using Cons.prems(1) x by (simp add: applyValues_lookup)
  show ?case
  proof (cases rule: merged_cases [of "Some x" "map_of to k"])
    case (both a b)
    then have "lookup_path ks (HMap (applyValues a b)) = Some v"
      using Cons.IH [of b a] Cons.prems(1,3) x wf_values_lookup [of "from" k] by auto
    with look both show ?thesis by simp
  qed (use look x in auto)
qed auto

text \<open>A path that the applied tree does not reach, and that it does not cut off, keeps its value.\<close>

lemma applyValues_keeps:
  assumes "wf_hval (HMap from)" "lookup_path p (HMap from) = None"
    and "\<forall>q x. lookup_path q (HMap from) = Some x \<and> (\<exists>r. p = q @ r) \<longrightarrow> is_map x"
  shows "lookup_path p (HMap (applyValues to from)) = lookup_path p (HMap to)"
  using assms
proof (induction p arbitrary: to "from")
  case (Cons k ks)
  show ?case
  proof (cases "map_of from k")
    case None
    with Cons.prems(1) show ?thesis by (simp add: applyValues_lookup)
  next
    case (Some x)
    have look: "map_of (applyValues to from) k = merged (map_of to k) (Some x)"
      using Cons.prems(1) Some by (simp add: applyValues_lookup)
    have "is_map x" using Cons.prems(3) [rule_format, of "[k]" x] Some by simp
    then obtain b where b: "x = HMap b" by (cases x) auto
    have sub: "lookup_path ks (HMap b) = None" "wf_hval (HMap b)"
      using Cons.prems(1,2) Some b wf_values_lookup [of "from" k x] by auto
    have pre: "\<forall>q y. lookup_path q (HMap b) = Some y \<and> (\<exists>r. ks = q @ r) \<longrightarrow> is_map y"
    proof (intro allI impI)
      fix q y assume "lookup_path q (HMap b) = Some y \<and> (\<exists>r. ks = q @ r)"
      then show "is_map y" using Cons.prems(3) [rule_format, of "k # q" y] Some b by auto
    qed
    show ?thesis
    proof (cases rule: merged_cases [of "Some x" "map_of to k"])
      case (set y)
      then have "lookup_path (k # ks) (HMap to) = None"
        using b sub by (cases "map_of to k"; cases "the (map_of to k)"; cases ks) auto
      with look set b sub show ?thesis by simp
    next
      case (both a b')
      with b have "lookup_path ks (HMap (applyValues a b)) = lookup_path ks (HMap a)"
        using Cons.IH [OF sub(2,1) pre] by simp
      with look both b show ?thesis by simp
    qed simp
  qed
qed simp

section \<open>Properties\<close>

text \<open>
  C22: applying a tree of values to another one is a merge by path, whatever the order in which
  Go iterates over its maps: a value (no map) that the applied tree has at a path is found
  there afterwards, and a path that the applied tree neither has nor cuts off by a value at one of
  its prefixes keeps the value it had.
\<close>

theorem values_merge_by_path:
  assumes "wf_hval (HMap from)"
  shows "(lookup_path p (HMap from) = Some v \<and> \<not> is_map v \<longrightarrow>
      lookup_path p (HMap (applyValues to from)) = Some v) \<and>
    (lookup_path p (HMap from) = None \<and>
       (\<forall>q x. lookup_path q (HMap from) = Some x \<and> (\<exists>r. p = q @ r) \<longrightarrow> is_map x) \<longrightarrow>
      lookup_path p (HMap (applyValues to from)) = lookup_path p (HMap to))"
  using applyValues_sets [OF assms] applyValues_keeps [OF assms] by blast

theorem values_merge_by_path_witness:
  "lookup_path [''flowcontrol'', ''level''] (HMap (applyValues
     [(''flowcontrol'', HMap [(''level'', HStr ''low''), (''order'', HInt 1)])]
     [(''flowcontrol'', HMap [(''level'', HStr ''high'')])])) = Some (HStr ''high'') \<and>
   lookup_path [''name''] (HMap (applyValues [(''name'', HStr ''x'')]
     [(''flowcontrol'', HMap [(''level'', HStr ''high'')])])) = Some (HStr ''x'')"
proof -
  let ?f = "[(''flowcontrol'', HMap [(''level'', HStr ''high'')])]"
  have wf: "wf_hval (HMap ?f)" by simp
  have "is_map x" if "lookup_path q (HMap ?f) = Some x" "[''name''] = q @ r" for q x r
    using that by (cases q) (auto split: if_splits)
  then have "\<forall>q x. lookup_path q (HMap ?f) = Some x \<and> (\<exists>r. [''name''] = q @ r) \<longrightarrow> is_map x"
    by blast
  with values_merge_by_path [OF wf, of "[''name'']" _ "[(''name'', HStr ''x'')]"]
    values_merge_by_path [OF wf, of "[''flowcontrol'', ''level'']" "HStr ''high''"
      "[(''flowcontrol'', HMap [(''level'', HStr ''low''), (''order'', HInt 1)])]"]
  show ?thesis by simp
qed

end
