(* ===== verification/Helm_Cli.thy ===== *)
theory Helm_Cli
  imports Helm_Values Go_Path
begin

text \<open>
  The package \<^verbatim>\<open>helmcli\<close>, through which kperf installs, upgrades, lists and deletes Helm releases,
  and the chart loader of \<^verbatim>\<open>manifests/helm.go\<close>. Helm itself is a parameter: the record \<open>helm\<close> has
  one field per action that kperf runs, on an abstract state of the cluster.
\<close>

section \<open>Helm\<close>

record chart =
  ch_Name :: string
  ch_Values :: "hvalues nilable"

record release =
  rel_Name :: string
  rel_Labels :: "string gomap"
  rel_Config :: "hvalues nilable"
  rel_Status :: string

text \<open>The fields of \<^verbatim>\<open>action.Install\<close> and \<^verbatim>\<open>action.Upgrade\<close> that kperf sets; timeouts are in nanoseconds.\<close>

record install_opts =
  io_CreateNamespace :: bool
  io_Atomic :: bool
  io_Namespace :: string
  io_ReleaseName :: string
  io_IsUpgrade :: bool
  io_Timeout :: int
  io_Labels :: "string gomap"
  io_Wait :: bool

record upgrade_opts =
  uo_Namespace :: string
  uo_Atomic :: bool
  uo_Timeout :: int
  uo_MaxHistory :: int
  uo_Wait :: bool
  uo_Labels :: "string gomap"

text \<open>The first two arguments of \<open>helm_Init\<close> are the kubeconfig and the namespace; every other action
  runs in a namespace. \<open>is_not_found\<close> is \<^verbatim>\<open>errors.Is(err, driver.ErrReleaseNotFound)\<close> and
  \<open>eq_not_found\<close> the comparison \<^verbatim>\<open>err == driver.ErrReleaseNotFound\<close>.\<close>

record 'h helm =
  helm_Init :: "string \<Rightarrow> string \<Rightarrow> goerr option"
  helm_Get :: "string \<Rightarrow> string \<Rightarrow> 'h \<Rightarrow> goerr + release"
  helm_List :: "string \<Rightarrow> 'h \<Rightarrow> goerr + release list"
  helm_History :: "string \<Rightarrow> int \<Rightarrow> string \<Rightarrow> 'h \<Rightarrow> goerr option"
  helm_Install :: "install_opts \<Rightarrow> chart \<Rightarrow> hvalues nilable \<Rightarrow> 'h \<Rightarrow> (goerr + release) \<times> 'h"
  helm_Upgrade :: "upgrade_opts \<Rightarrow> string \<Rightarrow> chart \<Rightarrow> hvalues nilable \<Rightarrow> 'h \<Rightarrow> (goerr + release) \<times> 'h"
  helm_Uninstall :: "string \<Rightarrow> string \<Rightarrow> 'h \<Rightarrow> goerr option \<times> 'h"
  is_not_found :: "goerr \<Rightarrow> bool"
  eq_not_found :: "goerr \<Rightarrow> bool"

datatype helm_error =
  CopyValuesFailed json_error | ApplyFailed applier_error | InitActionConfig goerr
| InstallFailed string goerr | UpgradeFailed string goerr

section \<open>Releases (\<^verbatim>\<open>helmcli/release.go\<close>)\<close>

record ReleaseCli =
  cl_namespace :: string
  cl_name :: string
  cl_ch :: chart
  cl_values :: "hvalues nilable"
  cl_labels :: "string gomap"

fun apply_all :: "ValuesApplier list \<Rightarrow> hvalues nilable \<Rightarrow> (applier_error + hvalues nilable) outcome" where
  "apply_all [] vals = Return (Inr vals)"
| "apply_all (applier # appliers) vals =
     bind_outcome (applier vals) (\<lambda>res.
       case res of Inl e \<Rightarrow> Return (Inl e) | Inr vals' \<Rightarrow> apply_all appliers vals')"

text \<open>Copying some values and applying the appliers to the copy, as \<^verbatim>\<open>NewReleaseCli\<close> and
  \<^verbatim>\<open>initValues\<close> both do.\<close>

definition copy_and_apply ::
  "hvalues nilable \<Rightarrow> ValuesApplier list \<Rightarrow> (helm_error + hvalues nilable) outcome" where
  "copy_and_apply src appliers =
     (case copyValues src of
        Inl e \<Rightarrow> Return (Inl (CopyValuesFailed e))
      | Inr vals \<Rightarrow>
          bind_outcome (apply_all appliers vals) (\<lambda>res.
            case res of
              Inl e \<Rightarrow> Return (Inl (ApplyFailed e))
            | Inr vals' \<Rightarrow> Return (Inr vals')))"

definition NewReleaseCli ::
  "'h helm \<Rightarrow> string \<Rightarrow> string \<Rightarrow> string \<Rightarrow> chart \<Rightarrow> string gomap \<Rightarrow> ValuesApplier list \<Rightarrow>
   (helm_error + ReleaseCli) outcome" where
  "NewReleaseCli H kubeconfigPath namespace name ch labels valuesAppliers =
     bind_outcome (copy_and_apply (ch_Values ch) valuesAppliers) (\<lambda>res.
       case res of
         Inl e \<Rightarrow> Return (Inl e)
       | Inr vals \<Rightarrow>
           (case helm_Init H kubeconfigPath namespace of
              Some e \<Rightarrow> Return (Inl (InitActionConfig e))
            | None \<Rightarrow>
                Return (Inr \<lparr>cl_namespace = namespace, cl_name = name, cl_ch = ch,
                             cl_values = vals, cl_labels = labels\<rparr>)))"

definition initValues ::
  "ReleaseCli \<Rightarrow> ValuesApplier list \<Rightarrow> (helm_error + hvalues nilable) outcome" where
  "initValues cli valuesAppliers = copy_and_apply (cl_values cli) valuesAppliers"

definition install_release ::
  "'h helm \<Rightarrow> ReleaseCli \<Rightarrow> int \<Rightarrow> hvalues nilable \<Rightarrow> 'h \<Rightarrow> (helm_error option \<times> ReleaseCli) \<times> 'h" where
  "install_release H cli timeout vals h =
     (case helm_Install H
             \<lparr>io_CreateNamespace = True, io_Atomic = True, io_Namespace = cl_namespace cli,
              io_ReleaseName = cl_name cli, io_IsUpgrade = True, io_Timeout = timeout,
              io_Labels = cl_labels cli, io_Wait = True\<rparr> (cl_ch cli) vals h of
        (Inl e, h') \<Rightarrow> ((Some (InstallFailed (cl_name cli) e), cli), h')
      | (Inr rel, h') \<Rightarrow> ((None, cli\<lparr>cl_values := rel_Config rel\<rparr>), h'))"

definition upgrade_release ::
  "'h helm \<Rightarrow> ReleaseCli \<Rightarrow> int \<Rightarrow> hvalues nilable \<Rightarrow> 'h \<Rightarrow> (helm_error option \<times> ReleaseCli) \<times> 'h" where
  "upgrade_release H cli timeout vals h =
     (case helm_Upgrade H
             \<lparr>uo_Namespace = cl_namespace cli, uo_Atomic = True, uo_Timeout = timeout,
              uo_MaxHistory = 1, uo_Wait = True, uo_Labels = cl_labels cli\<rparr>
             (cl_name cli) (cl_ch cli) vals h of
        (Inl e, h') \<Rightarrow> ((Some (UpgradeFailed (cl_name cli) e), cli), h')
      | (Inr rel, h') \<Rightarrow> ((None, cli\<lparr>cl_values := rel_Config rel\<rparr>), h'))"

text \<open>Every answer of the history other than not-found, an error included, leads to an upgrade.\<close>

definition ReleaseCli_Deploy ::
  "'h helm \<Rightarrow> ReleaseCli \<Rightarrow> int \<Rightarrow> ValuesApplier list \<Rightarrow> 'h \<Rightarrow>
   ((helm_error option \<times> ReleaseCli) \<times> 'h) outcome" where
  "ReleaseCli_Deploy H cli timeout valuesAppliers h =
     bind_outcome (initValues cli valuesAppliers) (\<lambda>res.
       case res of
         Inl e \<Rightarrow> Return ((Some e, cli), h)
       | Inr vals \<Rightarrow>
           (case helm_History H (cl_namespace cli) 1 (cl_name cli) h of
              Some e \<Rightarrow>
                (if eq_not_found H e then Return (install_release H cli timeout vals h)
                 else Return (upgrade_release H cli timeout vals h))
            | None \<Rightarrow> Return (upgrade_release H cli timeout vals h)))"

definition ReleaseCli_Uninstall :: "'h helm \<Rightarrow> ReleaseCli \<Rightarrow> 'h \<Rightarrow> goerr option \<times> 'h" where
  "ReleaseCli_Uninstall H cli h = helm_Uninstall H (cl_namespace cli) (cl_name cli) h"

section \<open>The other clients\<close>

text \<open>A client is its namespace, once the action configuration has been initialised.\<close>

definition NewGetCli :: "'h helm \<Rightarrow> string \<Rightarrow> string \<Rightarrow> helm_error + string" where
  "NewGetCli H kubeconfigPath namespace =
     (case helm_Init H kubeconfigPath namespace of
        Some e \<Rightarrow> Inl (InitActionConfig e)
      | None \<Rightarrow> Inr namespace)"

definition GetCli_Get :: "'h helm \<Rightarrow> string \<Rightarrow> string \<Rightarrow> 'h \<Rightarrow> goerr + release" where
  "GetCli_Get H cli releaseName h = helm_Get H cli releaseName h"

definition NewListCli :: "'h helm \<Rightarrow> string \<Rightarrow> string \<Rightarrow> helm_error + string" where
  "NewListCli H kubeconfigPath namespace =
     (case helm_Init H kubeconfigPath namespace of
        Some e \<Rightarrow> Inl (InitActionConfig e)
      | None \<Rightarrow> Inr namespace)"

definition ListCli_List :: "'h helm \<Rightarrow> string \<Rightarrow> 'h \<Rightarrow> goerr + release list" where
  "ListCli_List H cli h = helm_List H cli h"

definition NewDeleteCli :: "'h helm \<Rightarrow> string \<Rightarrow> string \<Rightarrow> helm_error + string" where
  "NewDeleteCli H kubeconfigPath namespace =
     (case helm_Init H kubeconfigPath namespace of
        Some e \<Rightarrow> Inl (InitActionConfig e)
      | None \<Rightarrow> Inr namespace)"

definition DeleteCli_Delete :: "'h helm \<Rightarrow> string \<Rightarrow> string \<Rightarrow> 'h \<Rightarrow> goerr option \<times> 'h" where
  "DeleteCli_Delete H cli releaseName h =
     (case helm_Uninstall H cli releaseName h of
        (Some e, h') \<Rightarrow> ((if is_not_found H e then None else Some e), h')
      | (None, h') \<Rightarrow> (None, h'))"

section \<open>Charts (\<^verbatim>\<open>manifests/helm.go\<close>)\<close>

text \<open>The embedded files by path, in the order of \<^verbatim>\<open>fs.WalkDir\<close>. The component must be a file or
  the directory of some file.\<close>

type_synonym embed_fs = "string gomap"

datatype chart_error = ChartFiles string | ChartRead string | ChartLoad goerr

definition getFilesFromFSRecursively :: "embed_fs \<Rightarrow> string \<Rightarrow> chart_error + string list" where
  "getFilesFromFSRecursively targetFS componentName =
     (case filter (\<lambda>p. p = componentName \<or> has_prefix p (componentName @ ''/'')) (map fst targetFS) of
        [] \<Rightarrow> Inl (ChartFiles componentName)
      | fs \<Rightarrow> Inr fs)"

definition trim_prefix :: "string \<Rightarrow> string \<Rightarrow> string" where
  "trim_prefix s p = (if has_prefix s p then drop (length p) s else s)"

fun read_chart_files :: "embed_fs \<Rightarrow> string \<Rightarrow> string list \<Rightarrow> chart_error + string gomap" where
  "read_chart_files targetFS topDir [] = Inr []"
| "read_chart_files targetFS topDir (f # fs) =
     (case map_of targetFS f of
        None \<Rightarrow> Inl (ChartRead f)
      | Some data \<Rightarrow>
          (case read_chart_files targetFS topDir fs of
             Inl e \<Rightarrow> Inl e
           | Inr bufs \<Rightarrow> Inr ((trim_prefix f topDir, data) # bufs)))"

definition loadChart ::
  "(string gomap \<Rightarrow> goerr + chart) \<Rightarrow> embed_fs \<Rightarrow> string \<Rightarrow> chart_error + chart" where
  "loadChart load_files targetFS componentName =
     (case getFilesFromFSRecursively targetFS componentName of
        Inl e \<Rightarrow> Inl e
      | Inr fs \<Rightarrow>
          (case read_chart_files targetFS (componentName @ ''/'') fs of
             Inl e \<Rightarrow> Inl e
           | Inr bufs \<Rightarrow> map_sum ChartLoad id (load_files bufs)))"

lemma bind_outcome_Return:
  "bind_outcome x f = Return y \<longleftrightarrow> (\<exists>z. x = Return z \<and> f z = Return y)"
  "Return y = bind_outcome x f \<longleftrightarrow> (\<exists>z. x = Return z \<and> f z = Return y)"
  by (cases x; auto)+

lemma NewReleaseCli_fields:
  assumes "NewReleaseCli H kube ns name ch labels as = Return (Inr cli)"
  shows "cl_namespace cli = ns" "cl_name cli = name" "cl_labels cli = labels"
    "copy_and_apply (ch_Values ch) as = Return (Inr (cl_values cli))"
  using assms
  by (auto simp: NewReleaseCli_def elim!: bind_outcome.elims split: sum.splits option.splits)

section \<open>What kperf relies on of Helm\<close>

text \<open>
  The documented behaviour of Helm's actions, relative to the releases that are stored in a
  state: reading returns what is stored, a not-found answer means that nothing is stored, an
  atomic install or upgrade stores the release with the given values and labels or leaves the
  releases as they were, and an uninstall removes its release or leaves the releases as they were.
\<close>

type_synonym 'h releases_of = "'h \<Rightarrow> string \<times> string \<Rightarrow> release option"

definition stored :: "string \<Rightarrow> string gomap \<Rightarrow> hvalues nilable \<Rightarrow> release \<Rightarrow> bool" where
  "stored name labels vals r \<longleftrightarrow> rel_Name r = name \<and> rel_Labels r = labels \<and> rel_Config r = vals"

definition helm_ok :: "'h helm \<Rightarrow> 'h releases_of \<Rightarrow> bool" where
  "helm_ok H rels \<longleftrightarrow>
     (\<forall>ns n h r. helm_Get H ns n h = Inr r \<longrightarrow> rels h (ns, n) = Some r) \<and>
     (\<forall>io ch v h r h'. io_Atomic io \<longrightarrow> helm_Install H io ch v h = (r, h') \<longrightarrow>
        (case r of
           Inl e \<Rightarrow> rels h' = rels h
         | Inr r \<Rightarrow> stored (io_ReleaseName io) (io_Labels io) v r \<and>
                    rels h' = (rels h)((io_Namespace io, io_ReleaseName io) \<mapsto> r))) \<and>
     (\<forall>uo n ch v h r h'. uo_Atomic uo \<longrightarrow> helm_Upgrade H uo n ch v h = (r, h') \<longrightarrow>
        (case r of
           Inl e \<Rightarrow> rels h' = rels h
         | Inr r \<Rightarrow> stored n (uo_Labels uo) v r \<and> rels h' = (rels h)((uo_Namespace uo, n) \<mapsto> r))) \<and>
     (\<forall>ns n h e h'. helm_Uninstall H ns n h = (e, h') \<longrightarrow>
        (case e of
           None \<Rightarrow> rels h' = (rels h)((ns, n) := None)
         | Some e \<Rightarrow> rels h' = rels h \<and> (is_not_found H e \<longrightarrow> rels h (ns, n) = None)))"

lemma deploy_effect:
  assumes "helm_ok H rels" "ReleaseCli_Deploy H cli timeout as h = Return ((err, cli'), h')"
  shows "(case err of
      Some e \<Rightarrow> rels h' = rels h \<and> cli' = cli
    | None \<Rightarrow> \<exists>v r. initValues cli as = Return (Inr v) \<and> stored (cl_name cli) (cl_labels cli) v r \<and>
        rels h' = (rels h)((cl_namespace cli, cl_name cli) \<mapsto> r) \<and> cli' = cli\<lparr>cl_values := v\<rparr>)"
proof -
  have ins: "(case r of
      Inl e \<Rightarrow> rels h' = rels h
    | Inr r \<Rightarrow> stored (io_ReleaseName io) (io_Labels io) v r \<and>
        rels h' = (rels h)((io_Namespace io, io_ReleaseName io) \<mapsto> r))"
    if "helm_Install H io ch v h = (r, h')" "io_Atomic io" for io ch v h r h'
    using assms(1) that unfolding helm_ok_def by blast
  have upg: "(case r of
      Inl e \<Rightarrow> rels h' = rels h
    | Inr r \<Rightarrow> stored n (uo_Labels uo) v r \<and> rels h' = (rels h)((uo_Namespace uo, n) \<mapsto> r))"
    if "helm_Upgrade H uo n ch v h = (r, h')" "uo_Atomic uo" for uo n ch v h r h'
    using assms(1) that unfolding helm_ok_def by blast
  obtain res where res: "initValues cli as = Return res"
    using assms(2) by (cases "initValues cli as") (simp_all add: ReleaseCli_Deploy_def)
  show ?thesis
  proof (cases res)
    case (Inl e)
    with res assms(2) show ?thesis by (auto simp: ReleaseCli_Deploy_def)
  next
    case (Inr v)
    then have "install_release H cli timeout v h = ((err, cli'), h') \<or>
        upgrade_release H cli timeout v h = ((err, cli'), h')"
      using res assms(2) by (auto simp: ReleaseCli_Deploy_def split: option.splits if_splits)
    then show ?thesis
    proof
      assume "install_release H cli timeout v h = ((err, cli'), h')"
      then show ?thesis
        using res Inr
        by (auto simp: install_release_def stored_def dest!: ins split: prod.splits sum.splits)
    next
      assume "upgrade_release H cli timeout v h = ((err, cli'), h')"
      then show ?thesis
        using res Inr
        by (auto simp: upgrade_release_def stored_def dest!: upg split: prod.splits sum.splits)
    qed
  qed
qed

lemma delete_effect:
  assumes "helm_ok H rels" "DeleteCli_Delete H ns n h = (err, h')"
  shows "rels h' = (if err = None then (rels h)((ns, n) := None) else rels h)"
proof -
  have un: "(case e of
      None \<Rightarrow> rels h' = (rels h)((ns, n) := None)
    | Some e \<Rightarrow> rels h' = rels h \<and> (is_not_found H e \<longrightarrow> rels h (ns, n) = None))"
    if "helm_Uninstall H ns n h = (e, h')" for e h'
    using assms(1) that unfolding helm_ok_def by blast
  show ?thesis
    using assms(2) by (auto simp: DeleteCli_Delete_def dest!: un split: prod.splits option.splits if_splits)
qed

end
