(* ===== verification/Nodepool.thy ===== *)
theory Nodepool
  imports Helm_Cli Cli_Utils
begin

text \<open>
  Virtual node pools: the package \<^verbatim>\<open>virtualcluster\<close>, which creates, deletes and lists them as pairs
  of Helm releases, and the commands of \<^verbatim>\<open>cmd/kperf/commands/virtualcluster/nodepool.go\<close>. The
  state is the one of Helm; the chart loader, \<^verbatim>\<open>strvals\<close> and the YAML codecs are arguments.
\<close>

section \<open>Configuration (\<^verbatim>\<open>virtualcluster/nodes_common.go\<close>)\<close>

record nodepoolConfig =
  np_name :: string
  np_count :: int
  np_cpu :: int
  np_memory :: int
  np_maxPods :: int
  np_labels :: "string gomap nilable"
  np_sharedProviderID :: string
  np_nodeSelectors :: "string list gomap nilable"

definition defaultNodepoolCfg :: nodepoolConfig where
  "defaultNodepoolCfg = \<lparr>np_name = '''', np_count = 10, np_cpu = 8, np_memory = 16, np_maxPods = 110,
     np_labels = None, np_sharedProviderID = '''', np_nodeSelectors = None\<rparr>"

definition virtualnodeReleaseLabels :: "string gomap" where
  "virtualnodeReleaseLabels = [(''virtualnodes.kperf.io/managed'', ''true'')]"

abbreviation virtualnodeChartName :: string where
  "virtualnodeChartName \<equiv> ''virtualcluster/nodes''"
abbreviation virtualnodeControllerChartName :: string where
  "virtualnodeControllerChartName \<equiv> ''virtualcluster/nodecontrollers''"
abbreviation virtualnodeLifecycleCRDChartName :: string where
  "virtualnodeLifecycleCRDChartName \<equiv> ''virtualcluster/lifecycle-crd''"
abbreviation virtualnodeLifecycleDefChartName :: string where
  "virtualnodeLifecycleDefChartName \<equiv> ''virtualcluster/lifecycle-def''"
abbreviation virtualnodeLifecycleCRDRelName :: string where
  "virtualnodeLifecycleCRDRelName \<equiv> ''lifecycle-crd''"
abbreviation virtualnodeLifecycleDefRelName :: string where
  "virtualnodeLifecycleDefRelName \<equiv> ''lifecycle-def''"
abbreviation virtualnodeReleaseNamespace :: string where
  "virtualnodeReleaseNamespace \<equiv> ''virtualnodes-kperf-io''"
abbreviation reservedNodepoolSuffixName :: string where
  "reservedNodepoolSuffixName \<equiv> ''-controller''"
abbreviation reservedLifecyclePrefixName :: string where
  "reservedLifecyclePrefixName \<equiv> ''lifecycle-''"

datatype vc_error =
  InvalidCounts int int int | MaxPodsNotPositive int | NodepoolNameRequired | ReservedSuffix
| HelmClient helm_error | NodepoolExists string | LifecycleDef vc_error | LifecycleCRD vc_error
| LoadChartFailed chart_error | ReleaseClient helm_error | DeployRelease helm_error
| RenderValues goerr | ValuesApplierFailed goerr
| CleanupNodes goerr | CleanupController goerr | ListFailed goerr

definition nodepool_validate :: "nodepoolConfig \<Rightarrow> vc_error option" where
  "nodepool_validate cfg =
     (if np_count cfg \<le> 0 \<or> np_cpu cfg \<le> 0 \<or> np_memory cfg \<le> 0
      then Some (InvalidCounts (np_count cfg) (np_cpu cfg) (np_memory cfg))
      else if np_maxPods cfg \<le> 0 then Some (MaxPodsNotPositive (np_maxPods cfg))
      else if np_name cfg = '''' then Some NodepoolNameRequired
      else if has_suffix (np_name cfg) reservedNodepoolSuffixName then Some ReservedSuffix
      else None)"

definition nodeHelmReleaseName :: "nodepoolConfig \<Rightarrow> string" where
  "nodeHelmReleaseName cfg = np_name cfg"

definition nodeControllerHelmReleaseName :: "nodepoolConfig \<Rightarrow> string" where
  "nodeControllerHelmReleaseName cfg = np_name cfg @ reservedNodepoolSuffixName"

definition WithNodepoolCountOpt :: "int \<Rightarrow> nodepoolConfig \<Rightarrow> nodepoolConfig" where
  "WithNodepoolCountOpt nodes cfg = cfg\<lparr>np_count := nodes\<rparr>"

definition WithNodepoolCPUOpt :: "int \<Rightarrow> nodepoolConfig \<Rightarrow> nodepoolConfig" where
  "WithNodepoolCPUOpt cpu cfg = cfg\<lparr>np_cpu := cpu\<rparr>"

definition WithNodepoolMemoryOpt :: "int \<Rightarrow> nodepoolConfig \<Rightarrow> nodepoolConfig" where
  "WithNodepoolMemoryOpt memory cfg = cfg\<lparr>np_memory := memory\<rparr>"

definition WithNodepoolMaxPodsOpt :: "int \<Rightarrow> nodepoolConfig \<Rightarrow> nodepoolConfig" where
  "WithNodepoolMaxPodsOpt maxPods cfg = cfg\<lparr>np_maxPods := maxPods\<rparr>"

definition WithNodepoolLabelsOpt :: "string gomap nilable \<Rightarrow> nodepoolConfig \<Rightarrow> nodepoolConfig" where
  "WithNodepoolLabelsOpt labels cfg = cfg\<lparr>np_labels := labels\<rparr>"

definition WithNodepoolNodeControllerAffinity ::
  "string list gomap nilable \<Rightarrow> nodepoolConfig \<Rightarrow> nodepoolConfig" where
  "WithNodepoolNodeControllerAffinity nodeSelectors cfg = cfg\<lparr>np_nodeSelectors := nodeSelectors\<rparr>"

definition WithNodepoolSharedProviderID :: "string \<Rightarrow> nodepoolConfig \<Rightarrow> nodepoolConfig" where
  "WithNodepoolSharedProviderID providerID cfg = cfg\<lparr>np_sharedProviderID := providerID\<rparr>"

section \<open>Values\<close>

text \<open>What the package calls: Helm, the embedded files and the chart loader, \<^verbatim>\<open>strvals.ParseInto\<close>, and
  the YAML encoder and decoder.\<close>

record 'h vc_env =
  vc_helm :: "'h helm"
  vc_FS :: embed_fs
  vc_load_files :: "string gomap \<Rightarrow> goerr + chart"
  vc_parse_into :: "string \<Rightarrow> hvalues nilable \<Rightarrow> (goerr + hvalues nilable) outcome"
  vc_marshal :: "hvalues \<Rightarrow> goerr + string"
  vc_unmarshal :: "string \<Rightarrow> goerr + hvalues"

definition LoadChart :: "'h vc_env \<Rightarrow> string \<Rightarrow> chart_error + chart" where
  "LoadChart E componentName = loadChart (vc_load_files E) (vc_FS E) componentName"

definition labels_tree :: "string gomap nilable \<Rightarrow> hval" where
  "labels_tree ls = (case ls of None \<Rightarrow> HNil | Some m \<Rightarrow> HMap (map (\<lambda>(k, v). (k, HStr v)) m))"

definition selectors_tree :: "string list gomap nilable \<Rightarrow> hval" where
  "selectors_tree ss =
     (case ss of None \<Rightarrow> HNil | Some m \<Rightarrow> HMap (map (\<lambda>(k, vs). (k, HList (map HStr vs))) m))"

definition renderNodeLabels :: "'h vc_env \<Rightarrow> nodepoolConfig \<Rightarrow> goerr + string" where
  "renderNodeLabels E cfg = vc_marshal E [(''nodeLabels'', labels_tree (np_labels cfg))]"

definition renderNodeControllerNodeSelectors :: "'h vc_env \<Rightarrow> nodepoolConfig \<Rightarrow> goerr + string" where
  "renderNodeControllerNodeSelectors E cfg =
     vc_marshal E [(''nodeSelectors'', selectors_tree (np_nodeSelectors cfg))]"

definition node_paths :: "nodepoolConfig \<Rightarrow> string list" where
  "node_paths cfg =
     [''name='' @ np_name cfg, ''cpu='' @ itoa (np_cpu cfg), ''memory='' @ itoa (np_memory cfg),
      ''replicas='' @ itoa (np_count cfg), ''maxPods='' @ itoa (np_maxPods cfg),
      ''sharedProviderID='' @ np_sharedProviderID cfg]"

definition toNodeHelmValuesAppliers :: "'h vc_env \<Rightarrow> nodepoolConfig \<Rightarrow> vc_error + ValuesApplier list" where
  "toNodeHelmValuesAppliers E cfg =
     (case renderNodeLabels E cfg of
        Inl e \<Rightarrow> Inl (RenderValues e)
      | Inr nodeLabelsYaml \<Rightarrow>
          (case YAMLValuesApplier (vc_unmarshal E) nodeLabelsYaml of
             Inl e \<Rightarrow> Inl (ValuesApplierFailed e)
           | Inr nodeLabelsApplier \<Rightarrow>
               Inr [StringPathValuesApplier (vc_parse_into E) (node_paths cfg), nodeLabelsApplier]))"

definition controller_paths :: "nodepoolConfig \<Rightarrow> string list" where
  "controller_paths cfg = [''name='' @ np_name cfg, ''replicas='' @ itoa (np_count cfg)]"

definition toNodeControllerHelmValuesAppliers ::
  "'h vc_env \<Rightarrow> nodepoolConfig \<Rightarrow> vc_error + ValuesApplier list" where
  "toNodeControllerHelmValuesAppliers E cfg =
     (case renderNodeControllerNodeSelectors E cfg of
        Inl e \<Rightarrow> Inl (RenderValues e)
      | Inr nodeSelectorsYaml \<Rightarrow>
          (case YAMLValuesApplier (vc_unmarshal E) nodeSelectorsYaml of
             Inl e \<Rightarrow> Inl (ValuesApplierFailed e)
           | Inr nodeSelectorsApplier \<Rightarrow>
               Inr [StringPathValuesApplier (vc_parse_into E) (controller_paths cfg),
                    nodeSelectorsApplier]))"

section \<open>Creating, deleting and listing\<close>

abbreviation deploy_timeout :: int where
  "deploy_timeout \<equiv> 30 * 60 * 1000000000"

text \<open>The common end of the functions below: a client for the release, and its deployment.\<close>

definition deploy_chart ::
  "'h vc_env \<Rightarrow> string \<Rightarrow> string \<Rightarrow> chart \<Rightarrow> ValuesApplier list \<Rightarrow> 'h \<Rightarrow>
   ((vc_error + ReleaseCli) \<times> 'h) outcome" where
  "deploy_chart E kubeCfgPath name ch appliers h =
     bind_outcome
       (NewReleaseCli (vc_helm E) kubeCfgPath virtualnodeReleaseNamespace name ch
          virtualnodeReleaseLabels appliers) (\<lambda>res.
       case res of
         Inl e \<Rightarrow> Return (Inl (ReleaseClient e), h)
       | Inr cli \<Rightarrow>
           bind_outcome (ReleaseCli_Deploy (vc_helm E) cli deploy_timeout [] h) (\<lambda>((err, cli'), h').
             case err of
               Some e \<Rightarrow> Return (Inl (DeployRelease e), h')
             | None \<Rightarrow> Return (Inr cli', h')))"

definition installNodeLifecycleCRD :: "'h vc_env \<Rightarrow> string \<Rightarrow> 'h \<Rightarrow> (vc_error option \<times> 'h) outcome" where
  "installNodeLifecycleCRD E kubeCfgPath h =
     (case LoadChart E virtualnodeLifecycleCRDChartName of
        Inl e \<Rightarrow> Return (Some (LoadChartFailed e), h)
      | Inr crdCh \<Rightarrow>
          bind_outcome (deploy_chart E kubeCfgPath virtualnodeLifecycleCRDRelName crdCh [] h) (\<lambda>(res, h').
            case res of Inl e \<Rightarrow> Return (Some e, h') | Inr cli \<Rightarrow> Return (None, h')))"

definition installNodeLifecycleDef :: "'h vc_env \<Rightarrow> string \<Rightarrow> 'h \<Rightarrow> (vc_error option \<times> 'h) outcome" where
  "installNodeLifecycleDef E kubeCfgPath h =
     bind_outcome (installNodeLifecycleCRD E kubeCfgPath h) (\<lambda>(err, h1).
       case err of
         Some e \<Rightarrow> Return (Some (LifecycleCRD e), h1)
       | None \<Rightarrow>
           (case LoadChart E virtualnodeLifecycleDefChartName of
              Inl e \<Rightarrow> Return (Some (LoadChartFailed e), h1)
            | Inr ch \<Rightarrow>
                bind_outcome (deploy_chart E kubeCfgPath virtualnodeLifecycleDefRelName ch [] h1)
                  (\<lambda>(res, h2).
                    case res of Inl e \<Rightarrow> Return (Some e, h2) | Inr cli \<Rightarrow> Return (None, h2))))"

text \<open>On success the client whose \<^verbatim>\<open>Uninstall\<close> is the cleanup function.\<close>

definition createNodepoolController ::
  "'h vc_env \<Rightarrow> string \<Rightarrow> nodepoolConfig \<Rightarrow> 'h \<Rightarrow> ((vc_error + ReleaseCli) \<times> 'h) outcome" where
  "createNodepoolController E kubeCfgPath cfg h =
     (case LoadChart E virtualnodeControllerChartName of
        Inl e \<Rightarrow> Return (Inl (LoadChartFailed e), h)
      | Inr ch \<Rightarrow>
          (case toNodeControllerHelmValuesAppliers E cfg of
             Inl e \<Rightarrow> Return (Inl e, h)
           | Inr appliers \<Rightarrow>
               deploy_chart E kubeCfgPath (nodeControllerHelmReleaseName cfg) ch appliers h))"

definition create_nodes ::
  "'h vc_env \<Rightarrow> string \<Rightarrow> nodepoolConfig \<Rightarrow> 'h \<Rightarrow> ((vc_error + ReleaseCli) \<times> 'h) outcome" where
  "create_nodes E kubeCfgPath cfg h =
     (case LoadChart E virtualnodeChartName of
        Inl e \<Rightarrow> Return (Inl (LoadChartFailed e), h)
      | Inr ch \<Rightarrow>
          (case toNodeHelmValuesAppliers E cfg of
             Inl e \<Rightarrow> Return (Inl e, h)
           | Inr appliers \<Rightarrow> deploy_chart E kubeCfgPath (nodeHelmReleaseName cfg) ch appliers h))"

text \<open>The deferred function uninstalls the controller when the nodes could not be created.\<close>

definition CreateNodepool ::
  "'h vc_env \<Rightarrow> string \<Rightarrow> string \<Rightarrow> (nodepoolConfig \<Rightarrow> nodepoolConfig) list \<Rightarrow> 'h \<Rightarrow>
   (vc_error option \<times> 'h) outcome" where
  "CreateNodepool E kubeCfgPath nodepoolName opts h =
     (let cfg = (fold (\<lambda>opt. opt) opts defaultNodepoolCfg)\<lparr>np_name := nodepoolName\<rparr>
      in case nodepool_validate cfg of
           Some e \<Rightarrow> Return (Some e, h)
         | None \<Rightarrow>
             (case NewGetCli (vc_helm E) kubeCfgPath virtualnodeReleaseNamespace of
                Inl e \<Rightarrow> Return (Some (HelmClient e), h)
              | Inr getCli \<Rightarrow>
                  (case GetCli_Get (vc_helm E) getCli (nodeHelmReleaseName cfg) h of
                     Inr r \<Rightarrow> Return (Some (NodepoolExists (nodeHelmReleaseName cfg)), h)
                   | Inl e \<Rightarrow>
                       bind_outcome (installNodeLifecycleDef E kubeCfgPath h) (\<lambda>(err, h1).
                         case err of
                           Some e \<Rightarrow> Return (Some (LifecycleDef e), h1)
                         | None \<Rightarrow>
                             bind_outcome (createNodepoolController E kubeCfgPath cfg h1) (\<lambda>(res, h2).
                               case res of
                                 Inl e \<Rightarrow> Return (Some e, h2)
                               | Inr controllerCli \<Rightarrow>
                                   bind_outcome (create_nodes E kubeCfgPath cfg h2) (\<lambda>(res, h3).
                                     case res of
                                       Inl e \<Rightarrow>
                                         Return (Some e,
                                           snd (ReleaseCli_Uninstall (vc_helm E) controllerCli h3))
                                     | Inr cli \<Rightarrow> Return (None, h3)))))))"

text \<open>\<^verbatim>\<open>err != nil && !errors.Is(err, driver.ErrReleaseNotFound)\<close>.\<close>

definition real_failure :: "'h helm \<Rightarrow> goerr option \<Rightarrow> goerr option" where
  "real_failure H err =
     (case err of None \<Rightarrow> None | Some e \<Rightarrow> (if is_not_found H e then None else Some e))"

definition DeleteNodepool :: "'h vc_env \<Rightarrow> string \<Rightarrow> string \<Rightarrow> 'h \<Rightarrow> vc_error option \<times> 'h" where
  "DeleteNodepool E kubeconfigPath nodepoolName h =
     (let cfg = defaultNodepoolCfg\<lparr>np_name := nodepoolName\<rparr>
      in case nodepool_validate cfg of
           Some e \<Rightarrow> (Some e, h)
         | None \<Rightarrow>
             (case NewDeleteCli (vc_helm E) kubeconfigPath virtualnodeReleaseNamespace of
                Inl e \<Rightarrow> (Some (HelmClient e), h)
              | Inr delCli \<Rightarrow>
                  (case DeleteCli_Delete (vc_helm E) delCli (nodeHelmReleaseName cfg) h of
                     (err, h1) \<Rightarrow>
                       (case real_failure (vc_helm E) err of
                          Some e \<Rightarrow> (Some (CleanupNodes e), h1)
                        | None \<Rightarrow>
                            (case DeleteCli_Delete (vc_helm E) delCli
                                    (nodeControllerHelmReleaseName cfg) h1 of
                               (err, h2) \<Rightarrow>
                                 (map_option CleanupController (real_failure (vc_helm E) err), h2))))))"

definition ListNodepools :: "'h vc_env \<Rightarrow> string \<Rightarrow> 'h \<Rightarrow> vc_error + release list" where
  "ListNodepools E kubeconfigPath h =
     (case NewListCli (vc_helm E) kubeconfigPath virtualnodeReleaseNamespace of
        Inl e \<Rightarrow> Inl (HelmClient e)
      | Inr listCli \<Rightarrow>
          (case ListCli_List (vc_helm E) listCli h of
             Inl e \<Rightarrow> Inl (ListFailed e)
           | Inr rs \<Rightarrow>
               Inr (filter (\<lambda>r. \<not> (has_suffix (rel_Name r) reservedNodepoolSuffixName \<or>
                                  has_prefix (rel_Name r) reservedLifecyclePrefixName)) rs)))"

section \<open>Commands (\<^verbatim>\<open>cmd/kperf/commands/virtualcluster/nodepool.go\<close>)\<close>

datatype np_cmd_error =
  OneArgument "string list" | NonEmptyName | PlcFailed plc_error | AffinityFailed kv_error
| LabelsFailed kv_error | CreateFailed vc_error | BatchSizeNotPositive | BatchFailed string vc_error

text \<open>The argument that the commands take.\<close>

definition name_arg :: "Context \<Rightarrow> np_cmd_error + string" where
  "name_arg c =
     (case cli_Args c of
        [a] \<Rightarrow> (if trim_space a = '''' then Inl NonEmptyName else Inr (trim_space a))
      | as \<Rightarrow> Inl (OneArgument as))"

text \<open>What \<^verbatim>\<open>add\<close> and \<^verbatim>\<open>batch-add\<close> do first: the priority level is applied before the flags are parsed.\<close>

definition add_flags ::
  "(api_reason \<Rightarrow> goerr \<Rightarrow> bool) \<Rightarrow> plc_answers \<Rightarrow> Context \<Rightarrow>
   np_cmd_error + string \<times> string list gomap \<times> string gomap" where
  "add_flags api_is plc c =
     (case name_arg c of
        Inl e \<Rightarrow> Inl e
      | Inr name \<Rightarrow>
          (case fst (ApplyPriorityLevelConfiguration api_is plc) of
             Some e \<Rightarrow> Inl (PlcFailed e)
           | None \<Rightarrow>
               (case KeyValuesMap (cli_StringSlice c ''affinity'') of
                  Inl e \<Rightarrow> Inl (AffinityFailed e)
                | Inr affinityLabels \<Rightarrow>
                    (case KeyValueMap (cli_StringSlice c ''node-labels'') of
                       Inl e \<Rightarrow> Inl (LabelsFailed e)
                     | Inr nodeLabels \<Rightarrow> Inr (name, affinityLabels, nodeLabels)))))"

definition pool_opts ::
  "Context \<Rightarrow> int \<Rightarrow> string list gomap \<Rightarrow> string gomap \<Rightarrow> (nodepoolConfig \<Rightarrow> nodepoolConfig) list" where
  "pool_opts c nodes affinityLabels nodeLabels =
     [WithNodepoolCPUOpt (cli_Int c ''cpu''), WithNodepoolMemoryOpt (cli_Int c ''memory''),
      WithNodepoolCountOpt nodes, WithNodepoolMaxPodsOpt (cli_Int c ''max-pods''),
      WithNodepoolNodeControllerAffinity (Some affinityLabels), WithNodepoolLabelsOpt (Some nodeLabels),
      WithNodepoolSharedProviderID (cli_String c ''shared-provider-id'')]"

definition nodepoolAddCommand ::
  "'h vc_env \<Rightarrow> (api_reason \<Rightarrow> goerr \<Rightarrow> bool) \<Rightarrow> plc_answers \<Rightarrow> Context \<Rightarrow> 'h \<Rightarrow>
   (np_cmd_error option \<times> 'h) outcome" where
  "nodepoolAddCommand E api_is plc c h =
     (case add_flags api_is plc c of
        Inl e \<Rightarrow> Return (Some e, h)
      | Inr (name, affinityLabels, nodeLabels) \<Rightarrow>
          bind_outcome (CreateNodepool E (cli_GlobalString c ''kubeconfig'') name
              (pool_opts c (cli_Int c ''nodes'') affinityLabels nodeLabels) h)
            (\<lambda>(err, h'). Return (map_option CreateFailed err, h')))"

definition batch_name :: "string \<Rightarrow> int \<Rightarrow> int \<Rightarrow> string" where
  "batch_name nodepoolName i batchSize = nodepoolName @ ''-'' @ itoa (go_div i batchSize)"

text \<open>The loop of \<^verbatim>\<open>batch-add\<close>, in 64-bit arithmetic: \<open>create\<close> is the call of \<^verbatim>\<open>CreateNodepool\<close> with a
  name and a number of nodes. No result means that the loop does not end.\<close>

partial_function (option) batch_loop ::
  "(string \<Rightarrow> int \<Rightarrow> 'h \<Rightarrow> (vc_error option \<times> 'h) outcome) \<Rightarrow> string \<Rightarrow> int \<Rightarrow> int \<Rightarrow> int \<Rightarrow> 'h \<Rightarrow>
   (np_cmd_error option \<times> 'h) outcome option" where
  "batch_loop create nodepoolName totalNodes batchSize i h =
     (if i < totalNodes then
        (let currentBatchSize = (if wrap64 (i + batchSize) > totalNodes then wrap64 (totalNodes - i) else batchSize);
             batchNodepoolName = batch_name nodepoolName i batchSize
         in case create batchNodepoolName currentBatchSize h of
              Panic \<Rightarrow> Some Panic
            | Pending \<Rightarrow> Some Pending
            | Return (Some e, h') \<Rightarrow> Some (Return (Some (BatchFailed batchNodepoolName e), h'))
            | Return (None, h') \<Rightarrow>
                batch_loop create nodepoolName totalNodes batchSize (wrap64 (i + batchSize)) h')
      else Some (Return (None, h)))"

declare batch_loop.simps [code]

definition nodepoolBatchAddCommand ::
  "'h vc_env \<Rightarrow> (api_reason \<Rightarrow> goerr \<Rightarrow> bool) \<Rightarrow> plc_answers \<Rightarrow> Context \<Rightarrow> 'h \<Rightarrow>
   (np_cmd_error option \<times> 'h) outcome option" where
  "nodepoolBatchAddCommand E api_is plc c h =
     (case add_flags api_is plc c of
        Inl e \<Rightarrow> Some (Return (Some e, h))
      | Inr (name, affinityLabels, nodeLabels) \<Rightarrow>
          (let totalNodes = cli_Int c ''nodes''; batchSize = cli_Int c ''batch-size''
           in if batchSize \<le> 0 then Some (Return (Some BatchSizeNotPositive, h))
              else batch_loop
                (\<lambda>batchNodepoolName currentBatchSize.
                   CreateNodepool E (cli_GlobalString c ''kubeconfig'') batchNodepoolName
                     (pool_opts c currentBatchSize affinityLabels nodeLabels))
                name totalNodes batchSize 0 h))"

definition nodepoolDelCommand :: "'h vc_env \<Rightarrow> Context \<Rightarrow> 'h \<Rightarrow> np_cmd_error option \<times> 'h" where
  "nodepoolDelCommand E c h =
     (case name_arg c of
        Inl e \<Rightarrow> (Some e, h)
      | Inr name \<Rightarrow>
          (case DeleteNodepool E (cli_GlobalString c ''kubeconfig'') name h of
             (err, h') \<Rightarrow> (map_option CreateFailed err, h')))"


section \<open>Batches\<close>

text \<open>The batches that a total splits into, and the calls they make one after the other.\<close>

definition batch_count :: "int \<Rightarrow> int \<Rightarrow> nat" where
  "batch_count totalNodes batchSize = nat ((totalNodes + batchSize - 1) div batchSize)"

definition batch_size :: "int \<Rightarrow> int \<Rightarrow> nat \<Rightarrow> int" where
  "batch_size totalNodes batchSize k = min batchSize (totalNodes - int k * batchSize)"

fun run_batches ::
  "(string \<Rightarrow> int \<Rightarrow> 'h \<Rightarrow> (vc_error option \<times> 'h) outcome) \<Rightarrow> (string \<times> int) list \<Rightarrow> 'h \<Rightarrow>
   (np_cmd_error option \<times> 'h) outcome" where
  "run_batches create [] h = Return (None, h)"
| "run_batches create ((name, n) # bs) h =
     bind_outcome (create name n h) (\<lambda>(err, h').
       case err of Some e \<Rightarrow> Return (Some (BatchFailed name e), h') | None \<Rightarrow> run_batches create bs h')"

definition batch_plan :: "string \<Rightarrow> int \<Rightarrow> int \<Rightarrow> nat \<Rightarrow> (string \<times> int) list" where
  "batch_plan name totalNodes batchSize k =
     map (\<lambda>k. (name @ ''-'' @ itoa (int k), batch_size totalNodes batchSize k))
       [k..<batch_count totalNodes batchSize]"

lemma less_batch_count:
  assumes "0 < b"
  shows "k < batch_count t b \<longleftrightarrow> int k * b < t"
proof -
  let ?q = "(t + b - 1) div b"
  have e: "(t + b - 1) mod b + ?q * b = t + b - 1" by (rule mod_div_mult_eq)
  have m: "0 \<le> (t + b - 1) mod b" "(t + b - 1) mod b < b" using assms by simp_all
  have d: "(?q + 1) * b = ?q * b + b" by (simp add: distrib_right)
  have bounds: "?q * b \<le> t + b - 1" "t + b - 1 < (?q + 1) * b"
    unfolding d using e m by linarith+
  have "int k < ?q \<longleftrightarrow> int k * b < t"
  proof
    assume "int k < ?q"
    then have "(int k + 1) * b \<le> ?q * b" using assms by (intro mult_right_mono) auto
    with bounds(1) show "int k * b < t" by (simp add: algebra_simps)
  next
    assume "int k * b < t"
    with bounds(2) have "(int k + 1) * b < (?q + 1) * b" by (simp add: algebra_simps)
    with assms show "int k < ?q" by simp
  qed
  then show ?thesis by (auto simp: batch_count_def zless_nat_eq_int_zless)
qed

lemma batch_plan_step:
  assumes "0 < b"
  shows "batch_plan name t b k =
    (if int k * b < t then (name @ ''-'' @ itoa (int k), batch_size t b k) # batch_plan name t b (Suc k) else [])"
  using less_batch_count [OF assms, of k t] by (auto simp: batch_plan_def upt_conv_Cons)

lemma batch_loop_plan:
  assumes b: "0 < b" and t: "t + b < 2 ^ 63"
  shows "batch_loop create name t b (int k * b) h = Some (run_batches create (batch_plan name t b k) h)"
proof (induction "batch_count t b - k" arbitrary: k h)
  case 0
  then have "\<not> int k * b < t" using less_batch_count [OF b, of k t] by simp
  then show ?case using batch_plan_step [OF b, of name t k] by (simp add: batch_loop.simps)
next
  case (Suc n)
  have "k < batch_count t b" using Suc.hyps(2) by linarith
  then have k: "int k * b < t" using less_batch_count [OF b, of k t] by blast
  have n: "n = batch_count t b - Suc k" using Suc.hyps(2) by simp
  have "0 \<le> int k * b" using b by simp
  then have "is_int64 (int k * b + b)" using k t b unfolding is_int64_def by linarith
  then have next_i: "wrap64 (int k * b + b) = int (Suc k) * b"
    by (simp add: algebra_simps)
  have "is_int64 (t - int k * b)" using k t b \<open>0 \<le> int k * b\<close> unfolding is_int64_def by linarith
  then have sz: "(if wrap64 (int k * b + b) > t then wrap64 (t - int k * b) else b) = batch_size t b k"
    unfolding next_i batch_size_def by (simp add: algebra_simps min_def)
  have nm: "batch_name name (int k * b) b = name @ ''-'' @ itoa (int k)"
    using b by (simp add: batch_name_def)
  have "batch_loop create name t b (int k * b) h =
      (case create (name @ ''-'' @ itoa (int k)) (batch_size t b k) h of
         Panic \<Rightarrow> Some Panic
       | Pending \<Rightarrow> Some Pending
       | Return (Some e, h') \<Rightarrow> Some (Return (Some (BatchFailed (name @ ''-'' @ itoa (int k)) e), h'))
       | Return (None, h') \<Rightarrow> batch_loop create name t b (int (Suc k) * b) h')"
    by (subst batch_loop.simps) (simp only: k if_True Let_def sz [unfolded next_i] nm next_i)
  then show ?case
    unfolding batch_plan_step [OF b, of name t k] using k Suc.hyps(1) [OF n]
    by (simp split: outcome.splits option.splits prod.splits)
qed

lemma batch_sizes_sum:
  assumes "0 < b" "0 \<le> t" "k \<le> batch_count t b"
  shows "(\<Sum>j<k. batch_size t b j) = min (int k * b) t"
  using assms(3)
proof (induction k)
  case (Suc k)
  then have "k < batch_count t b" by simp
  then have "int k * b < t" using less_batch_count [OF assms(1)] by blast
  with Suc show ?case by (simp add: batch_size_def algebra_simps min_def)
qed (simp add: assms(2))

lemma batch_total:
  assumes "0 < b" "0 \<le> t"
  shows "(\<Sum>j<batch_count t b. batch_size t b j) = t"
proof -
  have "\<not> int (batch_count t b) * b < t" using less_batch_count [OF assms(1)] by blast
  then show ?thesis using batch_sizes_sum [OF assms order_refl] by simp
qed

section \<open>Effects on the releases\<close>

lemma deploy_chart_effect:
  assumes "helm_ok (vc_helm E) rels" "deploy_chart E kube name ch as h = Return (res, h')"
  shows "(case res of
      Inl e \<Rightarrow> rels h' = rels h
    | Inr cli \<Rightarrow> cl_namespace cli = virtualnodeReleaseNamespace \<and> cl_name cli = name \<and>
        (\<exists>v0 v r. copy_and_apply (ch_Values ch) as = Return (Inr v0) \<and> copyValues v0 = Inr v \<and>
           stored name virtualnodeReleaseLabels v r \<and>
           rels h' = (rels h)((virtualnodeReleaseNamespace, name) \<mapsto> r)))"
proof -
  obtain nres where nres: "NewReleaseCli (vc_helm E) kube virtualnodeReleaseNamespace name ch
      virtualnodeReleaseLabels as = Return nres"
    using assms(2) by (auto simp: deploy_chart_def elim: bind_outcome.elims)
  show ?thesis
  proof (cases nres)
    case (Inl e)
    with assms(2) nres show ?thesis by (auto simp: deploy_chart_def)
  next
    case (Inr cli)
    note cli = NewReleaseCli_fields [OF nres [unfolded Inr]]
    obtain err cli' where dep: "ReleaseCli_Deploy (vc_helm E) cli deploy_timeout [] h = Return ((err, cli'), h')"
      and res: "res = (case err of Some e \<Rightarrow> Inl (DeployRelease e) | None \<Rightarrow> Inr cli')"
      using assms(2) nres Inr
      by (auto simp: deploy_chart_def elim!: bind_outcome.elims split: option.splits)
    have init: "initValues cli [] = Return (Inr v) \<Longrightarrow> copyValues (cl_values cli) = Inr v" for v
      by (auto simp: initValues_def copy_and_apply_def split: sum.splits)
    show ?thesis
      using deploy_effect [OF assms(1) dep] cli init res by (auto split: option.splits)
  qed
qed

abbreviation vc_key :: "string \<Rightarrow> string \<times> string" where
  "vc_key name \<equiv> (virtualnodeReleaseNamespace, name)"

abbreviation lifecycle_keys :: "(string \<times> string) set" where
  "lifecycle_keys \<equiv> {vc_key virtualnodeLifecycleCRDRelName, vc_key virtualnodeLifecycleDefRelName}"

lemma lifecycle_effect:
  assumes "helm_ok (vc_helm E) rels" "installNodeLifecycleDef E kube h = Return (err, h')"
    "key \<notin> lifecycle_keys"
  shows "rels h' key = rels h key"
proof -
  have dep: "rels h2 key = rels h1 key"
    if "deploy_chart E kube n ch as h1 = Return (res, h2)" "vc_key n \<in> lifecycle_keys" for n ch as h1 res h2
    using deploy_chart_effect [OF assms(1) that(1)] that(2) assms(3)
    by (cases res) auto
  have crd: "rels h1 key = rels h key"
    if "installNodeLifecycleCRD E kube h = Return (e, h1)" for e h1
    using that dep
    by (auto simp: installNodeLifecycleCRD_def elim!: bind_outcome.elims split: sum.splits prod.splits)
  obtain e h1 where one: "installNodeLifecycleCRD E kube h = Return (e, h1)"
    using assms(2) by (auto simp: installNodeLifecycleDef_def elim!: bind_outcome.elims)
  have "rels h' key = rels h1 key"
    using assms(2) one dep
    by (auto simp: installNodeLifecycleDef_def elim!: bind_outcome.elims split: sum.splits prod.splits option.splits)
  with crd [OF one] show ?thesis by simp
qed

definition pool_cfg :: "string \<Rightarrow> (nodepoolConfig \<Rightarrow> nodepoolConfig) list \<Rightarrow> nodepoolConfig" where
  "pool_cfg name opts = (fold (\<lambda>opt. opt) opts defaultNodepoolCfg)\<lparr>np_name := name\<rparr>"

abbreviation ctrl_key :: "string \<Rightarrow> string \<times> string" where
  "ctrl_key name \<equiv> vc_key (name @ reservedNodepoolSuffixName)"

text \<open>The calls that a run of \<^verbatim>\<open>CreateNodepool\<close> gets to.\<close>

lemma CreateNodepool_cases:
  assumes "CreateNodepool E kube name opts h = Return (err, h')"
  obtains (early) e where "err = Some e" "h' = h"
  | (lifecycle) e where "installNodeLifecycleDef E kube h = Return (Some e, h')" "err = Some (LifecycleDef e)"
  | (controller) e h1 where "installNodeLifecycleDef E kube h = Return (None, h1)"
      "createNodepoolController E kube (pool_cfg name opts) h1 = Return (Inl e, h')" "err = Some e"
  | (nodes) e h1 h2 h3 cli where "installNodeLifecycleDef E kube h = Return (None, h1)"
      "createNodepoolController E kube (pool_cfg name opts) h1 = Return (Inr cli, h2)"
      "create_nodes E kube (pool_cfg name opts) h2 = Return (Inl e, h3)" "err = Some e"
      "h' = snd (ReleaseCli_Uninstall (vc_helm E) cli h3)"
  | (created) h1 h2 cli cli' where "nodepool_validate (pool_cfg name opts) = None"
      "installNodeLifecycleDef E kube h = Return (None, h1)"
      "createNodepoolController E kube (pool_cfg name opts) h1 = Return (Inr cli, h2)"
      "create_nodes E kube (pool_cfg name opts) h2 = Return (Inr cli', h')" "err = None"
proof -
  let ?cfg = "pool_cfg name opts"
  note run = assms [unfolded CreateNodepool_def Let_def pool_cfg_def [symmetric]]
  show thesis
  proof (cases "\<exists>x r. nodepool_validate ?cfg = None \<and>
      NewGetCli (vc_helm E) kube virtualnodeReleaseNamespace = Inr x \<and>
      GetCli_Get (vc_helm E) x (nodeHelmReleaseName ?cfg) h = Inl r")
    case False
    then have "err \<noteq> None \<and> h' = h" using run
      by (cases "nodepool_validate ?cfg") (auto split: sum.splits dest!: sym [of "Some _"])
    then show thesis using early by blast
  next
    case True
    then obtain err1 h1 where one: "installNodeLifecycleDef E kube h = Return (err1, h1)"
      using run by (auto simp: bind_outcome_Return)
    show thesis
    proof (cases err1)
      case (Some e)
      with True one run lifecycle show thesis by auto
    next
      case None
      then obtain res h2 where two: "createNodepoolController E kube ?cfg h1 = Return (res, h2)"
        using True one run by (auto simp: bind_outcome_Return)
      show thesis
      proof (cases res)
        case (Inl e)
        with True one two None run controller show thesis by auto
      next
        case (Inr cli)
        then obtain res3 h3 where three: "create_nodes E kube ?cfg h2 = Return (res3, h3)"
          using True one two None run by (auto simp: bind_outcome_Return)
        with True one two None Inr run nodes created show thesis by (cases res3) auto
      qed
    qed
  qed
qed

lemma controller_effect:
  assumes "helm_ok (vc_helm E) rels" "createNodepoolController E kube cfg h = Return (res, h')"
  shows "(case res of
      Inl e \<Rightarrow> rels h' = rels h
    | Inr cli \<Rightarrow> cl_namespace cli = virtualnodeReleaseNamespace \<and>
        cl_name cli = np_name cfg @ reservedNodepoolSuffixName \<and>
        (\<exists>r. rel_Name r = np_name cfg @ reservedNodepoolSuffixName \<and>
           rels h' = (rels h)(ctrl_key (np_name cfg) \<mapsto> r)))"
  using assms(2) deploy_chart_effect [OF assms(1)]
  by (fastforce simp: createNodepoolController_def nodeControllerHelmReleaseName_def stored_def
      split: sum.splits)

lemma nodes_effect:
  assumes "helm_ok (vc_helm E) rels" "create_nodes E kube cfg h = Return (res, h')"
  shows "(case res of
      Inl e \<Rightarrow> rels h' = rels h
    | Inr cli \<Rightarrow> \<exists>ch as v0 v r. LoadChart E virtualnodeChartName = Inr ch \<and>
        toNodeHelmValuesAppliers E cfg = Inr as \<and>
        copy_and_apply (ch_Values ch) as = Return (Inr v0) \<and> copyValues v0 = Inr v \<and>
        stored (np_name cfg) virtualnodeReleaseLabels v r \<and> rels h' = (rels h)(vc_key (np_name cfg) \<mapsto> r))"
  using assms(2) deploy_chart_effect [OF assms(1)]
  by (fastforce simp: create_nodes_def nodeHelmReleaseName_def split: sum.splits)

lemma uninstall_effect:
  assumes "helm_ok H rels" "cl_namespace cli = ns" "cl_name cli = n"
  shows "rels (snd (ReleaseCli_Uninstall H cli h)) =
    (if fst (helm_Uninstall H ns n h) = None then (rels h)((ns, n) := None) else rels h)"
proof -
  obtain e h' where u: "helm_Uninstall H ns n h = (e, h')" by fastforce
  then have "(case e of
      None \<Rightarrow> rels h' = (rels h)((ns, n) := None)
    | Some e \<Rightarrow> rels h' = rels h \<and> (is_not_found H e \<longrightarrow> rels h (ns, n) = None))"
    using assms(1) unfolding helm_ok_def by blast
  with u assms(2,3) show ?thesis by (auto simp: ReleaseCli_Uninstall_def split: option.splits)
qed

lemma pool_names:
  "name \<noteq> name @ reservedNodepoolSuffixName"
  "ctrl_key name \<notin> lifecycle_keys"
  "\<not> has_prefix name reservedLifecyclePrefixName \<Longrightarrow> vc_key name \<notin> lifecycle_keys"
proof -
  have "\<not> has_suffix ''lifecycle-crd'' reservedNodepoolSuffixName"
    "\<not> has_suffix ''lifecycle-def'' reservedNodepoolSuffixName"
    by (simp_all add: has_suffix_def)
  then show "ctrl_key name \<notin> lifecycle_keys" by (auto simp: has_suffix_iff)
  show "\<not> has_prefix name reservedLifecyclePrefixName \<Longrightarrow> vc_key name \<notin> lifecycle_keys"
    by (auto simp: has_prefix_def)
qed simp

section \<open>The values of a node release\<close>

text \<open>What kperf relies on of \<^verbatim>\<open>strvals\<close>: \<^verbatim>\<open>key=value\<close> with a plain key and a value without special
  characters sets that key, and a decimal number is set as an integer.\<close>

definition plain_value :: "string \<Rightarrow> bool" where
  "plain_value v \<longleftrightarrow> list_all (\<lambda>c. c \<notin> set '',=[]{}'' \<and> c \<noteq> CHR 92) v"

definition strvals_ok ::
  "(string \<Rightarrow> hvalues nilable \<Rightarrow> (goerr + hvalues nilable) outcome) \<Rightarrow> (string \<Rightarrow> hval) \<Rightarrow> bool" where
  "strvals_ok parse_into typed \<longleftrightarrow>
     (\<forall>k \<in> {''name'', ''cpu'', ''memory'', ''replicas'', ''maxPods'', ''sharedProviderID''}. \<forall>v m.
        plain_value v \<longrightarrow>
          parse_into (k @ ''='' @ v) (Some m) = Return (Inr (Some (AList.update k (typed v) m)))) \<and>
     (\<forall>n. 0 < n \<longrightarrow> is_int64 n \<longrightarrow> typed (itoa n) = HInt n)"

text \<open>Of the YAML codecs: what is decoded has the keys that were encoded.\<close>

definition yaml_ok :: "'h vc_env \<Rightarrow> bool" where
  "yaml_ok E \<longleftrightarrow>
     (\<forall>t s. vc_marshal E t = Inr s \<longrightarrow> (\<exists>t'. vc_unmarshal E s = Inr t' \<and> map fst t' = map fst t))"

lemma plain_value_itoa: "plain_value (itoa i)"
proof -
  have special: "c \<notin> set '',=[]{}'' \<and> c \<noteq> CHR 92" if "is_digit c" for c
    using that by (auto simp: is_digit_def)
  have "plain_value (nat_digits n)" for n
    using nat_digits_is_digit [of n] special unfolding plain_value_def list_all_iff by blast
  then show ?thesis by (simp add: itoa_def plain_value_def)
qed

lemma applyValues_other_key:
  "wf_gomap from \<Longrightarrow> k \<notin> fst ` set from \<Longrightarrow> map_of (applyValues to from) k = map_of to k"
  by (simp add: applyValues_lookup map_of_eq_None_iff [symmetric])

lemma copy_keys_valid:
  assumes "copyValues (Some m) = Inr (Some c)"
  shows "wf_gomap c" "\<forall>k \<in> fst ` set c. valid_utf8 k"
proof -
  obtain n where c: "c = fold (\<lambda>(k, v). AList.update (utf8_coerce k) v) n []"
    using assms by (auto simp: copyValues_def split: sum.splits)
  show "wf_gomap c" unfolding c by (rule fold_update_keys_wf) simp
  have keys: "\<forall>k \<in> fst ` set (fold (\<lambda>(k, v). AList.update (utf8_coerce k) v) n acc). valid_utf8 k"
    if "\<forall>k \<in> fst ` set acc. valid_utf8 k" for acc
    using that
  proof (induction n arbitrary: acc)
    case (Cons x n)
    obtain k v where x: "x = (k, v)" by (cases x)
    have "\<forall>k \<in> fst ` set (AList.update (utf8_coerce k) v acc). valid_utf8 k"
      using Cons.prems unfolding dom_update by simp
    from Cons.IH [OF this] show ?case by (simp add: x)
  qed simp
  show "\<forall>k \<in> fst ` set c. valid_utf8 k" unfolding c by (rule keys) simp
qed

lemma applyValues_keys: "fst ` set (applyValues to from) \<subseteq> fst ` set to \<union> fst ` set from"
proof (induction "from" arbitrary: to)
  case (Cons x frm)
  obtain k v where x: "x = (k, v)" by (cases x)
  let ?to = "case map_of to k of
          None \<Rightarrow> AList.update k v to
        | Some w \<Rightarrow>
            (case v of
               HMap v' \<Rightarrow>
                 (case w of
                    HMap w' \<Rightarrow> AList.update k (HMap (applyValues w' v')) to
                  | _ \<Rightarrow> AList.update k v to)
             | _ \<Rightarrow> AList.update k v to)"
  have "fst ` set ?to \<subseteq> insert k (fst ` set to)"
    by (auto simp: dom_update split: option.splits hval.splits)
  with Cons.IH [of ?to] have "fst ` set (applyValues ?to frm) \<subseteq> insert k (fst ` set to) \<union> fst ` set frm"
    by (rule subset_trans [OF _ Un_mono [OF _ subset_refl]])
  moreover have "applyValues to (x # frm) = applyValues ?to frm" by (simp add: x)
  ultimately show ?case by (simp add: x)
qed simp

text \<open>The values that the appliers of a node release leave, and what Helm is given after the last
  copy.\<close>

lemma node_values:
  assumes sv: "strvals_ok (vc_parse_into E) typed" and ym: "yaml_ok E"
    and as: "toNodeHelmValuesAppliers E cfg = Inr as"
    and v0: "copy_and_apply (Some cv) as = Return (Inr v0)"
    and plain: "plain_value (np_name cfg)" "plain_value (np_sharedProviderID cfg)"
  obtains m where "v0 = Some m" "wf_gomap m" "\<forall>k \<in> fst ` set m. valid_utf8 k"
    "map_of m ''cpu'' = Some (typed (itoa (np_cpu cfg)))"
    "map_of m ''memory'' = Some (typed (itoa (np_memory cfg)))"
    "map_of m ''replicas'' = Some (typed (itoa (np_count cfg)))"
    "map_of m ''maxPods'' = Some (typed (itoa (np_maxPods cfg)))"
proof -
  let ?keys = "[''name'', ''cpu'', ''memory'', ''replicas'', ''maxPods'', ''sharedProviderID'']"
  obtain y t where y: "vc_marshal E [(''nodeLabels'', labels_tree (np_labels cfg))] = Inr y"
    "vc_unmarshal E y = Inr t" "map fst t = [''nodeLabels'']"
    and as_eq: "as = [StringPathValuesApplier (vc_parse_into E) (node_paths cfg),
       (\<lambda>to. (case to of
             None \<Rightarrow> (if t = [] then Return (Inr None) else Panic)
           | Some m \<Rightarrow> Return (Inr (Some (applyValues m t)))))]"
    using as ym
    by (fastforce simp: toNodeHelmValuesAppliers_def renderNodeLabels_def YAMLValuesApplier_def yaml_ok_def
        split: sum.splits)
  obtain c where c: "copyValues (Some cv) = Inr c"
    using v0 by (auto simp: copy_and_apply_def split: sum.splits)
  then obtain c' where c': "c = Some c'" by (auto simp: copyValues_def split: sum.splits)
  note cv = copy_keys_valid [OF c [unfolded c']]
  have set1: "vc_parse_into E (k @ ''='' @ v) (Some m) = Return (Inr (Some (AList.update k (typed v) m)))"
    if "k \<in> set ?keys" "plain_value v" for k v m
    using sv that by (auto simp: strvals_ok_def)
  define m1 where "m1 = AList.update ''sharedProviderID'' (typed (np_sharedProviderID cfg))
    (AList.update ''maxPods'' (typed (itoa (np_maxPods cfg)))
    (AList.update ''replicas'' (typed (itoa (np_count cfg)))
    (AList.update ''memory'' (typed (itoa (np_memory cfg)))
    (AList.update ''cpu'' (typed (itoa (np_cpu cfg)))
    (AList.update ''name'' (typed (np_name cfg)) c')))))"
  have paths: "string_path_loop (vc_parse_into E) (node_paths cfg) (Some c') = Return (Inr (Some m1))"
    unfolding node_paths_def m1_def
    using set1 [of "''name''"] set1 [of "''cpu''"] set1 [of "''memory''"] set1 [of "''replicas''"]
      set1 [of "''maxPods''"] set1 [of "''sharedProviderID''"] plain plain_value_itoa
    by simp
  have v0_eq: "v0 = Some (applyValues m1 t)"
    using v0 c c' paths
    by (simp add: copy_and_apply_def as_eq StringPathValuesApplier_def)
  have wft: "wf_gomap t" and kt: "fst ` set t = {''nodeLabels''}"
    using y(3) by (metis distinct_singleton, metis list.set_map list.simps(15) empty_set)
  have k1: "fst ` set m1 = fst ` set c' \<union> set ?keys" by (auto simp: m1_def dom_update)
  have ascii: "valid_utf8 k" if "k \<in> set (''nodeLabels'' # ?keys)" for k
    using that by (intro ascii_valid_utf8) auto
  have valid: "\<forall>k \<in> fst ` set m1 \<union> fst ` set t. valid_utf8 k"
    unfolding k1 kt using cv(2) ascii by auto
  show thesis
  proof (rule that [OF v0_eq])
    show "wf_gomap (applyValues m1 t)" using cv(1) by (intro applyValues_wf) (simp add: m1_def)
    show "\<forall>k \<in> fst ` set (applyValues m1 t). valid_utf8 k"
      using applyValues_keys [of m1 t] valid by blast
  qed (simp_all add: applyValues_other_key [OF wft] kt, simp_all add: m1_def)
qed

lemma copied_number:
  assumes "copyValues (Some m) = Inr v" "wf_gomap m" "\<forall>k \<in> fst ` set m. valid_utf8 k"
    "map_of m k = Some (HInt n)"
  shows "\<exists>m'. v = Some m' \<and> map_of m' k = Some (HFloat (float_of_int n))"
proof -
  obtain m' where v: "v = Some m'"
    and look: "\<And>k v. map_of m k = Some v \<Longrightarrow> \<exists>v'. json_copy v = Inr v' \<and> map_of m' k = Some v'"
    by (rule copyValues_lookup [OF assms(1-3)]) blast
  from look [OF assms(4)] v show ?thesis by simp
qed

section \<open>Properties\<close>

text \<open>
  C14: \<^verbatim>\<open>batch-add\<close> splits a number of nodes without loss. For a positive batch size and totals
  whose sum stays below 2^63 the loop ends and makes, in order, the calls for the pools
  \<^verbatim>\<open>NAME-0\<close>, \<^verbatim>\<open>NAME-1\<close>, and so on, up to the first that fails; there are as many pools as the
  quotient rounded up, their names are distinct, every pool gets between one node and the batch
  size, and together they get exactly the requested number.
\<close>

theorem batch_add_bounds:
  assumes "0 < batchSize" "0 \<le> totalNodes" "totalNodes + batchSize < 2 ^ 63"
  shows "batch_loop create name totalNodes batchSize 0 h =
      Some (run_batches create (batch_plan name totalNodes batchSize 0) h) \<and>
    int (length (batch_plan name totalNodes batchSize 0)) = (totalNodes + batchSize - 1) div batchSize \<and>
    distinct (map fst (batch_plan name totalNodes batchSize 0)) \<and>
    list_all (\<lambda>(_, n). 1 \<le> n \<and> n \<le> batchSize) (batch_plan name totalNodes batchSize 0) \<and>
    sum_list (map snd (batch_plan name totalNodes batchSize 0)) = totalNodes"
proof -
  let ?n = "batch_count totalNodes batchSize"
  have "0 \<le> (totalNodes + batchSize - 1) div batchSize"
    using assms(1,2) by (simp add: pos_imp_zdiv_nonneg_iff)
  then have "int ?n = (totalNodes + batchSize - 1) div batchSize" by (simp add: batch_count_def)
  moreover have "distinct (map (\<lambda>k. name @ ''-'' @ itoa (int k)) [0..<?n])"
    by (simp add: distinct_map inj_on_def)
  moreover have "1 \<le> batch_size totalNodes batchSize k \<and> batch_size totalNodes batchSize k \<le> batchSize"
    if "k < ?n" for k
    using that assms(1) unfolding less_batch_count [OF assms(1)] by (simp add: batch_size_def)
  moreover have "sum_list (map (batch_size totalNodes batchSize) [0..<?n]) = totalNodes"
    using batch_total [OF assms(1,2)]
    by (simp add: interv_sum_list_conv_sum_set_nat lessThan_atLeast0)
  moreover have "batch_loop create name totalNodes batchSize 0 h =
      Some (run_batches create (batch_plan name totalNodes batchSize 0) h)"
    using batch_loop_plan [OF assms(1,3), of create name 0 h] by simp
  ultimately show ?thesis by (auto simp: batch_plan_def list_all_iff comp_def)
qed

theorem batch_add_bounds_witness:
  "batch_loop (\<lambda>n k h. Return (None, h @ [(n, k)])) ''p'' 700 300 0 [] =
     Some (run_batches (\<lambda>n k h. Return (None, h @ [(n, k)])) (batch_plan ''p'' 700 300 0) []) \<and>
   sum_list (map snd (batch_plan ''p'' 700 300 0)) = 700 \<and> length (batch_plan ''p'' 700 300 0) = 3"
  using batch_add_bounds [of 300 700 "\<lambda>n k h. Return (None, h @ [(n, k)])" "''p''" "[]"] by simp


text \<open>A Helm that stores releases in an association list, and fails to install those with a
  given property.\<close>

type_synonym store = "((string \<times> string) \<times> release) list"

definition store_err :: goerr where
  "store_err = \<lparr>err_text = ''release: not found'', err_chain = [plain_link]\<rparr>"

definition sample_store :: "(string \<Rightarrow> bool) \<Rightarrow> store \<Rightarrow> string \<Rightarrow> string \<Rightarrow> string gomap \<Rightarrow> hvalues nilable \<Rightarrow>
    (goerr + release) \<times> store" where
  "sample_store fails h ns n labels v =
     (let r = \<lparr>rel_Name = n, rel_Labels = labels, rel_Config = v, rel_Status = ''deployed''\<rparr>
      in if fails n then (Inl store_err, h) else (Inr r, AList.update (ns, n) r h))"

definition sample_helm :: "(string \<Rightarrow> bool) \<Rightarrow> store helm" where
  "sample_helm fails =
     \<lparr>helm_Init = (\<lambda>_ _. None),
      helm_Get = (\<lambda>ns n h. case map_of h (ns, n) of None \<Rightarrow> Inl store_err | Some r \<Rightarrow> Inr r),
      helm_List = (\<lambda>ns h. Inr (map snd (filter (\<lambda>(k, _). fst k = ns) h))),
      helm_History = (\<lambda>ns _ n h. case map_of h (ns, n) of None \<Rightarrow> Some store_err | Some r \<Rightarrow> None),
      helm_Install = (\<lambda>io ch v h. sample_store fails h (io_Namespace io) (io_ReleaseName io) (io_Labels io) v),
      helm_Upgrade = (\<lambda>uo n ch v h. sample_store fails h (uo_Namespace uo) n (uo_Labels uo) v),
      helm_Uninstall = (\<lambda>ns n h. (None, AList.delete (ns, n) h)),
      is_not_found = (\<lambda>e. True), eq_not_found = (\<lambda>e. True)\<rparr>"

definition sample_typed :: "string \<Rightarrow> hval" where
  "sample_typed v = (case atoi v of Inr n \<Rightarrow> HInt n | Inl e \<Rightarrow> HStr v)"

definition sample_vc :: "(string \<Rightarrow> bool) \<Rightarrow> store vc_env" where
  "sample_vc fails =
     \<lparr>vc_helm = sample_helm fails,
      vc_FS = [(''virtualcluster/lifecycle-crd/Chart.yaml'', []), (''virtualcluster/lifecycle-def/Chart.yaml'', []),
        (''virtualcluster/nodecontrollers/values.yaml'', []), (''virtualcluster/nodes/values.yaml'', [])],
      vc_load_files = (\<lambda>_. Inr \<lparr>ch_Name = [], ch_Values = Some [(''replicas'', HInt 0)]\<rparr>),
      vc_parse_into = (\<lambda>s to. case str_cut CHR ''='' s of
          None \<Rightarrow> Return (Inl store_err)
        | Some (k, v) \<Rightarrow> Return (Inr (map_option (AList.update k (sample_typed v)) to))),
      vc_marshal = (\<lambda>t. case t of [(k, v)] \<Rightarrow> Inr k | _ \<Rightarrow> Inl store_err),
      vc_unmarshal = (\<lambda>s. Inr [(s, HNil)])\<rparr>"

lemma sample_helm_ok: "helm_ok (sample_helm fails) map_of"
  by (auto simp: helm_ok_def sample_helm_def sample_store_def stored_def Let_def delete_conv'
      split: option.splits sum.splits if_splits)

lemma sample_vc_helm [simp]: "vc_helm (sample_vc fails) = sample_helm fails"
  by (simp add: sample_vc_def)

lemma sample_strvals_ok: "strvals_ok (vc_parse_into (sample_vc fails)) sample_typed"
proof -
  have sets: "vc_parse_into (sample_vc fails) (k @ ''='' @ v) (Some m) =
      Return (Inr (Some (AList.update k (sample_typed v) m)))" if "CHR ''='' \<notin> set k" for k v m
  proof -
    have "str_cut CHR ''='' (k @ CHR ''='' # v) = Some (k, v)" using that by (simp add: str_cut_Some)
    then show ?thesis by (simp add: sample_vc_def)
  qed
  show ?thesis
    unfolding strvals_ok_def
  proof (intro conjI ballI allI impI)
    show "sample_typed (itoa n) = HInt n" if "is_int64 n" for n
      using that by (simp add: sample_typed_def atoi_itoa)
  qed (rule sets, auto)
qed

lemma sample_yaml_ok: "yaml_ok (sample_vc fails)"
  by (auto simp: yaml_ok_def sample_vc_def split: list.splits)

lemma sample_create_fails:
  "\<exists>e h'. CreateNodepool (sample_vc (\<lambda>n. n = ''pool'')) [] ''pool'' [] [] = Return (Some e, h')"
proof -
  have "case CreateNodepool (sample_vc (\<lambda>n. n = ''pool'')) [] ''pool'' [] [] of
      Return (Some e, h') \<Rightarrow> True | _ \<Rightarrow> False" by code_simp
  then show ?thesis by (auto split: outcome.splits option.splits)
qed

definition store_wf :: "store \<Rightarrow> bool" where
  "store_wf h \<longleftrightarrow> distinct (map fst h) \<and>
     list_all (\<lambda>(key, r). key = (virtualnodeReleaseNamespace, rel_Name r)) h"

lemma sample_create:
  "\<exists>h'. CreateNodepool (sample_vc (\<lambda>n. False)) [] ''pool'' [] [] = Return (None, h') \<and> store_wf h'"
proof -
  have "case CreateNodepool (sample_vc (\<lambda>n. False)) [] ''pool'' [] [] of
      Return (None, h') \<Rightarrow> store_wf h' | _ \<Rightarrow> False" by code_simp
  then show ?thesis by (auto split: outcome.splits option.splits)
qed

lemma sample_List:
  assumes "store_wf h"
  shows "\<exists>rs. helm_List (sample_helm fails) virtualnodeReleaseNamespace h = Inr rs \<and>
    (\<forall>r. r \<in> set rs \<longleftrightarrow> map_of h (virtualnodeReleaseNamespace, rel_Name r) = Some r)"
proof -
  let ?ns = virtualnodeReleaseNamespace
  have key: "key = (?ns, rel_Name r)" if "(key, r) \<in> set h" for key r
    using assms that by (auto simp: store_wf_def list_all_iff)
  have "r \<in> snd ` {x \<in> set h. fst (fst x) = ?ns} \<longleftrightarrow> ((?ns, rel_Name r), r) \<in> set h" for r
    by (auto intro: rev_image_eqI) (metis key)
  moreover have "map_of h (?ns, rel_Name r) = Some r \<longleftrightarrow> ((?ns, rel_Name r), r) \<in> set h" for r
    using assms by (simp add: store_wf_def)
  ultimately show ?thesis by (simp add: sample_helm_def case_prod_beta)
qed




text \<open>
  C17: deleting a node pool removes its two releases and nothing else. When \<^verbatim>\<open>DeleteNodepool\<close>
  succeeds, the stored releases are those of before without these two, whether they were
  there or not; when it fails, every other release is as it was.
\<close>

theorem delete_nodepool_exact:
  assumes "helm_ok (vc_helm E) rels" "DeleteNodepool E kube name h = (err, h')"
  shows "(err = None \<longrightarrow> rels h' = (rels h)(vc_key name := None, ctrl_key name := None)) \<and>
    (\<forall>key. key \<noteq> vc_key name \<longrightarrow> key \<noteq> ctrl_key name \<longrightarrow> rels h' key = rels h key)"
proof -
  let ?H = "vc_helm E"
  have fin: "real_failure ?H e = e" if "DeleteCli_Delete ?H ns n h = (e, h2)" for ns n h e h2
    using that by (auto simp: DeleteCli_Delete_def real_failure_def split: prod.splits option.splits if_splits)
  obtain e1 h1 where one: "DeleteCli_Delete ?H virtualnodeReleaseNamespace name h = (e1, h1)" by fastforce
  obtain e2 h2 where two: "DeleteCli_Delete ?H virtualnodeReleaseNamespace
      (name @ reservedNodepoolSuffixName) h1 = (e2, h2)" by fastforce
  have "(err \<noteq> None \<and> rels h' = rels h) \<or> (err = None \<and> e1 = None \<and> e2 = None \<and> h' = h2) \<or>
      (err \<noteq> None \<and> h' = h1) \<or> (err \<noteq> None \<and> h' = h2)"
    using assms(2) one two fin [OF one] fin [OF two]
    by (auto simp: DeleteNodepool_def Let_def NewDeleteCli_def nodeHelmReleaseName_def
        nodeControllerHelmReleaseName_def split: option.splits)
  with delete_effect [OF assms(1) one] delete_effect [OF assms(1) two] show ?thesis
    by (auto split: if_splits)
qed

theorem delete_nodepool_exact_witness:
  "\<exists>h'. DeleteNodepool (sample_vc (\<lambda>n. False)) [] ''pool''
       [(vc_key ''pool'', undefined), (vc_key ''other'', undefined)] = (None, h') \<and>
     map_of h' (vc_key ''pool'') = None \<and> map_of h' (vc_key ''other'') = Some undefined"
proof -
  have helm: "helm_ok (vc_helm (sample_vc (\<lambda>n. False))) map_of" by (simp add: sample_helm_ok)
  have "DeleteNodepool (sample_vc (\<lambda>n. False)) [] ''pool''
      [(vc_key ''pool'', undefined), (vc_key ''other'', undefined)] = (None, [(vc_key ''other'', undefined)])"
    by (simp add: DeleteNodepool_def nodepool_validate_def defaultNodepoolCfg_def has_suffix_def
        NewDeleteCli_def DeleteCli_Delete_def sample_helm_def real_failure_def
        nodeHelmReleaseName_def nodeControllerHelmReleaseName_def)
  with delete_nodepool_exact [OF helm this] show ?thesis by simp
qed

text \<open>
  C18: a node pool that was created is listed, except when its name starts with the prefix of
  the lifecycle releases, which \<^verbatim>\<open>CreateNodepool\<close> accepts; its controller is never listed. (Helm's
  list action returns the releases that are stored in the namespace.)
\<close>

theorem created_nodepool_listed:
  assumes "helm_ok (vc_helm E) rels" "CreateNodepool E kube name opts h = Return (None, h')"
    and "\<forall>rs. helm_List (vc_helm E) virtualnodeReleaseNamespace h' = Inr rs \<longrightarrow>
           (\<forall>r. r \<in> set rs \<longleftrightarrow> rels h' (vc_key (rel_Name r)) = Some r)"
    and "ListNodepools E kube h' = Inr rs"
  shows "((\<exists>r \<in> set rs. rel_Name r = name) \<longleftrightarrow> \<not> has_prefix name reservedLifecyclePrefixName) \<and>
    \<not> (\<exists>r \<in> set rs. rel_Name r = name @ reservedNodepoolSuffixName)"
  using assms(2)
proof (cases rule: CreateNodepool_cases)
  case (created h1 h2 cli cli')
  have cfg [simp]: "np_name (pool_cfg name opts) = name" by (simp add: pool_cfg_def)
  from nodes_effect [OF assms(1) created(4)] obtain r
    where r: "rel_Name r = name" "rels h' (vc_key name) = Some r" by (auto simp: stored_def)
  have suffix: "\<not> has_suffix name reservedNodepoolSuffixName"
    using created(1) by (auto simp: nodepool_validate_def split: if_splits)
  obtain all where "helm_List (vc_helm E) virtualnodeReleaseNamespace h' = Inr all"
    and rs: "rs = filter (\<lambda>r. \<not> (has_suffix (rel_Name r) reservedNodepoolSuffixName \<or>
        has_prefix (rel_Name r) reservedLifecyclePrefixName)) all"
    using assms(4)
    by (auto simp: ListNodepools_def NewListCli_def ListCli_List_def split: option.splits sum.splits)
  with assms(3) have "r \<in> set all" using r by blast
  moreover have "has_suffix (name @ reservedNodepoolSuffixName) reservedNodepoolSuffixName"
    by (auto simp: has_suffix_iff)
  ultimately show ?thesis using rs r(1) suffix by auto
qed simp_all

theorem created_nodepool_listed_witness:
  "\<exists>h' rs. CreateNodepool (sample_vc (\<lambda>n. False)) [] ''pool'' [] [] = Return (None, h') \<and>
     ListNodepools (sample_vc (\<lambda>n. False)) [] h' = Inr rs \<and> (\<exists>r \<in> set rs. rel_Name r = ''pool'')"
proof -
  obtain h' where run: "CreateNodepool (sample_vc (\<lambda>n. False)) [] ''pool'' [] [] = Return (None, h')"
    and "store_wf h'" using sample_create by blast
  then obtain all where all: "helm_List (sample_helm (\<lambda>n. False)) virtualnodeReleaseNamespace h' = Inr all"
    "\<forall>r. r \<in> set all \<longleftrightarrow> map_of h' (vc_key (rel_Name r)) = Some r"
    using sample_List by blast
  have "helm_Init (sample_helm (\<lambda>n. False)) [] virtualnodeReleaseNamespace = None"
    by (simp add: sample_helm_def)
  then obtain rs where rs: "ListNodepools (sample_vc (\<lambda>n. False)) [] h' = Inr rs"
    by (simp add: ListNodepools_def NewListCli_def ListCli_List_def all(1))
  have helm: "helm_ok (vc_helm (sample_vc (\<lambda>n. False))) map_of" by (simp add: sample_helm_ok)
  have "\<not> has_prefix ''pool'' reservedLifecyclePrefixName" by (simp add: has_prefix_def)
  with created_nodepool_listed [OF helm run _ rs] all run rs show ?thesis by auto
qed

end
