(* ===== verification/Runnergroup_Cmd.thy ===== *)
theory Runnergroup_Cmd
  imports Nodepool Runner_Server
begin

text \<open>
  The commands \<^verbatim>\<open>kperf runnergroup run\<close>, \<^verbatim>\<open>server\<close>, \<^verbatim>\<open>status\<close>, \<^verbatim>\<open>result\<close> and \<^verbatim>\<open>delete\<close>: deploying the
  runner groups' server as a Helm release (\<^verbatim>\<open>runner/runnergroup_run.go\<close>), building the handlers
  that the server runs, and the clients that reach it through a port forward.
\<close>

section \<open>Deploying the server (\<^verbatim>\<open>runner/runnergroup_run.go\<close>)\<close>

abbreviation runnerGroupServerChartName :: string where
  "runnerGroupServerChartName \<equiv> ''runnergroup/server''"
abbreviation runnerGroupServerReleaseName :: string where
  "runnerGroupServerReleaseName \<equiv> ''runnergroup-server''"
abbreviation runnerGroupReleaseNamespace :: string where
  "runnerGroupReleaseNamespace \<equiv> ''runnergroups-kperf-io''"

definition runnerGroupReleaseLabels :: "string gomap" where
  "runnerGroupReleaseLabels = [(''runnergroups.kperf.io/managed'', ''true'')]"

record runCmdConfig =
  rcc_serverNodeSelectors :: "string list gomap nilable"
  rcc_priorityLevel :: string
  rcc_matchingPrecedence :: int

definition defaultRunCmdCfg :: runCmdConfig where
  "defaultRunCmdCfg = \<lparr>rcc_serverNodeSelectors = None, rcc_priorityLevel = ''workload-low'',
     rcc_matchingPrecedence = 1000\<rparr>"

definition WithRunCmdServerNodeSelectorsOpt ::
  "string list gomap nilable \<Rightarrow> runCmdConfig \<Rightarrow> runCmdConfig" where
  "WithRunCmdServerNodeSelectorsOpt labels cfg = cfg\<lparr>rcc_serverNodeSelectors := labels\<rparr>"

definition WithRunCmdRunnerGroupFlowControl :: "string \<Rightarrow> int \<Rightarrow> runCmdConfig \<Rightarrow> runCmdConfig" where
  "WithRunCmdRunnerGroupFlowControl priorityLevel matchingPrecedence cfg =
     cfg\<lparr>rcc_priorityLevel := priorityLevel, rcc_matchingPrecedence := matchingPrecedence\<rparr>"

datatype rg_error =
  MarshalSpec goerr | RenderRunCmd goerr | RunCmdApplier goerr | RgHelmClient helm_error
| ServerExists | RgChart chart_error | RgRelease helm_error | RgDeploy helm_error
| RgDelete goerr | RgDeleteNamespace goerr

text \<open>The service account defaults to the name of the server's release; the spec is changed in place.\<close>

definition tweakAndMarshalSpec ::
  "(RunnerGroupSpec \<Rightarrow> goerr + string) \<Rightarrow> RunnerGroupSpec \<Rightarrow> (rg_error + string) \<times> RunnerGroupSpec" where
  "tweakAndMarshalSpec marshal spec =
     (let spec' = (if spec_ServiceAccount spec = None
                   then spec\<lparr>spec_ServiceAccount := Some runnerGroupServerReleaseName\<rparr> else spec)
      in (map_sum MarshalSpec id (marshal spec'), spec'))"

definition toServerHelmValuesAppiler :: "'h vc_env \<Rightarrow> runCmdConfig \<Rightarrow> rg_error + ValuesApplier" where
  "toServerHelmValuesAppiler E cfg =
     (case vc_marshal E
             [(''nodeSelectors'', selectors_tree (rcc_serverNodeSelectors cfg)),
              (''flowcontrol'', HMap
                 [(''priorityLevelConfiguration'', HStr (rcc_priorityLevel cfg)),
                  (''matchingPrecedence'', HInt (rcc_matchingPrecedence cfg))])] of
        Inl e \<Rightarrow> Inl (RenderRunCmd e)
      | Inr rawData \<Rightarrow> map_sum RunCmdApplier id (YAMLValuesApplier (vc_unmarshal E) rawData))"

text \<open>\<^verbatim>\<open>base64.StdEncoding.EncodeToString\<close>.\<close>

definition b64_alphabet :: string where
  "b64_alphabet = ''ABCDEFGHIJKLMNOPQRSTUVWXYZabcdefghijklmnopqrstuvwxyz0123456789+/''"

definition b64_char :: "nat \<Rightarrow> char" where
  "b64_char n = b64_alphabet ! (n mod 64)"

fun b64_encode :: "string \<Rightarrow> string" where
  "b64_encode [] = []"
| "b64_encode [a] =
     [b64_char (of_char a div 4), b64_char (of_char a * 16), CHR ''='', CHR ''='']"
| "b64_encode [a, b] =
     [b64_char (of_char a div 4), b64_char (of_char a * 16 + of_char b div 16),
      b64_char (of_char b * 4), CHR ''='']"
| "b64_encode (a # b # c # s) =
     [b64_char (of_char a div 4), b64_char (of_char a * 16 + of_char b div 16),
      b64_char (of_char b * 4 + of_char c div 64), b64_char (of_char c)] @ b64_encode s"

definition server_paths :: "string \<Rightarrow> string \<Rightarrow> int \<Rightarrow> string list" where
  "server_paths runnerImage encoded runnerVerbosity =
     [''name='' @ runnerGroupServerReleaseName, ''image='' @ runnerImage, ''runnerGroupSpec='' @ encoded,
      ''runnerVerbosity='' @ [CHR 34] @ itoa runnerVerbosity @ [CHR 34]]"

definition CreateRunnerGroupServer ::
  "'h vc_env \<Rightarrow> (RunnerGroupSpec \<Rightarrow> goerr + string) \<Rightarrow> string \<Rightarrow> string \<Rightarrow> RunnerGroupSpec \<Rightarrow> int \<Rightarrow>
   (runCmdConfig \<Rightarrow> runCmdConfig) list \<Rightarrow> 'h \<Rightarrow> (rg_error option \<times> 'h) outcome" where
  "CreateRunnerGroupServer E marshal kubeconfigPath runnerImage rgSpec runnerVerbosity opts h =
     (case fst (tweakAndMarshalSpec marshal rgSpec) of
        Inl e \<Rightarrow> Return (Some e, h)
      | Inr specInStr \<Rightarrow>
          (case toServerHelmValuesAppiler E (fold (\<lambda>opt. opt) opts defaultRunCmdCfg) of
             Inl e \<Rightarrow> Return (Some e, h)
           | Inr appiler \<Rightarrow>
               (case NewGetCli (vc_helm E) kubeconfigPath runnerGroupReleaseNamespace of
                  Inl e \<Rightarrow> Return (Some (RgHelmClient e), h)
                | Inr getCli \<Rightarrow>
                    (case GetCli_Get (vc_helm E) getCli runnerGroupServerReleaseName h of
                       Inr r \<Rightarrow> Return (Some ServerExists, h)
                     | Inl _ \<Rightarrow>
                         (case LoadChart E runnerGroupServerChartName of
                            Inl e \<Rightarrow> Return (Some (RgChart e), h)
                          | Inr ch \<Rightarrow>
                              bind_outcome
                                (NewReleaseCli (vc_helm E) kubeconfigPath runnerGroupReleaseNamespace
                                   runnerGroupServerReleaseName ch runnerGroupReleaseLabels
                                   [StringPathValuesApplier (vc_parse_into E)
                                      (server_paths runnerImage (b64_encode specInStr) runnerVerbosity),
                                    appiler]) (\<lambda>res.
                                case res of
                                  Inl e \<Rightarrow> Return (Some (RgRelease e), h)
                                | Inr cli \<Rightarrow>
                                    bind_outcome (ReleaseCli_Deploy (vc_helm E) cli (120 * 1000000000) [] h)
                                      (\<lambda>((err, _), h'). Return (map_option RgDeploy err, h'))))))))"

text \<open>\<open>delete_ns\<close> is the answer of \<^verbatim>\<open>kubectl delete namespace\<close>.\<close>

definition DeleteRunnerGroupServer ::
  "'h vc_env \<Rightarrow> goerr option \<Rightarrow> string \<Rightarrow> 'h \<Rightarrow> rg_error option \<times> 'h" where
  "DeleteRunnerGroupServer E delete_ns kubeconfigPath h =
     (case NewDeleteCli (vc_helm E) kubeconfigPath runnerGroupReleaseNamespace of
        Inl e \<Rightarrow> (Some (RgHelmClient e), h)
      | Inr delCli \<Rightarrow>
          (case DeleteCli_Delete (vc_helm E) delCli runnerGroupServerReleaseName h of
             (Some e, h') \<Rightarrow> (Some (RgDelete e), h')
           | (None, h') \<Rightarrow> (map_option RgDeleteNamespace delete_ns, h')))"

section \<open>The run command\<close>

datatype run_cmd_error =
  ImageRequired | AffinityInvalid kv_error | FlowControlFormat string | PrecedenceInvalid atoi_error
| ClientsetFailed goerr | SpecFailed parse_error | OneGroupOnly | RgFailed rg_error
| ServerNameArg | HandlerFailed group_error | ServerFailed server_error

definition parseFlowControl :: "string \<Rightarrow> run_cmd_error + string \<times> int" where
  "parseFlowControl value =
     (case str_cut CHR '':'' value of
        None \<Rightarrow> Inl (FlowControlFormat value)
      | Some (l, r) \<Rightarrow>
          (if length l = 0 \<or> length r = 0 then Inl (FlowControlFormat value)
           else case atoi r of
             Inl e \<Rightarrow> Inl (PrecedenceInvalid e)
           | Inr n \<Rightarrow> Inr (l, n)))"

fun load_specs :: "(string \<Rightarrow> parse_error + RunnerGroupSpec) \<Rightarrow> string list \<Rightarrow> run_cmd_error + RunnerGroupSpec list" where
  "load_specs from_uri [] = Inr []"
| "load_specs from_uri (u # us) =
     (case from_uri u of
        Inl e \<Rightarrow> Inl (SpecFailed e)
      | Inr spec \<Rightarrow>
          (case load_specs from_uri us of Inl e \<Rightarrow> Inl e | Inr specs \<Rightarrow> Inr (spec # specs)))"

text \<open>\<open>clientset\<close> is the error of building the clientset; \<open>from_uri\<close> is \<^verbatim>\<open>NewRunnerGroupSpecFromURI\<close> with
  that clientset.\<close>

definition loadRunnerGroupSpec ::
  "goerr option \<Rightarrow> (string \<Rightarrow> parse_error + RunnerGroupSpec) \<Rightarrow> Context \<Rightarrow> run_cmd_error + RunnerGroupSpec list" where
  "loadRunnerGroupSpec clientset from_uri c =
     (case clientset of
        Some e \<Rightarrow> Inl (ClientsetFailed e)
      | None \<Rightarrow> load_specs from_uri (cli_StringSlice c ''runnergroup''))"

definition rg_runCommand ::
  "'h vc_env \<Rightarrow> (RunnerGroupSpec \<Rightarrow> goerr + string) \<Rightarrow> goerr option \<Rightarrow>
   (string \<Rightarrow> parse_error + RunnerGroupSpec) \<Rightarrow> Context \<Rightarrow> 'h \<Rightarrow> (run_cmd_error option \<times> 'h) outcome" where
  "rg_runCommand E marshal clientset from_uri c h =
     (let imgRef = cli_String c ''runner-image''
      in if length imgRef = 0 then Return (Some ImageRequired, h)
         else case KeyValuesMap (cli_StringSlice c ''affinity'') of
           Inl e \<Rightarrow> Return (Some (AffinityInvalid e), h)
         | Inr affinityLabels \<Rightarrow>
             (case parseFlowControl (cli_String c ''runner-flowcontrol'') of
                Inl e \<Rightarrow> Return (Some e, h)
              | Inr (priorityLevel, matchingPrecedence) \<Rightarrow>
                  (case loadRunnerGroupSpec clientset from_uri c of
                     Inl e \<Rightarrow> Return (Some e, h)
                   | Inr [spec] \<Rightarrow>
                       bind_outcome
                         (CreateRunnerGroupServer E marshal (cli_GlobalString c ''kubeconfig'') imgRef
                            (spec\<lparr>spec_NodeAffinity := affinityLabels\<rparr>) (cli_Int c ''runner-verbosity'')
                            [WithRunCmdServerNodeSelectorsOpt (Some affinityLabels),
                             WithRunCmdRunnerGroupFlowControl priorityLevel matchingPrecedence] h)
                         (\<lambda>(err, h'). Return (map_option RgFailed err, h'))
                   | Inr _ \<Rightarrow> Return (Some OneGroupOnly, h))))"

section \<open>The server command\<close>

definition override_group :: "string \<Rightarrow> string \<Rightarrow> RunnerGroupSpec \<Rightarrow> RunnerGroupSpec" where
  "override_group ownerRef sa spec =
     (let spec1 = (if ownerRef \<noteq> '''' then spec\<lparr>spec_OwnerReference := Some ownerRef\<rparr> else spec)
      in (if sa \<noteq> '''' then spec1\<lparr>spec_ServiceAccount := Some sa\<rparr> else spec1))"

fun build_groups ::
  "(string \<Rightarrow> parse_error + RunnerGroupSpec) \<Rightarrow> Context \<Rightarrow> string \<Rightarrow> string \<Rightarrow> string \<Rightarrow> nat \<Rightarrow> string list \<Rightarrow>
   run_cmd_error + Handler list" where
  "build_groups from_uri c serverName ownerRef sa idx [] = Inr []"
| "build_groups from_uri c serverName ownerRef sa idx (u # us) =
     (case from_uri u of
        Inl e \<Rightarrow> Inl (SpecFailed e)
      | Inr spec \<Rightarrow>
          (case NewHandler (cli_String c ''namespace'') (serverName @ ''-'' @ itoa (int idx))
                  (override_group ownerRef sa spec) (cli_String c ''runner-image'')
                  (cli_Int c ''runner-verbosity'') of
             Inl e \<Rightarrow> Inl (HandlerFailed e)
           | Inr g \<Rightarrow>
               (case build_groups from_uri c serverName ownerRef sa (Suc idx) us of
                  Inl e \<Rightarrow> Inl e
                | Inr gs \<Rightarrow> Inr (g # gs))))"

definition buildRunnerGroupHandlers ::
  "goerr option \<Rightarrow> (string \<Rightarrow> parse_error + RunnerGroupSpec) \<Rightarrow> Context \<Rightarrow> string \<Rightarrow>
   run_cmd_error + Handler list" where
  "buildRunnerGroupHandlers clientset from_uri c serverName =
     (case clientset of
        Some e \<Rightarrow> Inl (ClientsetFailed e)
      | None \<Rightarrow>
          build_groups from_uri c serverName
            (if cli_IsSet c ''runner-owner'' then cli_String c ''runner-owner'' else '''')
            (if cli_IsSet c ''runner-sa'' then cli_String c ''runner-sa'' else '''')
            0 (cli_StringSlice c ''runnergroup''))"

definition serverCommand ::
  "goerr option \<Rightarrow> (string \<Rightarrow> parse_error + RunnerGroupSpec) \<Rightarrow> goerr option \<times> goerr option \<Rightarrow>
   (string \<Rightarrow> goerr + string) \<Rightarrow> (Handler \<Rightarrow> string \<Rightarrow> group_error option) \<Rightarrow> (Handler list \<Rightarrow> Handler list) \<Rightarrow>
   goerr option list \<Rightarrow> Context \<Rightarrow> run_cmd_error option outcome" where
  "serverCommand clientset from_uri mk listen deploy order served c =
     (case cli_Args c of
        [a] \<Rightarrow>
          (if trim_space a = '''' then Return (Some ServerNameArg)
           else case buildRunnerGroupHandlers clientset from_uri c (trim_space a) of
             Inl e \<Rightarrow> Return (Some e)
           | Inr groupHandlers \<Rightarrow>
               (case fst (NewServer mk listen (cli_String c ''data'') (cli_StringSlice c ''address'')
                       groupHandlers) of
                  Inl e \<Rightarrow> Return (Some (ServerFailed e))
                | Inr srv \<Rightarrow>
                    bind_outcome (Run deploy srv (order groupHandlers) served)
                      (\<lambda>err. Return (map_option ServerFailed err))))
      | _ \<Rightarrow> Return (Some ServerNameArg))"

section \<open>Port forwarding (\<^verbatim>\<open>portforward/portforward.go\<close>)\<close>

text \<open>\<open>pf_started\<close> says that the field \<^verbatim>\<open>portForwarder\<close> is set, \<open>pf_running\<close> that the goroutine with
  \<^verbatim>\<open>ForwardPorts\<close> has been started and not been told to end.\<close>

record PodPortForwarder =
  pf_targetPort :: int
  pf_started :: bool
  pf_running :: bool

datatype client_failure =
  ForwardConfig goerr | PodMissing string string goerr | PodNotRunning string
| ForwardTransport goerr | ForwardInit goerr | ForwardStart goerr | ForwardTimeout
| NotStarted | GetPorts goerr | Access string goerr
| ReadError int goerr | DecodeError int goerr | ServerError http_error | ReadData goerr | UnmarshalData goerr

text \<open>What ends the \<^verbatim>\<open>select\<close> of \<^verbatim>\<open>Start\<close>: the forwarder is ready, it has failed, or 120 seconds have
  passed.\<close>

datatype start_event = StartReady | StartFailed goerr | StartTimeout

record forward_answers =
  fa_config :: "goerr option"
  fa_pod :: "goerr + string"
  fa_transport :: "goerr option"
  fa_init :: "goerr option"
  fa_event :: start_event
  fa_ports :: "goerr + int list"

definition ensurePodIsRunning :: "forward_answers \<Rightarrow> string \<Rightarrow> string \<Rightarrow> client_failure option" where
  "ensurePodIsRunning ans namespace podName =
     (case fa_pod ans of
        Inl e \<Rightarrow> Some (PodMissing podName namespace e)
      | Inr phase \<Rightarrow> (if phase \<noteq> ''Running'' then Some (PodNotRunning phase) else None))"

definition NewPodPortForwarder ::
  "forward_answers \<Rightarrow> string \<Rightarrow> string \<Rightarrow> int \<Rightarrow> client_failure + PodPortForwarder" where
  "NewPodPortForwarder ans namespace podName targetPort =
     (case fa_config ans of
        Some e \<Rightarrow> Inl (ForwardConfig e)
      | None \<Rightarrow>
          (case ensurePodIsRunning ans namespace podName of
             Some e \<Rightarrow> Inl e
           | None \<Rightarrow> Inr \<lparr>pf_targetPort = targetPort, pf_started = False, pf_running = False\<rparr>))"

definition PodPortForwarder_Start ::
  "forward_answers \<Rightarrow> PodPortForwarder \<Rightarrow> client_failure option \<times> PodPortForwarder" where
  "PodPortForwarder_Start ans pf =
     (case fa_transport ans of
        Some e \<Rightarrow> (Some (ForwardTransport e), pf)
      | None \<Rightarrow>
          (case fa_init ans of
             Some e \<Rightarrow> (Some (ForwardInit e), pf)
           | None \<Rightarrow>
               (case fa_event ans of
                  StartReady \<Rightarrow> (None, pf\<lparr>pf_started := True, pf_running := True\<rparr>)
                | StartFailed e \<Rightarrow> (Some (ForwardStart e), pf)
                | StartTimeout \<Rightarrow> (Some ForwardTimeout, pf\<lparr>pf_running := True\<rparr>))))"

definition GetLocalPort :: "forward_answers \<Rightarrow> PodPortForwarder \<Rightarrow> (client_failure + int) outcome" where
  "GetLocalPort ans pf =
     (if \<not> pf_started pf then Return (Inl NotStarted)
      else case fa_ports ans of
        Inl e \<Rightarrow> Return (Inl (GetPorts e))
      | Inr [] \<Rightarrow> Panic
      | Inr (p # ps) \<Rightarrow> Return (Inr p))"

definition PodPortForwarder_Stop :: "PodPortForwarder \<Rightarrow> PodPortForwarder" where
  "PodPortForwarder_Stop pf = (if pf_started pf then pf\<lparr>pf_running := False\<rparr> else pf)"

section \<open>Clients of the server\<close>

text \<open>The deferred function stops the forwarder when an error is returned. The result also has the
  forwarder, if it was built.\<close>

definition initPortForwardToServer ::
  "forward_answers \<Rightarrow> ((client_failure + string) \<times> PodPortForwarder option) outcome" where
  "initPortForwardToServer ans =
     (case NewPodPortForwarder ans runnerGroupReleaseNamespace runnerGroupServerReleaseName 8080 of
        Inl e \<Rightarrow> Return (Inl e, None)
      | Inr pf \<Rightarrow>
          (case PodPortForwarder_Start ans pf of
             (Some e, pf') \<Rightarrow> Return (Inl e, Some (PodPortForwarder_Stop pf'))
           | (None, pf') \<Rightarrow>
               bind_outcome (GetLocalPort ans pf') (\<lambda>res.
                 case res of
                   Inl e \<Rightarrow> Return (Inl e, Some (PodPortForwarder_Stop pf'))
                 | Inr localPort \<Rightarrow> Return (Inr (''localhost:'' @ itoa localPort), Some pf'))))"

text \<open>An answer as the HTTP client sees it: a status code and what reading the body gives.\<close>

record http_answer =
  ha_code :: int
  ha_body :: "goerr + string"

text \<open>Reading an answer, as both clients do; the decoders are those of \<^verbatim>\<open>encoding/json\<close> for the two types.\<close>

definition read_answer ::
  "(string \<Rightarrow> goerr + http_error) \<Rightarrow> (string \<Rightarrow> goerr + 'r) \<Rightarrow> http_answer \<Rightarrow> client_failure + 'r" where
  "read_answer unmarshal_err unmarshal resp =
     (if ha_code resp \<noteq> 200 then
        (case ha_body resp of
           Inl e \<Rightarrow> Inl (ReadError (ha_code resp) e)
         | Inr errInRaw \<Rightarrow>
             (case unmarshal_err errInRaw of
                Inl e \<Rightarrow> Inl (DecodeError (ha_code resp) e)
              | Inr herr \<Rightarrow> Inl (ServerError herr)))
      else case ha_body resp of
        Inl e \<Rightarrow> Inl (ReadData e)
      | Inr dataInRaw \<Rightarrow> map_sum UnmarshalData id (unmarshal dataInRaw))"

text \<open>A client: the port forward, one GET request (\<open>get\<close> is \<^verbatim>\<open>http.DefaultClient.Do\<close>), and the end of
  the forward by \<^verbatim>\<open>defer done()\<close>.\<close>

definition client_request ::
  "forward_answers \<Rightarrow> (string \<Rightarrow> goerr + http_answer) \<Rightarrow> (string \<Rightarrow> goerr + http_error) \<Rightarrow>
   (string \<Rightarrow> goerr + 'r) \<Rightarrow> string \<Rightarrow> ((client_failure + 'r) \<times> PodPortForwarder option) outcome" where
  "client_request ans get unmarshal_err unmarshal path =
     bind_outcome (initPortForwardToServer ans) (\<lambda>(res, pf).
       case res of
         Inl e \<Rightarrow> Return (Inl e, pf)
       | Inr host \<Rightarrow>
           (let targetURL = ''http://'' @ host @ path
            in Return (case get targetURL of
                         Inl e \<Rightarrow> Inl (Access targetURL e)
                       | Inr resp \<Rightarrow> read_answer unmarshal_err unmarshal resp,
                       map_option PodPortForwarder_Stop pf)))"

definition ListRunnerGroups ::
  "forward_answers \<Rightarrow> (string \<Rightarrow> goerr + http_answer) \<Rightarrow> (string \<Rightarrow> goerr + http_error) \<Rightarrow>
   (string \<Rightarrow> goerr + RunnerGroup list) \<Rightarrow>
   ((client_failure + RunnerGroup list) \<times> PodPortForwarder option) outcome" where
  "ListRunnerGroups ans get unmarshal_err unmarshal =
     client_request ans get unmarshal_err unmarshal ''/v1/runnergroups''"

definition GetRunnerGroupResult ::
  "forward_answers \<Rightarrow> (string \<Rightarrow> goerr + http_answer) \<Rightarrow> (string \<Rightarrow> goerr + http_error) \<Rightarrow>
   (string \<Rightarrow> goerr + RunnerMetricReport) \<Rightarrow> bool \<Rightarrow>
   ((client_failure + RunnerMetricReport) \<times> PodPortForwarder option) outcome" where
  "GetRunnerGroupResult ans get unmarshal_err unmarshal wait =
     client_request ans get unmarshal_err unmarshal
       (''/v1/runnergroups/summary'' @ (if wait then ''?wait=true'' else ''''))"

section \<open>Facts\<close>

lemma build_groups_names:
  "build_groups from_uri c serverName ownerRef sa idx us = Inr gs \<Longrightarrow>
   map h_name gs = map (\<lambda>k. serverName @ ''-'' @ itoa (int k)) [idx..<idx + length us] \<and>
   list_all (\<lambda>g. h_namespace g = cli_String c ''namespace'' \<and> h_imageRef g = cli_String c ''runner-image'' \<and>
     (sa \<noteq> '''' \<longrightarrow> spec_ServiceAccount (h_spec g) = Some sa) \<and>
     (ownerRef \<noteq> '''' \<longrightarrow> spec_OwnerReference (h_spec g) = Some ownerRef)) gs"
proof (induction us arbitrary: idx gs)
  case (Cons u us)
  then obtain spec g gs' where g: "from_uri u = Inr spec"
    "NewHandler (cli_String c ''namespace'') (serverName @ ''-'' @ itoa (int idx))
       (override_group ownerRef sa spec) (cli_String c ''runner-image'') (cli_Int c ''runner-verbosity'') = Inr g"
    "build_groups from_uri c serverName ownerRef sa (Suc idx) us = Inr gs'" "gs = g # gs'"
    by (auto split: sum.splits)
  have "h_name g = serverName @ ''-'' @ itoa (int idx)" "h_namespace g = cli_String c ''namespace''"
    "h_imageRef g = cli_String c ''runner-image''" "h_spec g = override_group ownerRef sa spec"
    using g(2) by (auto simp: NewHandler_def split: sum.splits)
  moreover have "[idx..<idx + length (u # us)] = idx # [Suc idx..<Suc idx + length us]"
    by (simp add: upt_conv_Cons del: upt_Suc)
  ultimately show ?case
    using Cons.IH [OF g(3)] g(4) by (simp add: override_group_def Let_def del: upt_Suc)
qed simp

abbreviation start_timed_out :: "forward_answers \<Rightarrow> bool" where
  "start_timed_out ans \<equiv> fa_transport ans = None \<and> fa_init ans = None \<and> fa_event ans = StartTimeout"

lemma forward_state:
  assumes "initPortForwardToServer ans = Return (res, Some pf)"
  shows "(case res of
      Inl e \<Rightarrow> pf_running pf \<longleftrightarrow> start_timed_out ans
    | Inr host \<Rightarrow> pf_started pf \<and> \<not> start_timed_out ans)"
  using assms
  by (cases "fa_config ans"; cases "fa_pod ans"; cases "fa_transport ans"; cases "fa_init ans";
      cases "fa_event ans"; cases "fa_ports ans")
     (auto simp: initPortForwardToServer_def NewPodPortForwarder_def ensurePodIsRunning_def
      PodPortForwarder_Start_def PodPortForwarder_Stop_def GetLocalPort_def split: if_splits list.splits)

lemma b64_char_safe: "b64_char n \<in> set b64_alphabet"
proof -
  have "length b64_alphabet = 64" by (simp add: b64_alphabet_def)
  then show ?thesis unfolding b64_char_def by (intro nth_mem) simp
qed

lemma b64_encode_safe: "set (b64_encode s) \<subseteq> insert (CHR ''='') (set b64_alphabet)"
  by (induction s rule: b64_encode.induct) (simp_all add: b64_char_safe)

section \<open>Properties\<close>

text \<open>
  The server runs one handler per runner group, under distinct names: the handlers that the
  server command builds are named after the server and the position of their group, live in
  the namespace and use the image of the flags, and a service account or owner that is
  given by a flag replaces that of every spec.
\<close>

theorem server_groups_distinct:
  assumes "buildRunnerGroupHandlers clientset from_uri c serverName = Inr gs"
  shows "length gs = length (cli_StringSlice c ''runnergroup'') \<and> distinct (map h_name gs) \<and>
    list_all (\<lambda>g. h_namespace g = cli_String c ''namespace'' \<and> h_imageRef g = cli_String c ''runner-image'' \<and>
      (cli_IsSet c ''runner-sa'' \<and> cli_String c ''runner-sa'' \<noteq> '''' \<longrightarrow>
         spec_ServiceAccount (h_spec g) = Some (cli_String c ''runner-sa'')) \<and>
      (cli_IsSet c ''runner-owner'' \<and> cli_String c ''runner-owner'' \<noteq> '''' \<longrightarrow>
         spec_OwnerReference (h_spec g) = Some (cli_String c ''runner-owner''))) gs"
proof -
  have b: "build_groups from_uri c serverName
      (if cli_IsSet c ''runner-owner'' then cli_String c ''runner-owner'' else '''')
      (if cli_IsSet c ''runner-sa'' then cli_String c ''runner-sa'' else '''')
      0 (cli_StringSlice c ''runnergroup'') = Inr gs"
    using assms by (auto simp: buildRunnerGroupHandlers_def split: option.splits)
  note names = build_groups_names [OF b]
  have "distinct (map h_name gs)" using names by (simp add: distinct_map inj_on_def)
  moreover have "length gs = length (cli_StringSlice c ''runnergroup'')"
    using arg_cong [OF conjunct1 [OF names], of length] by simp
  ultimately show ?thesis using names by (auto simp: list_all_iff)
qed


definition sample_forward :: "start_event \<Rightarrow> forward_answers" where
  "sample_forward ev = \<lparr>fa_config = None, fa_pod = Inr ''Running'', fa_transport = None, fa_init = None,
     fa_event = ev, fa_ports = Inr [4000]\<rparr>"


definition sample_group :: RunnerGroupSpec where
  "sample_group = \<lparr>spec_Count = 1, spec_Profile = None, spec_NodeAffinity = [], spec_ServiceAccount = None,
     spec_OwnerReference = None\<rparr>"

definition server_flags :: Context where
  "server_flags = \<lparr>cli_IsSet = (\<lambda>f. f = ''runner-sa''), cli_Int = (\<lambda>_. 2), cli_Float64 = (\<lambda>_. Fin 0),
     cli_String = (\<lambda>f. f), cli_Bool = (\<lambda>_. False), cli_StringSlice = (\<lambda>_. [''file:///a'', ''file:///b'']),
     cli_GlobalString = (\<lambda>_. ''''), cli_GlobalBool = (\<lambda>_. False), cli_Args = [''srv'']\<rparr>"

theorem server_groups_distinct_witness:
  "\<exists>gs. buildRunnerGroupHandlers None (\<lambda>_. Inr sample_group) server_flags ''srv'' = Inr gs \<and>
     length gs = 2 \<and> distinct (map h_name gs) \<and>
     list_all (\<lambda>g. spec_ServiceAccount (h_spec g) = Some ''runner-sa'') gs"
proof -
  have "\<exists>gs. buildRunnerGroupHandlers None (\<lambda>_. Inr sample_group) server_flags ''srv'' = Inr gs"
    by (simp add: buildRunnerGroupHandlers_def server_flags_def NewHandler_def buildOwnerReference_def
        override_group_def sample_group_def)
  then obtain gs where gs: "buildRunnerGroupHandlers None (\<lambda>_. Inr sample_group) server_flags ''srv'' = Inr gs"
    by blast
  from server_groups_distinct [OF gs] gs show ?thesis by (simp add: server_flags_def list_all_iff)
qed

text \<open>
  C29: \<^verbatim>\<open>runnergroup run\<close> changes one release or none. When it fails, the releases are as they were;
  when it succeeds, Helm had not found a server before, and the only change is the server's
  release, with its labels.
\<close>

theorem run_server_atomic:
  assumes "helm_ok (vc_helm E) rels"
    and "CreateRunnerGroupServer E marshal kube runnerImage rgSpec verbosity opts h = Return (err, h')"
  shows "(err \<noteq> None \<longrightarrow> rels h' = rels h) \<and>
    (err = None \<longrightarrow>
       (\<exists>e. helm_Get (vc_helm E) runnerGroupReleaseNamespace runnerGroupServerReleaseName h = Inl e) \<and>
       (\<exists>r. rel_Labels r = runnerGroupReleaseLabels \<and>
          rels h' = (rels h)((runnerGroupReleaseNamespace, runnerGroupServerReleaseName) \<mapsto> r)))"
proof -
  have "(err \<noteq> None \<and> h' = h) \<or>
    (\<exists>e cli cli' err0. helm_Get (vc_helm E) runnerGroupReleaseNamespace runnerGroupServerReleaseName h = Inl e \<and>
       cl_namespace cli = runnerGroupReleaseNamespace \<and> cl_name cli = runnerGroupServerReleaseName \<and>
       cl_labels cli = runnerGroupReleaseLabels \<and>
       ReleaseCli_Deploy (vc_helm E) cli (120 * 1000000000) [] h = Return ((err0, cli'), h') \<and>
       (err = None \<longleftrightarrow> err0 = None))"
  proof (cases "\<exists>specInStr app e ch. fst (tweakAndMarshalSpec marshal rgSpec) = Inr specInStr \<and>
      toServerHelmValuesAppiler E (fold (\<lambda>opt. opt) opts defaultRunCmdCfg) = Inr app \<and>
      helm_Init (vc_helm E) kube runnerGroupReleaseNamespace = None \<and>
      helm_Get (vc_helm E) runnerGroupReleaseNamespace runnerGroupServerReleaseName h = Inl e \<and>
      LoadChart E runnerGroupServerChartName = Inr ch")
    case False
    then show ?thesis
      using assms(2)
      by (auto simp: CreateRunnerGroupServer_def NewGetCli_def GetCli_Get_def split: sum.splits option.splits)
  next
    case True
    then obtain specInStr app e ch where eqs: "fst (tweakAndMarshalSpec marshal rgSpec) = Inr specInStr"
      "toServerHelmValuesAppiler E (fold (\<lambda>opt. opt) opts defaultRunCmdCfg) = Inr app"
      "helm_Init (vc_helm E) kube runnerGroupReleaseNamespace = None"
      "helm_Get (vc_helm E) runnerGroupReleaseNamespace runnerGroupServerReleaseName h = Inl e"
      "LoadChart E runnerGroupServerChartName = Inr ch" by blast
    note run = assms(2) [unfolded CreateRunnerGroupServer_def NewGetCli_def GetCli_Get_def]
    obtain res where new: "NewReleaseCli (vc_helm E) kube runnerGroupReleaseNamespace
        runnerGroupServerReleaseName ch runnerGroupReleaseLabels
        [StringPathValuesApplier (vc_parse_into E)
           (server_paths runnerImage (b64_encode specInStr) verbosity), app] = Return res"
      using run eqs by (auto simp: bind_outcome_Return)
    show ?thesis
    proof (cases res)
      case (Inl e)
      with run eqs new show ?thesis by auto
    next
      case (Inr cli)
      note cli = NewReleaseCli_fields [OF new [unfolded Inr]]
      obtain err0 cli' where "ReleaseCli_Deploy (vc_helm E) cli (120 * 1000000000) [] h = Return ((err0, cli'), h')"
        "err = map_option RgDeploy err0"
        using run eqs new Inr by (auto simp: bind_outcome_Return)
      with cli eqs(4) show ?thesis by auto
    qed
  qed
  then show ?thesis
  proof (elim disjE exE conjE)
    fix e cli cli' err0
    assume cli: "cl_namespace cli = runnerGroupReleaseNamespace" "cl_name cli = runnerGroupServerReleaseName"
      "cl_labels cli = runnerGroupReleaseLabels"
      and dep: "ReleaseCli_Deploy (vc_helm E) cli (120 * 1000000000) [] h = Return ((err0, cli'), h')"
      and get: "helm_Get (vc_helm E) runnerGroupReleaseNamespace runnerGroupServerReleaseName h = Inl e"
      and err: "err = None \<longleftrightarrow> err0 = None"
    from deploy_effect [OF assms(1) dep] cli get err show ?thesis
      by (cases err0) (auto simp: stored_def)
  qed auto
qed


definition server_vc :: "store vc_env" where
  "server_vc = sample_vc (\<lambda>n. False)
     \<lparr>vc_FS := [(''runnergroup/server/Chart.yaml'', [])], vc_marshal := (\<lambda>_. Inr ''flowcontrol'')\<rparr>"

theorem run_server_atomic_witness:
  "\<exists>h'. CreateRunnerGroupServer server_vc (\<lambda>_. Inr ''count: 1'') [] ''img'' sample_group 2 [] [] =
       Return (None, h') \<and>
     (\<exists>r. rel_Labels r = runnerGroupReleaseLabels \<and>
        map_of h' = [(runnerGroupReleaseNamespace, runnerGroupServerReleaseName) \<mapsto> r])"
proof -
  let ?run = "CreateRunnerGroupServer server_vc (\<lambda>_. Inr ''count: 1'') [] ''img'' sample_group 2 [] []"
  have "case ?run of Return (None, h') \<Rightarrow> True | _ \<Rightarrow> False" by code_simp
  then obtain h' where run: "?run = Return (None, h')" by (auto split: outcome.splits option.splits)
  have helm: "helm_ok (vc_helm server_vc) map_of" by (simp add: server_vc_def sample_helm_ok)
  from run_server_atomic [OF helm run] run show ?thesis by simp
qed

end
