(* ===== verification/Object_Sets.thy ===== *)
theory Object_Sets
  imports Cli_Utils
begin

text \<open>
  What the data commands of \<^verbatim>\<open>runkperf\<close> (\<^verbatim>\<open>contrib/cmd/runkperf/commands/data\<close>) share: the
  Kubernetes API as a record of functions over an abstract state of the cluster, the
  preparation of a namespace, and the loop that runs calls in parallel batches with
  \<^verbatim>\<open>errgroup\<close>. The lemmas say what a loop without an error has done to the stored objects.
\<close>

section \<open>The API\<close>

text \<open>The calls for one kind of object, in a namespace: create, delete by name, and list by label
  selector; and the creation of a namespace.\<close>

record ('o, 'h) obj_api =
  api_Create :: "string \<Rightarrow> 'o \<Rightarrow> 'h \<Rightarrow> goerr option \<times> 'h"
  api_Delete :: "string \<Rightarrow> string \<Rightarrow> 'h \<Rightarrow> goerr option \<times> 'h"
  api_List :: "string \<Rightarrow> string \<Rightarrow> 'h \<Rightarrow> goerr + 'o list"
  api_CreateNamespace :: "string \<Rightarrow> 'h \<Rightarrow> goerr option \<times> 'h"

datatype (plugins only: code size) data_error =
  EmptyNamespace | CreateNamespaceFailed string goerr
| SetNameArgument "string list" | EmptySetName | ClientsetError goerr
| InvalidSize | InvalidGroupSize | InvalidTotal | GroupSizeAboveTotal | InvalidCount
| LengthNotPositive | RandomFailed goerr | RandomString string data_error
| ApiFailure goerr | CreateObject string goerr | ListObjects goerr | NoObjects string | DeleteObject string goerr
| NoCmNameLabel string | NoOwnerIDLabel string | OwnerIDNotInt string atoi_error

definition prepareNamespace ::
  "(api_reason \<Rightarrow> goerr \<Rightarrow> bool) \<Rightarrow> ('o, 'h) obj_api \<Rightarrow> string \<Rightarrow> 'h \<Rightarrow> data_error option \<times> 'h" where
  "prepareNamespace api_is A namespace h =
     (if namespace = '''' then (Some EmptyNamespace, h)
      else if namespace = ''default'' then (None, h)
      else case api_CreateNamespace A namespace h of
        (None, h') \<Rightarrow> (None, h')
      | (Some e, h') \<Rightarrow>
          (if api_is IsAlreadyExists e then (None, h')
           else (Some (CreateNamespaceFailed namespace e), h')))"

text \<open>The argument of the commands: the name of a set of objects.\<close>

definition set_name :: "Context \<Rightarrow> data_error + string" where
  "set_name c =
     (case cli_Args c of
        [a] \<Rightarrow> (if length (trim_space a) = 0 then Inl EmptySetName else Inr (trim_space a))
      | as \<Rightarrow> Inl (SetNameArgument as))"

text \<open>The documented behaviour of the API that the properties rely on. \<open>st\<close> reads the stored objects by
  namespace and name; \<open>nm\<close> and \<open>lbl\<close> are the name and the labels of an object; \<open>matches\<close> says which labels
  a selector selects. Creating succeeds only for a new name; a list has every selected object once.\<close>

definition api_ok ::
  "(api_reason \<Rightarrow> goerr \<Rightarrow> bool) \<Rightarrow> ('o \<Rightarrow> string) \<Rightarrow> ('o \<Rightarrow> string gomap) \<Rightarrow>
   (string \<Rightarrow> string gomap \<Rightarrow> bool) \<Rightarrow> ('o, 'h) obj_api \<Rightarrow> ('h \<Rightarrow> string \<times> string \<Rightarrow> 'o option) \<Rightarrow> bool" where
  "api_ok api_is nm lbl matches A st \<longleftrightarrow>
     (\<forall>ns x h h'. api_Create A ns x h = (None, h') \<longrightarrow>
        st h (ns, nm x) = None \<and> st h' = (st h)((ns, nm x) \<mapsto> x)) \<and>
     (\<forall>ns n h h'. api_Delete A ns n h = (None, h') \<longrightarrow> st h' = (st h)((ns, n) := None)) \<and>
     (\<forall>ns n e h h'. api_Delete A ns n h = (Some e, h') \<longrightarrow> api_is IsNotFound e \<longrightarrow>
        st h (ns, n) = None \<and> st h' = st h) \<and>
     (\<forall>ns sel h xs. api_List A ns sel h = Inr xs \<longrightarrow> distinct (map nm xs) \<and>
        (\<forall>x. x \<in> set xs \<longleftrightarrow> st h (ns, nm x) = Some x \<and> matches sel (lbl x)))"

text \<open>A selector that asks for given values of some labels.\<close>

definition selects :: "(string \<Rightarrow> string gomap \<Rightarrow> bool) \<Rightarrow> string \<Rightarrow> string gomap \<Rightarrow> bool" where
  "selects matches sel reqs \<longleftrightarrow>
     (\<forall>ls. matches sel ls \<longleftrightarrow> list_all (\<lambda>(k, v). map_of ls k = Some v) reqs)"

section \<open>Batches of parallel calls\<close>

text \<open>\<^verbatim>\<open>errgroup.Group\<close>: the calls of a group reach the API in some order, every one of them does, and
  \<^verbatim>\<open>Wait\<close> gives one of the errors.\<close>

record 'e errgroup =
  eg_order :: "int \<Rightarrow> int list \<Rightarrow> int list"
  eg_Wait :: "'e list \<Rightarrow> 'e option"

definition errgroup_ok :: "'e errgroup \<Rightarrow> bool" where
  "errgroup_ok G \<longleftrightarrow> (\<forall>i js. mset (eg_order G i js) = mset js) \<and> (\<forall>es. eg_Wait G es = None \<longleftrightarrow> es = [])"

text \<open>Calls one after the other, with the errors they give.\<close>

fun run_calls :: "('j \<Rightarrow> 'h \<Rightarrow> 'e option \<times> 'h) \<Rightarrow> 'j list \<Rightarrow> 'h \<Rightarrow> 'e list \<times> 'h" where
  "run_calls call [] h = ([], h)"
| "run_calls call (j # js) h =
     (case call j h of
        (r, h1) \<Rightarrow>
          (case run_calls call js h1 of
             (es, h2) \<Rightarrow> ((case r of None \<Rightarrow> es | Some e \<Rightarrow> e # es), h2)))"

definition run_group ::
  "'e errgroup \<Rightarrow> (int \<Rightarrow> int \<Rightarrow> 'h \<Rightarrow> 'e option \<times> 'h) \<Rightarrow> int \<Rightarrow> int list \<Rightarrow> 'h \<Rightarrow> 'e option \<times> 'h" where
  "run_group G call i js h =
     (case run_calls (call i) (eg_order G i js) h of (es, h') \<Rightarrow> (eg_Wait G es, h'))"

text \<open>The loop over the batches, in 64-bit arithmetic: the batch at \<open>i\<close> has the indices from \<open>i\<close> up to
  \<open>i + batch\<close> that are below \<open>n\<close>. No result means that the loop does not end.\<close>

partial_function (option) group_loop ::
  "'e errgroup \<Rightarrow> (int \<Rightarrow> int \<Rightarrow> 'h \<Rightarrow> 'e option \<times> 'h) \<Rightarrow> int \<Rightarrow> int \<Rightarrow> int \<Rightarrow> 'h \<Rightarrow>
   ('e option \<times> 'h) option" where
  "group_loop G call batch n i h =
     (if i < n then
        (case run_group G call i [i..min (wrap64 (i + batch)) n - 1] h of
           (Some e, h') \<Rightarrow> Some (Some e, h')
         | (None, h') \<Rightarrow> group_loop G call batch n (wrap64 (i + batch)) h')
      else Some (None, h))"

declare group_loop.simps [code]

section \<open>What the loop does\<close>

lemma run_calls_append:
  "run_calls call (xs @ ys) h =
     (case run_calls call xs h of (es1, h1) \<Rightarrow>
        (case run_calls call ys h1 of (es2, h2) \<Rightarrow> (es1 @ es2, h2)))"
  by (induction xs arbitrary: h) (auto split: prod.splits option.splits)

lemma run_calls_map: "run_calls call (map f xs) h = run_calls (\<lambda>x. call (f x)) xs h"
  by (induction xs arbitrary: h) (auto split: prod.splits)

lemma run_calls_Cons_ok:
  "run_calls call (j # js) h = ([], h') \<longleftrightarrow>
     (\<exists>h1. call j h = (None, h1) \<and> run_calls call js h1 = ([], h'))"
  by (auto split: prod.splits option.splits)

lemma run_group_ok:
  assumes "errgroup_ok G" "run_group G call i js h = (None, h')" "distinct js"
  shows "\<exists>ks. run_calls (call i) ks h = ([], h') \<and> set ks = set js \<and> distinct ks"
proof -
  have "mset (eg_order G i js) = mset js" using assms(1) by (simp add: errgroup_ok_def)
  then have "set (eg_order G i js) = set js \<and> distinct (eg_order G i js)"
    using assms(3) by (metis mset_eq_imp_distinct_iff mset_eq_setD)
  moreover have "run_calls (call i) (eg_order G i js) h = ([], h')"
    using assms(1,2) by (auto simp: run_group_def errgroup_ok_def split: prod.splits)
  ultimately show ?thesis by blast
qed

lemma set_upto_less: "set [i..n - 1] = {i..<n}" for i :: int
  by auto

lemma batch_split: "0 < b \<Longrightarrow> {i..<min (i + b) n} \<union> {i + b..<n} = {i..<n}" for i :: int
  by auto

text \<open>The loop ends; without an error it has made every call once, and the call of an index belongs to the
  batch that starts at the greatest multiple of the batch size below it.\<close>

lemma group_loop_plan:
  assumes G: "errgroup_ok G" and b: "0 < b" and n: "n + b < 2 ^ 63"
  shows "\<exists>res h'. group_loop G call b n (int k * b) h = Some (res, h') \<and>
    (res = None \<longrightarrow> (\<exists>ps. run_calls (\<lambda>(i, j). call i j) ps h = ([], h') \<and> distinct (map snd ps) \<and>
       set ps = (\<lambda>j. (j div b * b, j)) ` {int k * b..<n}))"
proof (induction "nat (n - int k * b)" arbitrary: k h rule: less_induct)
  case less
  let ?i = "int k * b"
  show ?case
  proof (cases "?i < n")
    case False
    then have "group_loop G call b n ?i h = Some (None, h)" by (simp add: group_loop.simps)
    moreover have "run_calls (\<lambda>(i, j). call i j) [] h = ([], h)" by simp
    ultimately show ?thesis using False by fastforce
  next
    case True
    have "0 \<le> ?i" using b by simp
    then have "is_int64 (?i + b)" using True n b unfolding is_int64_def by linarith
    then have next_i: "wrap64 (?i + b) = int (Suc k) * b" by (simp add: algebra_simps)
    have suc: "int (Suc k) * b = ?i + b" by (simp add: algebra_simps)
    let ?js = "[?i..min (int (Suc k) * b) n - 1]"
    obtain r h1 where grp: "run_group G call ?i ?js h = (r, h1)" by fastforce
    show ?thesis
    proof (cases r)
      case (Some e)
      then show ?thesis using True grp next_i by (subst group_loop.simps) simp
    next
      case None
      have dec: "nat (n - int (Suc k) * b) < nat (n - ?i)" using True b suc by linarith
      obtain res h' where rec: "group_loop G call b n (int (Suc k) * b) h1 = Some (res, h')"
        and plan: "res = None \<longrightarrow> (\<exists>ps. run_calls (\<lambda>(i, j). call i j) ps h1 = ([], h') \<and>
          distinct (map snd ps) \<and> set ps = (\<lambda>j. (j div b * b, j)) ` {int (Suc k) * b..<n})"
        using less.hyps [OF dec, of h1] by blast
      have loop: "group_loop G call b n ?i h = Some (res, h')"
        using True grp None next_i rec by (subst group_loop.simps) simp
      have "\<exists>ps. run_calls (\<lambda>(i, j). call i j) ps h = ([], h') \<and> distinct (map snd ps) \<and>
          set ps = (\<lambda>j. (j div b * b, j)) ` {?i..<n}" if none: "res = None"
      proof -
        obtain ps where ps: "run_calls (\<lambda>(i, j). call i j) ps h1 = ([], h')" "distinct (map snd ps)"
          "set ps = (\<lambda>j. (j div b * b, j)) ` {int (Suc k) * b..<n}" using plan none by blast
        obtain ks where ks: "run_calls (call ?i) ks h = ([], h1)" "set ks = set ?js" "distinct ks"
          using run_group_ok [OF G grp [unfolded None]] by auto
        let ?qs = "map (Pair ?i) ks"
        have "run_calls (\<lambda>(i, j). call i j) ?qs h = ([], h1)" using ks(1) by (simp add: run_calls_map)
        then have run: "run_calls (\<lambda>(i, j). call i j) (?qs @ ps) h = ([], h')"
          using ps(1) by (simp add: run_calls_append)
        have idx: "set ks = {?i..<min (?i + b) n}" unfolding ks(2) suc by (rule set_upto_less)
        have dist: "distinct (map snd (?qs @ ps))"
          using ks(3) ps(2,3) idx suc by (auto simp: comp_def)
        have own: "j div b = int k" if "j \<in> set ks" for j
        proof (rule int_div_pos_eq)
          show "j = b * int k + (j - ?i)" by simp
        qed (use that idx in auto)
        then have "set ?qs = (\<lambda>j. (j div b * b, j)) ` set ks" by auto
        then have "set (?qs @ ps) = (\<lambda>j. (j div b * b, j)) ` (set ks \<union> {int (Suc k) * b..<n})"
          using ps(3) by (simp add: image_Un)
        moreover have "set ks \<union> {int (Suc k) * b..<n} = {?i..<n}"
          unfolding idx suc using b by (rule batch_split)
        ultimately have "set (?qs @ ps) = (\<lambda>j. (j div b * b, j)) ` {?i..<n}" by simp
        with run dist show ?thesis by blast
      qed
      with loop show ?thesis by blast
    qed
  qed
qed

lemma case_ok: "(case r of None \<Rightarrow> False | Some (None, h) \<Rightarrow> P h | Some (Some e, h) \<Rightarrow> False) \<longleftrightarrow>
    (\<exists>h. r = Some (None, h) \<and> P h)"
  by (auto split: option.splits)

text \<open>Calls that store new objects under distinct keys, and calls that remove keys.\<close>

lemma run_calls_store:
  assumes "run_calls call ps h = ([], h')" "distinct (map key ps)"
    and "\<And>p h h'. p \<in> set ps \<Longrightarrow> call p h = (None, h') \<Longrightarrow>
      \<exists>x. P p x \<and> st h (key p) = None \<and> st h' = (st h)(key p \<mapsto> x)"
  shows "(\<forall>p \<in> set ps. st h (key p) = None \<and> (\<exists>x. P p x \<and> st h' (key p) = Some x)) \<and>
    (\<forall>k. k \<notin> key ` set ps \<longrightarrow> st h' k = st h k)"
  using assms
proof (induction ps arbitrary: h)
  case (Cons p ps)
  obtain h1 where p: "call p h = (None, h1)" and ps: "run_calls call ps h1 = ([], h')"
    using Cons.prems(1) unfolding run_calls_Cons_ok by blast
  obtain x where x: "P p x" "st h (key p) = None" "st h1 = (st h)(key p \<mapsto> x)"
    using Cons.prems(3) [OF list.set_intros(1) p] by blast
  have IH: "(\<forall>p \<in> set ps. st h1 (key p) = None \<and> (\<exists>x. P p x \<and> st h' (key p) = Some x)) \<and>
    (\<forall>k. k \<notin> key ` set ps \<longrightarrow> st h' k = st h1 k)"
    using Cons.IH [OF ps] Cons.prems(2,3) by simp
  have new: "key p \<notin> key ` set ps" using Cons.prems(2) by simp
  have "st h1 (key q) = st h (key q)" if "q \<in> set ps" for q
  proof -
    have "key q \<noteq> key p" using new that by (metis imageI)
    then show ?thesis using x(3) by simp
  qed
  moreover have "st h' (key p) = Some x" using IH new x(3) by simp
  moreover have "st h' k = st h k" if "k \<notin> key ` set (p # ps)" for k using IH x(3) that by simp
  ultimately show ?case using IH x(1,2) by auto
qed simp

lemma run_calls_remove:
  assumes "run_calls call ps h = ([], h')"
    and "\<And>p h h'. p \<in> set ps \<Longrightarrow> call p h = (None, h') \<Longrightarrow> st h' = (st h)(key p := None)"
  shows "st h' = (\<lambda>k. if k \<in> key ` set ps then None else st h k)"
  using assms
proof (induction ps arbitrary: h)
  case (Cons p ps)
  obtain h1 where p: "call p h = (None, h1)" and ps: "run_calls call ps h1 = ([], h')"
    using Cons.prems(1) unfolding run_calls_Cons_ok by blast
  have "st h1 = (st h)(key p := None)" by (rule Cons.prems(2) [OF list.set_intros(1) p])
  moreover have "st h' = (\<lambda>k. if k \<in> key ` set ps then None else st h1 k)"
    using Cons.IH [OF ps] Cons.prems(2) by simp
  ultimately show ?case by (auto simp: fun_eq_iff)
qed simp

section \<open>An API server with an association list\<close>

text \<open>A server that keeps the objects in an association list and lists them in a given order shows
  that the assumptions on the API can hold.\<close>

type_synonym 'o obj_store = "((string \<times> string) \<times> 'o) list"

definition exists_err :: goerr where
  "exists_err = \<lparr>err_text = ''already exists'', err_chain = [plain_link]\<rparr>"

definition store_api ::
  "('o \<Rightarrow> string) \<Rightarrow> ('o \<Rightarrow> string gomap) \<Rightarrow> (string \<Rightarrow> string gomap \<Rightarrow> bool) \<Rightarrow> ('o list \<Rightarrow> 'o list) \<Rightarrow>
   ('o, 'o obj_store) obj_api" where
  "store_api nm lbl matches order =
     \<lparr>api_Create = (\<lambda>ns x h. case map_of h (ns, nm x) of
          None \<Rightarrow> (None, AList.update (ns, nm x) x h) | Some y \<Rightarrow> (Some exists_err, h)),
      api_Delete = (\<lambda>ns n h. (None, AList.delete (ns, n) h)),
      api_List = (\<lambda>ns sel h. Inr (order (map snd
          (filter (\<lambda>(k, x). k = (ns, nm x) \<and> matches sel (lbl x)) (AList.clearjunk h))))),
      api_CreateNamespace = (\<lambda>_ h. (None, h))\<rparr>"

lemma store_api_List:
  assumes "api_List (store_api nm lbl matches order) ns sel h = Inr xs" "\<And>ys. mset (order ys) = mset ys"
  shows "distinct (map nm xs) \<and> (\<forall>x. x \<in> set xs \<longleftrightarrow> map_of h (ns, nm x) = Some x \<and> matches sel (lbl x))"
proof
  let ?ys = "filter (\<lambda>(k, x). k = (ns, nm x) \<and> matches sel (lbl x)) (AList.clearjunk h)"
  have xs: "xs = order (map snd ?ys)" using assms(1) by (simp add: store_api_def)
  have keys: "map fst ?ys = map (Pair ns) (map nm (map snd ?ys))" by (auto simp: case_prod_beta)
  have "distinct (map fst ?ys)" by (simp add: distinct_map_filter)
  then have "distinct (map (Pair ns) (map nm (map snd ?ys)))" unfolding keys .
  then have dist: "distinct (map nm (map snd ?ys))" by (rule iffD1 [OF distinct_map, THEN conjunct1])
  have "mset (map nm xs) = mset (map nm (map snd ?ys))" unfolding xs mset_map assms(2) by (rule refl)
  with dist show "distinct (map nm xs)" using mset_eq_imp_distinct_iff by blast
  have set_xs: "set xs = set (map snd ?ys)" unfolding xs by (rule mset_eq_setD [OF assms(2)])
  have "x \<in> set (map snd ?ys) \<longleftrightarrow> ((ns, nm x), x) \<in> set (AList.clearjunk h) \<and> matches sel (lbl x)" for x
    by (auto intro: rev_image_eqI)
  moreover have "(k, x) \<in> set (AList.clearjunk h) \<longleftrightarrow> map_of h k = Some x" for k x
    unfolding map_of_eq_Some_iff [OF distinct_clearjunk, symmetric] map_of_clearjunk by (rule refl)
  ultimately show "\<forall>x. x \<in> set xs \<longleftrightarrow> map_of h (ns, nm x) = Some x \<and> matches sel (lbl x)"
    unfolding set_xs by simp
qed

lemma store_api_ok:
  assumes "\<And>ys. mset (order ys) = mset ys"
  shows "api_ok api_is nm lbl matches (store_api nm lbl matches order) map_of"
  unfolding api_ok_def
proof (intro conjI allI impI)
  fix ns sel h xs
  assume "api_List (store_api nm lbl matches order) ns sel h = Inr xs"
  note list = store_api_List [OF this assms]
  from list show "distinct (map nm xs)" by blast
  from list show "x \<in> set xs \<longleftrightarrow> map_of h (ns, nm x) = Some x \<and> matches sel (lbl x)" for x by blast
qed (auto simp: store_api_def delete_conv' split: option.splits)

end
