(* ===== verification/Configmaps.thy ===== *)
theory Configmaps
  imports Object_Sets "HOL-Library.List_Lexorder" "HOL-Library.Char_ord"
begin

text \<open>
  The configmap commands of \<^verbatim>\<open>runkperf\<close> (\<^verbatim>\<open>contrib/cmd/runkperf/commands/data/configmaps\<close>): a set
  of configmaps with random data is created in parallel groups, listed with its size, group
  size and number, and deleted.
\<close>

section \<open>Sets of configmaps\<close>

record gen_cm =
  gcm_Name :: string
  gcm_Labels :: "string gomap"
  gcm_Data :: "string gomap"

abbreviation appLebel :: string where
  "appLebel \<equiv> ''runkperf''"

definition checkConfigmapParams :: "int \<Rightarrow> int \<Rightarrow> int \<Rightarrow> data_error option" where
  "checkConfigmapParams sz groupSize tot =
     (if sz \<le> 0 then Some InvalidSize
      else if groupSize \<le> 0 then Some InvalidGroupSize
      else if tot \<le> 0 then Some InvalidTotal
      else if groupSize > tot then Some GroupSizeAboveTotal
      else None)"

definition letterRunes :: string where
  "letterRunes = ''abcdefghijklmnopqrstuvwxyzABCDEFGHIJKLMNOPQRSTUVWXYZ''"

text \<open>\<open>draw\<close> gives what the random source answers to each of the calls of \<^verbatim>\<open>rand.Int\<close>.\<close>

fun rand_letters :: "(nat \<Rightarrow> goerr + int) \<Rightarrow> nat \<Rightarrow> nat \<Rightarrow> data_error + string" where
  "rand_letters draw i 0 = Inr []"
| "rand_letters draw i (Suc n) =
     (case draw i of
        Inl e \<Rightarrow> Inl (RandomFailed e)
      | Inr d \<Rightarrow>
          (case rand_letters draw (Suc i) n of
             Inl e \<Rightarrow> Inl e
           | Inr b \<Rightarrow> Inr (letterRunes ! nat (the (rand_Int (int (length letterRunes)) d)) # b)))"

definition randString :: "(nat \<Rightarrow> goerr + int) \<Rightarrow> int \<Rightarrow> data_error + string" where
  "randString draw n = (if n \<le> 0 then Inl LengthNotPositive else rand_letters draw 0 (nat n))"

definition cm_name :: "string \<Rightarrow> int \<Rightarrow> string" where
  "cm_name cmName j = appLebel @ ''-cm-'' @ cmName @ ''-'' @ itoa j"

definition new_cm :: "string \<Rightarrow> int \<Rightarrow> int \<Rightarrow> string \<Rightarrow> gen_cm" where
  "new_cm cmName ownerID j d =
     \<lparr>gcm_Name = cm_name cmName j,
      gcm_Labels = [(''ownerID'', itoa ownerID), (''app'', appLebel), (''cmName'', cmName)],
      gcm_Data = [(''data'', d)]\<rparr>"

text \<open>The function that each goroutine of a group runs.\<close>

definition create_configmap ::
  "(gen_cm, 'h) obj_api \<Rightarrow> (int \<Rightarrow> nat \<Rightarrow> goerr + int) \<Rightarrow> string \<Rightarrow> string \<Rightarrow> int \<Rightarrow> int \<Rightarrow> int \<Rightarrow> 'h \<Rightarrow>
   data_error option \<times> 'h" where
  "create_configmap A draw namespace cmName sz ownerID j h =
     (case randString (draw j) sz of
        Inl e \<Rightarrow> (Some (RandomString (cm_name cmName j) e), h)
      | Inr d \<Rightarrow>
          (case api_Create A namespace (new_cm cmName ownerID j d) h of
             (None, h') \<Rightarrow> (None, h')
           | (Some e, h') \<Rightarrow> (Some (CreateObject (cm_name cmName j) e), h')))"

definition createConfigmaps ::
  "(gen_cm, 'h) obj_api \<Rightarrow> data_error errgroup \<Rightarrow> (int \<Rightarrow> nat \<Rightarrow> goerr + int) \<Rightarrow> string \<Rightarrow> string \<Rightarrow>
   int \<Rightarrow> int \<Rightarrow> int \<Rightarrow> 'h \<Rightarrow> (data_error option \<times> 'h) option" where
  "createConfigmaps A G draw namespace cmName sz groupSize tot h =
     group_loop G (create_configmap A draw namespace cmName sz) groupSize tot 0 h"

definition delete_configmap ::
  "(api_reason \<Rightarrow> goerr \<Rightarrow> bool) \<Rightarrow> (gen_cm, 'h) obj_api \<Rightarrow> string \<Rightarrow> gen_cm list \<Rightarrow> int \<Rightarrow> int \<Rightarrow> 'h \<Rightarrow>
   data_error option \<times> 'h" where
  "delete_configmap api_is A namespace items i j h =
     (let name = gcm_Name (items ! nat j)
      in case api_Delete A namespace name h of
           (None, h') \<Rightarrow> (None, h')
         | (Some e, h') \<Rightarrow>
             (if api_is IsNotFound e then (None, h') else (Some (DeleteObject name e), h')))"

definition deleteConfigmaps ::
  "(api_reason \<Rightarrow> goerr \<Rightarrow> bool) \<Rightarrow> (gen_cm, 'h) obj_api \<Rightarrow> data_error errgroup \<Rightarrow> string \<Rightarrow> string \<Rightarrow> 'h \<Rightarrow>
   (data_error option \<times> 'h) option" where
  "deleteConfigmaps api_is A G labelSelector namespace h =
     (case api_List A namespace labelSelector h of
        Inl e \<Rightarrow> Some (Some (ListObjects e), h)
      | Inr items \<Rightarrow>
          (if length items = 0 then Some (Some (NoObjects namespace), h)
           else group_loop G (delete_configmap api_is A namespace items) 300 (int (length items)) 0 h))"

text \<open>The table of sets: size, group size and number of configmaps by name of the set.\<close>

fun list_loop ::
  "gen_cm list \<Rightarrow> (int \<times> int \<times> int) gomap \<Rightarrow> data_error + (int \<times> int \<times> int) gomap" where
  "list_loop [] cmMap = Inr cmMap"
| "list_loop (cm # cms) cmMap =
     (case map_of (gcm_Labels cm) ''cmName'' of
        None \<Rightarrow> Inl (NoCmNameLabel (gcm_Name cm))
      | Some name \<Rightarrow>
          (case (case map_of cmMap name of
                   Some row \<Rightarrow> row
                 | None \<Rightarrow>
                     (case map_of (gcm_Data cm) ''data'' of
                        None \<Rightarrow> (0, 0, 0)
                      | Some d \<Rightarrow> (int (length d), 0, 0))) of
             (sz, groupSize, tot) \<Rightarrow>
               (if groupSize \<noteq> 0 then list_loop cms (AList.update name (sz, groupSize, wrap64 (tot + 1)) cmMap)
                else case map_of (gcm_Labels cm) ''ownerID'' of
                  None \<Rightarrow> Inl (NoOwnerIDLabel name)
                | Some ownerID \<Rightarrow>
                    (case atoi ownerID of
                       Inl e \<Rightarrow> Inl (OwnerIDNotInt ownerID e)
                     | Inr v \<Rightarrow>
                         list_loop cms
                           (AList.update name
                              (sz, (if v > groupSize then v else groupSize), wrap64 (tot + 1)) cmMap)))))"

definition listConfigmapsByName ::
  "(gen_cm, 'h) obj_api \<Rightarrow> string \<Rightarrow> string \<Rightarrow> 'h \<Rightarrow> data_error + (int \<times> int \<times> int) gomap" where
  "listConfigmapsByName A labelSelector namespace h =
     (case api_List A namespace labelSelector h of
        Inl e \<Rightarrow> Inl (ListObjects e)
      | Inr items \<Rightarrow> list_loop items [])"

section \<open>Commands\<close>

definition configmapAddCommand ::
  "(api_reason \<Rightarrow> goerr \<Rightarrow> bool) \<Rightarrow> (gen_cm, 'h) obj_api \<Rightarrow> data_error errgroup \<Rightarrow>
   (int \<Rightarrow> nat \<Rightarrow> goerr + int) \<Rightarrow> goerr option \<Rightarrow> Context \<Rightarrow> 'h \<Rightarrow> (data_error option \<times> 'h) option" where
  "configmapAddCommand api_is A G draw clientset c h =
     (case set_name c of
        Inl e \<Rightarrow> Some (Some e, h)
      | Inr cmName \<Rightarrow>
          (let sz = cli_Int c ''size''; groupSize = cli_Int c ''group-size''; tot = cli_Int c ''total'';
               namespace = cli_GlobalString c ''namespace''
           in case checkConfigmapParams sz groupSize tot of
                Some e \<Rightarrow> Some (Some e, h)
              | None \<Rightarrow>
                  (case clientset of
                     Some e \<Rightarrow> Some (Some (ClientsetError e), h)
                   | None \<Rightarrow>
                       (case prepareNamespace api_is A namespace h of
                          (Some e, h') \<Rightarrow> Some (Some e, h')
                        | (None, h') \<Rightarrow> createConfigmaps A G draw namespace cmName sz groupSize tot h'))))"

definition set_selector :: "string \<Rightarrow> string" where
  "set_selector cmName = ''app='' @ appLebel @ '',cmName='' @ cmName"

definition configmapDelCommand ::
  "(api_reason \<Rightarrow> goerr \<Rightarrow> bool) \<Rightarrow> (gen_cm, 'h) obj_api \<Rightarrow> data_error errgroup \<Rightarrow> goerr option \<Rightarrow>
   Context \<Rightarrow> 'h \<Rightarrow> (data_error option \<times> 'h) option" where
  "configmapDelCommand api_is A G clientset c h =
     (case set_name c of
        Inl e \<Rightarrow> Some (Some e, h)
      | Inr cmName \<Rightarrow>
          (case clientset of
             Some e \<Rightarrow> Some (Some (ClientsetError e), h)
           | None \<Rightarrow>
               deleteConfigmaps api_is A G (set_selector cmName) (cli_GlobalString c ''namespace'') h))"

definition configmapListCommand ::
  "(gen_cm, 'h) obj_api \<Rightarrow> goerr option \<Rightarrow> Context \<Rightarrow> 'h \<Rightarrow> data_error + (int \<times> int \<times> int) gomap" where
  "configmapListCommand A clientset c h =
     (case clientset of
        Some e \<Rightarrow> Inl (ClientsetError e)
      | None \<Rightarrow>
          listConfigmapsByName A
            (if cli_Args c = [] then ''app='' @ appLebel
             else ''app='' @ appLebel @ '', cmName in ('' @ str_join '','' (cli_Args c) @ '')'')
            (cli_GlobalString c ''namespace'') h)"


section \<open>Facts\<close>

lemma cm_name_inject [simp]: "cm_name s i = cm_name s j \<longleftrightarrow> i = j"
  by (simp add: cm_name_def)

lemma new_cm_fields [simp]:
  "gcm_Name (new_cm s i j d) = cm_name s j" "gcm_Data (new_cm s i j d) = [(''data'', d)]"
  "map_of (gcm_Labels (new_cm s i j d)) ''cmName'' = Some s"
  "map_of (gcm_Labels (new_cm s i j d)) ''app'' = Some appLebel"
  "map_of (gcm_Labels (new_cm s i j d)) ''ownerID'' = Some (itoa i)"
  by (simp_all add: new_cm_def)

lemma rand_letters_ok:
  "rand_letters draw i n = Inr d \<Longrightarrow> length d = n \<and> set d \<subseteq> set letterRunes"
proof (induction n arbitrary: i d)
  case (Suc n)
  then obtain x b where x: "draw i = Inr x" "rand_letters draw (Suc i) n = Inr b"
    "d = letterRunes ! nat (the (rand_Int (int (length letterRunes)) x)) # b"
    by (auto split: sum.splits)
  have "length letterRunes = 52" by (simp add: letterRunes_def)
  then have "nat (the (rand_Int (int (length letterRunes)) x)) < length letterRunes"
    by (simp add: rand_Int_def nat_less_iff)
  then show ?case using Suc.IH [OF x(2)] x(3) by simp
qed simp

lemma randString_ok: "randString draw n = Inr d \<Longrightarrow> int (length d) = n \<and> set d \<subseteq> set letterRunes"
  using rand_letters_ok [of draw 0 "nat n" d] by (auto simp: randString_def split: if_splits)

text \<open>A configmap of a set: its data are as many letters as asked for.\<close>

definition cm_of_set :: "string \<Rightarrow> int \<Rightarrow> int \<Rightarrow> int \<Rightarrow> gen_cm \<Rightarrow> bool" where
  "cm_of_set cmName sz groupSize j x \<longleftrightarrow>
     (\<exists>d. x = new_cm cmName (j div groupSize * groupSize) j d \<and> int (length d) = sz \<and> set d \<subseteq> set letterRunes)"

lemma cm_of_set_stored:
  "(\<exists>x. cm_of_set cmName sz g j x \<and> v = Some x) \<longleftrightarrow>
   (\<exists>d. v = Some (new_cm cmName (j div g * g) j d) \<and> int (length d) = sz \<and> set d \<subseteq> set letterRunes)"
  by (auto simp: cm_of_set_def)

lemma cm_of_set_name: "cm_of_set cmName sz g j x \<Longrightarrow> gcm_Name x = cm_name cmName j"
  by (auto simp: cm_of_set_def)

lemma create_configmap_ok:
  assumes "api_ok api_is gcm_Name gcm_Labels matches A st"
    and "create_configmap A draw ns cmName sz (j div g * g) j h = (None, h')"
  shows "\<exists>x. cm_of_set cmName sz g j x \<and> st h (ns, cm_name cmName j) = None \<and>
    st h' = (st h)((ns, cm_name cmName j) \<mapsto> x)"
proof -
  obtain d where d: "randString (draw j) sz = Inr d"
    "api_Create A ns (new_cm cmName (j div g * g) j d) h = (None, h')"
    using assms(2) by (auto simp: create_configmap_def split: sum.splits prod.splits option.splits)
  then have "st h (ns, cm_name cmName j) = None \<and>
      st h' = (st h)((ns, cm_name cmName j) \<mapsto> new_cm cmName (j div g * g) j d)"
    using assms(1) unfolding api_ok_def by (metis new_cm_fields(1))
  then show ?thesis using randString_ok [OF d(1)] by (auto simp: cm_of_set_def)
qed

lemma createConfigmaps_effect:
  assumes "api_ok api_is gcm_Name gcm_Labels matches A st" "errgroup_ok G" "0 < g" "tot + g < 2 ^ 63"
  shows "\<exists>res h'. createConfigmaps A G draw ns cmName sz g tot h = Some (res, h') \<and>
    (res = None \<longrightarrow>
      (\<forall>j \<in> {0..<tot}. st h (ns, cm_name cmName j) = None \<and>
         (\<exists>x. cm_of_set cmName sz g j x \<and> st h' (ns, cm_name cmName j) = Some x)) \<and>
      (\<forall>k. k \<notin> (\<lambda>j. (ns, cm_name cmName j)) ` {0..<tot} \<longrightarrow> st h' k = st h k))"
proof -
  let ?call = "create_configmap A draw ns cmName sz" and ?key = "\<lambda>(i, j). (ns, cm_name cmName j)"
  obtain res h' where loop: "group_loop G ?call g tot 0 h = Some (res, h')"
    and plan: "res = None \<longrightarrow> (\<exists>ps. run_calls (\<lambda>(i, j). ?call i j) ps h = ([], h') \<and>
       distinct (map snd ps) \<and> set ps = (\<lambda>j. (j div g * g, j)) ` {0..<tot})"
    using group_loop_plan [OF assms(2-4), of ?call 0 h] by auto
  have "(\<forall>j \<in> {0..<tot}. st h (ns, cm_name cmName j) = None \<and>
         (\<exists>x. cm_of_set cmName sz g j x \<and> st h' (ns, cm_name cmName j) = Some x)) \<and>
      (\<forall>k. k \<notin> (\<lambda>j. (ns, cm_name cmName j)) ` {0..<tot} \<longrightarrow> st h' k = st h k)" if none: "res = None"
  proof -
    obtain ps where ps: "run_calls (\<lambda>(i, j). ?call i j) ps h = ([], h')" "distinct (map snd ps)"
      "set ps = (\<lambda>j. (j div g * g, j)) ` {0..<tot}" using plan none by blast
    have "map ?key ps = map (\<lambda>j. (ns, cm_name cmName j)) (map snd ps)" by (simp add: case_prod_beta)
    then have dist: "distinct (map ?key ps)" using ps(2) by (auto simp: distinct_map inj_on_def)
    have step: "\<exists>x. (case p of (i, j) \<Rightarrow> cm_of_set cmName sz g j) x \<and> st h (?key p) = None \<and>
        st h' = (st h)(?key p \<mapsto> x)"
      if p: "p \<in> set ps" "(\<lambda>(i, j). ?call i j) p h = (None, h')" for p h h'
    proof -
      obtain j where "p = (j div g * g, j)" using p(1) ps(3) by auto
      then show ?thesis using create_configmap_ok [OF assms(1)] p(2) by simp
    qed
    have "?key ` set ps = (\<lambda>j. (ns, cm_name cmName j)) ` {0..<tot}" using ps(3) by (simp add: image_image)
    with run_calls_store [OF ps(1) dist, where P = "\<lambda>(i, j). cm_of_set cmName sz g j" and st = st, OF step]
    show ?thesis unfolding ps(3) by auto
  qed
  with loop show ?thesis by (auto simp: createConfigmaps_def)
qed

text \<open>The keys of a set of configmaps.\<close>

abbreviation set_keys :: "string \<Rightarrow> string \<Rightarrow> int \<Rightarrow> (string \<times> string) set" where
  "set_keys ns cmName tot \<equiv> (\<lambda>j. (ns, cm_name cmName j)) ` {0..<tot}"

text \<open>
  C25: creating a set of configmaps ends, and without an error the cluster has exactly the
  configmaps that were asked for in addition: for every index below the total one of the given size, made of
  letters, labelled with the set and with the first index of its group of the given size. None of them was there
  before, and every other configmap is as it was. The order in which the parallel calls
  reach the API server does not matter.
\<close>

theorem create_configmaps_exact:
  assumes "api_ok api_is gcm_Name gcm_Labels matches A st" "errgroup_ok G"
    and "checkConfigmapParams sz groupSize tot = None" "tot + groupSize < 2 ^ 63"
  shows "\<exists>res h'. createConfigmaps A G draw ns cmName sz groupSize tot h = Some (res, h') \<and>
    (res = None \<longrightarrow>
      (\<forall>j \<in> {0..<tot}. st h (ns, cm_name cmName j) = None \<and>
         (\<exists>d. st h' (ns, cm_name cmName j) = Some (new_cm cmName (j div groupSize * groupSize) j d) \<and>
            int (length d) = sz \<and> set d \<subseteq> set letterRunes)) \<and>
      (\<forall>k. k \<notin> set_keys ns cmName tot \<longrightarrow> st h' k = st h k))"
proof -
  have "0 < groupSize" using assms(3) by (auto simp: checkConfigmapParams_def split: if_splits)
  from createConfigmaps_effect [OF assms(1,2) this assms(4)] show ?thesis
    unfolding cm_of_set_stored .
qed


section \<open>Listing and deleting a set\<close>

lemma delete_configmap_ok:
  assumes "api_ok api_is gcm_Name gcm_Labels matches A st"
    and "delete_configmap api_is A ns items i j h = (None, h')"
  shows "st h' = (st h)((ns, gcm_Name (items ! nat j)) := None)"
proof (cases "api_Delete A ns (gcm_Name (items ! nat j)) h")
  case (Pair r h1)
  show ?thesis
  proof (cases r)
    case None
    then show ?thesis
      using assms Pair unfolding api_ok_def by (auto simp: delete_configmap_def)
  next
    case (Some e)
    then have "api_is IsNotFound e" "h1 = h'"
      using assms(2) Pair by (auto simp: delete_configmap_def split: if_splits)
    then have "st h (ns, gcm_Name (items ! nat j)) = None \<and> st h' = st h"
      using assms(1) Pair Some unfolding api_ok_def by blast
    then show ?thesis by (simp add: fun_upd_idem)
  qed
qed

lemma set_conv_nth_int: "set xs = (\<lambda>j. xs ! nat j) ` {0..<int (length xs)}"
proof -
  have "(\<lambda>j. xs ! nat j) ` {0..<int (length xs)} = (\<lambda>j. xs ! nat j) ` int ` {0..<length xs}"
    by (simp add: image_int_atLeastLessThan)
  also have "\<dots> = (!) xs ` {0..<length xs}" unfolding image_image by simp
  also have "\<dots> = set xs" by (metis list.set_map map_nth set_upt)
  finally show ?thesis by simp
qed

text \<open>Deleting ends; without an error exactly the listed configmaps are gone.\<close>

lemma deleteConfigmaps_effect:
  assumes "api_ok api_is gcm_Name gcm_Labels matches A st" "errgroup_ok G"
    and "api_List A ns sel h = Inr items" "int (length items) + 300 < 2 ^ 63"
  shows "\<exists>res h'. deleteConfigmaps api_is A G sel ns h = Some (res, h') \<and>
    (res = None \<longrightarrow> st h' = (\<lambda>k. if k \<in> (\<lambda>x. (ns, gcm_Name x)) ` set items then None else st h k))"
proof (cases "items = []")
  case False
  let ?n = "int (length items)" and ?call = "delete_configmap api_is A ns items"
  let ?key = "\<lambda>(i :: int, j). (ns, gcm_Name (items ! nat j))"
  have b: "0 < (300 :: int)" by simp
  obtain res h' where loop: "group_loop G ?call 300 ?n 0 h = Some (res, h')"
    and plan: "res = None \<longrightarrow> (\<exists>ps. run_calls (\<lambda>(i, j). ?call i j) ps h = ([], h') \<and>
       distinct (map snd ps) \<and> set ps = (\<lambda>j. (j div 300 * 300, j)) ` {0..<?n})"
    using group_loop_plan [OF assms(2) b assms(4), of ?call 0 h] by auto
  have "st h' = (\<lambda>k. if k \<in> (\<lambda>x. (ns, gcm_Name x)) ` set items then None else st h k)"
    if none: "res = None"
  proof -
    obtain ps where ps: "run_calls (\<lambda>(i, j). ?call i j) ps h = ([], h')"
      "set ps = (\<lambda>j. (j div 300 * 300, j)) ` {0..<?n}" using plan none by blast
    have step: "st h' = (st h)(?key p := None)"
      if "p \<in> set ps" "(\<lambda>(i, j). ?call i j) p h = (None, h')" for p h h'
      using that(2) delete_configmap_ok [OF assms(1)] by (auto split: prod.splits)
    have "set items = (\<lambda>j. items ! nat j) ` {0..<?n}" by (rule set_conv_nth_int)
    then have "?key ` set ps = (\<lambda>x. (ns, gcm_Name x)) ` set items"
      unfolding ps(2) by (simp add: image_image)
    with run_calls_remove [OF ps(1), where st = st, OF step] show ?thesis by simp
  qed
  with loop False show ?thesis by (auto simp: deleteConfigmaps_def assms(3))
qed (simp add: deleteConfigmaps_def assms(3))

text \<open>The members of a set as the list of its selector has them, in some order of the indices.\<close>

lemma listed_set:
  assumes "api_ok api_is gcm_Name gcm_Labels matches A st"
    and "selects matches sel [(''app'', appLebel), (''cmName'', cmName)]"
    and "\<forall>n x. st h0 (ns, n) = Some x \<longrightarrow> \<not> matches sel (gcm_Labels x)"
    and "\<forall>j \<in> {0..<tot}. \<exists>x. cm_of_set cmName sz g j x \<and> st h (ns, cm_name cmName j) = Some x"
    and "\<forall>k. k \<notin> set_keys ns cmName tot \<longrightarrow> st h k = st h0 k"
    and "api_List A ns sel h = Inr items"
  shows "\<exists>js. distinct js \<and> set js = {0..<tot} \<and> list_all2 (cm_of_set cmName sz g) js items"
proof -
  have items: "distinct (map gcm_Name items)"
    "\<And>x. x \<in> set items \<longleftrightarrow> st h (ns, gcm_Name x) = Some x \<and> matches sel (gcm_Labels x)"
    using assms(1,6) unfolding api_ok_def by blast+
  have sel: "matches sel (gcm_Labels x)" if "cm_of_set cmName sz g j x" for j x
    using assms(2) that by (auto simp: selects_def cm_of_set_def)
  have "\<exists>j. j \<in> {0..<tot} \<and> cm_of_set cmName sz g j x" if x: "x \<in> set items" for x
  proof -
    have "(ns, gcm_Name x) \<in> set_keys ns cmName tot"
      using items(2) [of x] assms(3,5) x by metis
    then obtain j where j: "j \<in> {0..<tot}" "gcm_Name x = cm_name cmName j" by auto
    moreover have "cm_of_set cmName sz g j x" using assms(4) j items(2) [of x] x by force
    ultimately show ?thesis by blast
  qed
  then obtain f where f: "\<And>x. x \<in> set items \<Longrightarrow> f x \<in> {0..<tot} \<and> cm_of_set cmName sz g (f x) x"
    by metis
  have name: "gcm_Name x = cm_name cmName (f x)" if "x \<in> set items" for x
    using f [OF that] cm_of_set_name by blast
  have "map gcm_Name items = map (cm_name cmName) (map f items)" using name by simp
  then have "distinct (map f items)" using items(1) by (metis distinct_map)
  moreover have "set (map f items) = {0..<tot}"
  proof
    show "{0..<tot} \<subseteq> set (map f items)"
    proof
      fix j assume j: "j \<in> {0..<tot}"
      then obtain x where x: "cm_of_set cmName sz g j x" "st h (ns, cm_name cmName j) = Some x"
        using assms(4) by blast
      then have nm: "gcm_Name x = cm_name cmName j" by (auto simp: cm_of_set_def)
      then have "x \<in> set items" using items(2) sel x by simp
      with name nm show "j \<in> set (map f items)" by (metis cm_name_inject image_eqI set_map)
    qed
  qed (use f in auto)
  moreover have "list_all2 (cm_of_set cmName sz g) (map f items) items"
    using f by (simp add: list_all2_conv_all_nth)
  ultimately show ?thesis by blast
qed

lemma listed_names:
  "list_all2 (cm_of_set cmName sz g) js items \<Longrightarrow> map gcm_Name items = map (cm_name cmName) js"
  by (induction rule: list_all2_induct) (simp_all add: cm_of_set_name)

text \<open>The group size that the table shows: the label of the first listed member outside of the first
  group.\<close>

definition shown_group :: "int \<Rightarrow> int list \<Rightarrow> int" where
  "shown_group g js = (case filter (\<lambda>j. g \<le> j) js of [] \<Rightarrow> 0 | j # _ \<Rightarrow> j div g * g)"

lemma group_start:
  assumes "0 < g" "0 \<le> j" "j < 2 ^ 63"
  shows "is_int64 (j div g * g)" "0 < j div g * g \<longleftrightarrow> g \<le> j" "0 \<le> j div g * g"
proof -
  have m: "j div g * g + j mod g = j" "0 \<le> j mod g" "j mod g < g" using assms by simp_all
  show nonneg: "0 \<le> j div g * g" using assms by (simp add: pos_imp_zdiv_nonneg_iff)
  show "is_int64 (j div g * g)" unfolding is_int64_def using m nonneg assms(3) by linarith
  show "0 < j div g * g \<longleftrightarrow> g \<le> j"
  proof
    assume "0 < j div g * g"
    then have "1 \<le> j div g" using assms(1) by (simp add: zero_less_mult_iff)
    then have "1 * g \<le> j div g * g" using assms(1) by (intro mult_right_mono) auto
    then show "g \<le> j" using m by linarith
  qed (use m in linarith)
qed

lemma list_loop_set:
  assumes "list_all2 (cm_of_set cmName sz g) js items" "0 < g" "\<forall>j \<in> set js. 0 \<le> j \<and> j < 2 ^ 63"
    and "0 \<le> n" "n + int (length js) < 2 ^ 63" "0 \<le> gs"
  shows "list_loop items [(cmName, (sz, gs, n))] =
    Inr [(cmName, (sz, (if gs = 0 then shown_group g js else gs), n + int (length js)))]"
  using assms
proof (induction arbitrary: n gs rule: list_all2_induct)
  case (Cons j js x xs)
  obtain d where x: "x = new_cm cmName (j div g * g) j d" using Cons.hyps(1) by (auto simp: cm_of_set_def)
  have j: "0 \<le> j" "j < 2 ^ 63" using Cons.prems(2) by simp_all
  note st = group_start [OF Cons.prems(1) j]
  have n: "wrap64 (n + 1) = n + 1" using Cons.prems(3,4) unfolding length_Cons by (intro wrap64_id) (simp add: is_int64_def)
  have at: "atoi (itoa (j div g * g)) = Inr (j div g * g)" using st(1) by (rule atoi_itoa)
  have IH: "list_loop xs [(cmName, (sz, gs', n + 1))] =
      Inr [(cmName, (sz, (if gs' = 0 then shown_group g js else gs'), n + 1 + int (length js)))]"
    if "0 \<le> gs'" for gs'
    using Cons.IH [OF Cons.prems(1) _ _ _ that] Cons.prems(2-4) by simp
  show ?case
  proof (cases "gs = 0")
    case True
    have "shown_group g (j # js) = (if g \<le> j then j div g * g else shown_group g js)"
      by (simp add: shown_group_def)
    then show ?thesis using True IH [of "j div g * g"] IH [of 0] st at n by (auto simp: x)
  next
    case False
    then show ?thesis using IH [OF Cons.prems(5)] n by (simp add: x)
  qed
qed (simp add: shown_group_def)

lemma listed_rows:
  assumes "list_all2 (cm_of_set cmName sz g) js items" "0 < g" "distinct js" "set js = {0..<tot}"
    and "0 < tot" "tot < 2 ^ 63"
  shows "list_loop items [] = Inr [(cmName, (sz, shown_group g js, tot))]"
proof -
  have len: "int (length js) = tot"
    using distinct_card [OF assms(3)] assms(4,5) by simp
  then obtain j js' where js: "js = j # js'" using assms(5) by (cases js) auto
  then obtain x xs where xs: "items = x # xs" "cm_of_set cmName sz g j x"
    using assms(1) by (auto simp: list_all2_Cons1)
  then have "list_loop items [] = list_loop items [(cmName, (sz, 0, 0))]"
    by (auto simp: cm_of_set_def split: sum.split)
  also have "\<dots> = Inr [(cmName, (sz, shown_group g js, tot))]"
    using list_loop_set [OF assms(1,2), of 0 0] assms(4-6) len by simp
  finally show ?thesis .
qed

text \<open>
  C27: the list of a freshly created set shows its size and its number of configmaps. The
  group size that it shows is the label of the first listed configmap outside of the first
  group: it is the real one when that configmap belongs to the second group, and 0 when there is only one group. The
  API server lists in the order of names, where 10 comes before 2.
\<close>

theorem list_of_created_set:
  assumes "api_ok api_is gcm_Name gcm_Labels matches A st" "errgroup_ok G"
    and "checkConfigmapParams sz groupSize tot = None" "tot + groupSize < 2 ^ 63"
    and "selects matches sel [(''app'', appLebel), (''cmName'', cmName)]"
    and "\<forall>n x. st h (ns, n) = Some x \<longrightarrow> \<not> matches sel (gcm_Labels x)"
    and "createConfigmaps A G draw ns cmName sz groupSize tot h = Some (None, h')"
    and "api_List A ns sel h' = Inr items"
  shows "\<exists>js. distinct js \<and> set js = {0..<tot} \<and> map gcm_Name items = map (cm_name cmName) js \<and>
    listConfigmapsByName A sel ns h' = Inr [(cmName, (sz, shown_group groupSize js, tot))]"
proof -
  have pos: "0 < groupSize" "0 < tot"
    using assms(3) by (auto simp: checkConfigmapParams_def split: if_splits)
  have new: "\<forall>j \<in> {0..<tot}. \<exists>x. cm_of_set cmName sz groupSize j x \<and> st h' (ns, cm_name cmName j) = Some x"
    "\<forall>k. k \<notin> set_keys ns cmName tot \<longrightarrow> st h' k = st h k"
    using createConfigmaps_effect [OF assms(1,2) pos(1) assms(4), of draw ns cmName sz h] assms(7) by auto
  obtain js where js: "distinct js" "set js = {0..<tot}" "list_all2 (cm_of_set cmName sz groupSize) js items"
    using listed_set [OF assms(1,5,6) new assms(8)] by blast
  have "tot < 2 ^ 63" using assms(4) pos(1) by linarith
  then have "listConfigmapsByName A sel ns h' = Inr [(cmName, (sz, shown_group groupSize js, tot))]"
    using listed_rows [OF js(3) pos(1) js(1,2) pos(2)] assms(8) by (simp add: listConfigmapsByName_def)
  moreover have "map gcm_Name items = map (cm_name cmName) js"
    using js(3) by (rule listed_names)
  ultimately show ?thesis using js(1,2) by blast
qed

text \<open>
  C26: deleting a set undoes creating it. When both commands succeed, the stored configmaps are
  those of before.
\<close>

theorem create_delete_roundtrip:
  assumes "api_ok api_is gcm_Name gcm_Labels matches A st" "errgroup_ok G"
    and "checkConfigmapParams sz groupSize tot = None" "tot + groupSize < 2 ^ 63" "tot + 300 < 2 ^ 63"
    and "selects matches (set_selector cmName) [(''app'', appLebel), (''cmName'', cmName)]"
    and "\<forall>n x. st h (ns, n) = Some x \<longrightarrow> \<not> matches (set_selector cmName) (gcm_Labels x)"
    and "createConfigmaps A G draw ns cmName sz groupSize tot h = Some (None, h1)"
    and "deleteConfigmaps api_is A G (set_selector cmName) ns h1 = Some (None, h2)"
  shows "st h2 = st h"
proof -
  have pos: "0 < groupSize" "0 < tot"
    using assms(3) by (auto simp: checkConfigmapParams_def split: if_splits)
  have new: "\<forall>j \<in> {0..<tot}. \<exists>x. cm_of_set cmName sz groupSize j x \<and> st h1 (ns, cm_name cmName j) = Some x"
    "\<forall>k. k \<notin> set_keys ns cmName tot \<longrightarrow> st h1 k = st h k"
    "\<forall>j \<in> {0..<tot}. st h (ns, cm_name cmName j) = None"
    using createConfigmaps_effect [OF assms(1,2) pos(1) assms(4), of draw ns cmName sz h] assms(8) by auto
  obtain items where items: "api_List A ns (set_selector cmName) h1 = Inr items"
    using assms(9) by (auto simp: deleteConfigmaps_def split: sum.splits)
  obtain js where js: "distinct js" "set js = {0..<tot}" "list_all2 (cm_of_set cmName sz groupSize) js items"
    using listed_set [OF assms(1,6,7) new(1,2) items] by blast
  have names: "map gcm_Name items = map (cm_name cmName) js"
    using js(3) by (rule listed_names)
  have "int (length items) = tot"
    using distinct_card [OF js(1)] js(2,3) pos(2) by (simp add: list_all2_lengthD)
  then have "st h2 = (\<lambda>k. if k \<in> (\<lambda>x. (ns, gcm_Name x)) ` set items then None else st h1 k)"
    using deleteConfigmaps_effect [OF assms(1,2) items] assms(5,9) by auto
  moreover have "(\<lambda>x. (ns, gcm_Name x)) ` set items = Pair ns ` set (map gcm_Name items)" by auto
  then have "(\<lambda>x. (ns, gcm_Name x)) ` set items = set_keys ns cmName tot"
    unfolding names using js(2) by auto
  ultimately show ?thesis using new(2,3) by (auto simp: fun_eq_iff)
qed

section \<open>A sample API server\<close>

text \<open>It lists the configmaps in the order of their names.\<close>

type_synonym cm_store = "gen_cm obj_store"

definition sample_matches :: "string \<Rightarrow> string gomap \<Rightarrow> bool" where
  "sample_matches sel ls \<longleftrightarrow>
     list_all (\<lambda>(k, v). map_of ls k = Some v) [(''app'', appLebel), (''cmName'', ''s'')]"

definition sample_cm_api :: "(gen_cm, cm_store) obj_api" where
  "sample_cm_api = store_api gcm_Name gcm_Labels sample_matches (sort_key gcm_Name)"

definition sample_group_order :: "data_error errgroup" where
  "sample_group_order = \<lparr>eg_order = (\<lambda>_. rev), eg_Wait = (\<lambda>es. case es of [] \<Rightarrow> None | e # _ \<Rightarrow> Some e)\<rparr>"

lemma sample_cm_api_ok: "api_ok api_is gcm_Name gcm_Labels sample_matches sample_cm_api map_of"
  unfolding sample_cm_api_def by (rule store_api_ok) simp

lemma sample_group_order_ok: "errgroup_ok sample_group_order"
  by (auto simp: errgroup_ok_def sample_group_order_def split: list.splits)

lemma sample_selects: "selects sample_matches sel [(''app'', appLebel), (''cmName'', ''s'')]"
  by (simp add: selects_def sample_matches_def)

theorem create_configmaps_exact_witness:
  "\<exists>h'. createConfigmaps sample_cm_api sample_group_order (\<lambda>j i. Inr j) ''ns'' ''s'' 4 2 3 [] = Some (None, h') \<and>
     (\<exists>d. map_of h' (''ns'', cm_name ''s'' 2) = Some (new_cm ''s'' 2 2 d) \<and> int (length d) = 4)"
proof -
  let ?run = "createConfigmaps sample_cm_api sample_group_order (\<lambda>j i. Inr j) ''ns'' ''s'' 4 2 3 []"
  have "case ?run of Some (None, h') \<Rightarrow> True | _ \<Rightarrow> False" by code_simp
  then obtain h' where run: "?run = Some (None, h')" by (auto split: option.splits)
  have "checkConfigmapParams 4 2 3 = None" "(3 :: int) + 2 < 2 ^ 63" by (simp_all add: checkConfigmapParams_def)
  from create_configmaps_exact [OF sample_cm_api_ok sample_group_order_ok this, of "\<lambda>j i. Inr j" "''ns''" "''s''" "[]"]
  have "\<forall>j \<in> {0..<3}. \<exists>d. map_of h' (''ns'', cm_name ''s'' j) = Some (new_cm ''s'' (j div 2 * 2) j d) \<and>
      int (length d) = 4" unfolding run by blast
  then have "\<exists>d. map_of h' (''ns'', cm_name ''s'' 2) = Some (new_cm ''s'' (2 div 2 * 2) 2 d) \<and> int (length d) = 4"
    by (rule bspec) simp
  with run show ?thesis by simp
qed

text \<open>Eleven configmaps in groups of two, listed by name: the table says groups of ten.\<close>

theorem list_of_created_set_witness:
  "\<exists>h' js. createConfigmaps sample_cm_api sample_group_order (\<lambda>j i. Inr j) ''ns'' ''s'' 1 2 11 [] = Some (None, h') \<and>
     set js = {0..<11} \<and> shown_group 2 js = 10 \<and>
     listConfigmapsByName sample_cm_api (set_selector ''s'') ''ns'' h' = Inr [(''s'', (1, 10, 11))]"
proof -
  let ?run = "createConfigmaps sample_cm_api sample_group_order (\<lambda>j i. Inr j) ''ns'' ''s'' 1 2 11 []"
  have "case ?run of Some (None, h') \<Rightarrow>
      listConfigmapsByName sample_cm_api (set_selector ''s'') ''ns'' h' = Inr [(''s'', (1, 10, 11))]
    | _ \<Rightarrow> False" by code_simp
  then obtain h' where run: "?run = Some (None, h')"
    and rows: "listConfigmapsByName sample_cm_api (set_selector ''s'') ''ns'' h' = Inr [(''s'', (1, 10, 11))]"
    by (auto split: option.splits)
  obtain items where items: "api_List sample_cm_api ''ns'' (set_selector ''s'') h' = Inr items"
    by (simp add: sample_cm_api_def store_api_def)
  have "checkConfigmapParams 1 2 11 = None" "(11 :: int) + 2 < 2 ^ 63" by (simp_all add: checkConfigmapParams_def)
  from list_of_created_set [OF sample_cm_api_ok sample_group_order_ok this sample_selects _ run items] rows
  obtain js where "set js = {0..<11}" "shown_group 2 js = 10" by auto
  with run rows show ?thesis by blast
qed

theorem create_delete_roundtrip_witness:
  "\<exists>h1 h2. createConfigmaps sample_cm_api sample_group_order (\<lambda>j i. Inr j) ''ns'' ''s'' 1 2 3 [] = Some (None, h1) \<and>
     deleteConfigmaps (\<lambda>_ _. False) sample_cm_api sample_group_order (set_selector ''s'') ''ns'' h1 = Some (None, h2) \<and>
     map_of h2 = Map.empty"
proof -
  let ?run = "createConfigmaps sample_cm_api sample_group_order (\<lambda>j i. Inr j) ''ns'' ''s'' 1 2 3 []"
  let ?del = "deleteConfigmaps (\<lambda>_ _. False) sample_cm_api sample_group_order (set_selector ''s'') ''ns''"
  have "case ?run of Some (None, h1) \<Rightarrow> (case ?del h1 of Some (None, h2) \<Rightarrow> True | _ \<Rightarrow> False) | _ \<Rightarrow> False"
    by code_simp
  then obtain h1 h2 where run: "?run = Some (None, h1)" and del: "?del h1 = Some (None, h2)"
    unfolding case_ok by blast
  have "checkConfigmapParams 1 2 3 = None" "(3 :: int) + 2 < 2 ^ 63" "(3 :: int) + 300 < 2 ^ 63"
    by (simp_all add: checkConfigmapParams_def)
  from create_delete_roundtrip [OF sample_cm_api_ok sample_group_order_ok this sample_selects _ run del] run del
  show ?thesis by auto
qed

end
