(* ===== verification/Daemonsets.thy ===== *)
theory Daemonsets
  imports Object_Sets
begin

text \<open>
  The daemonset commands of \<^verbatim>\<open>runkperf\<close> (\<^verbatim>\<open>contrib/cmd/runkperf/commands/data/daemonsets\<close>): daemonsets
  for the virtual nodes are created one after the other, counted by the prefix of their
  names, and deleted.
\<close>

section \<open>Operations\<close>

abbreviation appLabel :: string where
  "appLabel \<equiv> ''fake-daemonset''"

text \<open>The pod template: the affinity and the toleration that keep it on virtual nodes, and the container.\<close>

record fake_pod =
  fp_RestartPolicy :: string
  fp_NodeAffinity :: "(string \<times> string \<times> string list) list"
  fp_Tolerations :: "(string \<times> string \<times> string) list"
  fp_Containers :: "(string \<times> string) list"

record DaemonSet =
  ds_Name :: string
  ds_Namespace :: string
  ds_Labels :: "string gomap"
  ds_MatchLabels :: "string gomap"
  ds_PodLabels :: "string gomap"
  ds_PodSpec :: fake_pod

definition fakePodSpec :: fake_pod where
  "fakePodSpec =
     \<lparr>fp_RestartPolicy = ''Always'',
      fp_NodeAffinity = [(''type'', ''In'', [''kperf-virtualnodes''])],
      fp_Tolerations = [(''kperf.io/nodepool'', ''Exists'', ''NoSchedule'')],
      fp_Containers = [(''fake-container'', ''fake-image'')]\<rparr>"

definition ds_labels :: "string \<Rightarrow> int \<Rightarrow> string gomap" where
  "ds_labels dsName i = [(''app'', appLabel), (''dsName'', dsName), (''idx'', itoa i)]"

definition ds_name :: "string \<Rightarrow> int \<Rightarrow> string" where
  "ds_name dsName i = dsName @ ''-'' @ itoa i"

definition new_ds :: "string \<Rightarrow> string \<Rightarrow> int \<Rightarrow> DaemonSet" where
  "new_ds namespace dsName i =
     \<lparr>ds_Name = ds_name dsName i, ds_Namespace = namespace, ds_Labels = ds_labels dsName i,
      ds_MatchLabels = ds_labels dsName i, ds_PodLabels = ds_labels dsName i,
      ds_PodSpec = fakePodSpec\<rparr>"

text \<open>The loop returns with the first error of the API.\<close>

fun create_ds_loop ::
  "(DaemonSet, 'h) obj_api \<Rightarrow> string \<Rightarrow> string \<Rightarrow> int list \<Rightarrow> 'h \<Rightarrow> goerr option \<times> 'h" where
  "create_ds_loop A namespace dsName [] h = (None, h)"
| "create_ds_loop A namespace dsName (i # is) h =
     (case api_Create A namespace (new_ds namespace dsName i) h of
        (Some e, h') \<Rightarrow> (Some e, h')
      | (None, h') \<Rightarrow> create_ds_loop A namespace dsName is h')"

definition createDaemonsets ::
  "(DaemonSet, 'h) obj_api \<Rightarrow> string \<Rightarrow> string \<Rightarrow> int \<Rightarrow> 'h \<Rightarrow> goerr option \<times> 'h" where
  "createDaemonsets A namespace dsName cnt h = create_ds_loop A namespace dsName [0..cnt - 1] h"

fun delete_ds_loop ::
  "(api_reason \<Rightarrow> goerr \<Rightarrow> bool) \<Rightarrow> (DaemonSet, 'h) obj_api \<Rightarrow> string \<Rightarrow> DaemonSet list \<Rightarrow> 'h \<Rightarrow>
   data_error option \<times> 'h" where
  "delete_ds_loop api_is A namespace [] h = (None, h)"
| "delete_ds_loop api_is A namespace (d # ds) h =
     (case api_Delete A namespace (ds_Name d) h of
        (None, h') \<Rightarrow> delete_ds_loop api_is A namespace ds h'
      | (Some e, h') \<Rightarrow>
          (if api_is IsNotFound e then delete_ds_loop api_is A namespace ds h'
           else (Some (DeleteObject (ds_Name d) e), h')))"

definition names_selector :: "string list \<Rightarrow> string" where
  "names_selector names = ''app='' @ appLabel @ '', dsName in ('' @ str_join '','' names @ '')''"

definition deleteDaemonsets ::
  "(api_reason \<Rightarrow> goerr \<Rightarrow> bool) \<Rightarrow> (DaemonSet, 'h) obj_api \<Rightarrow> string \<Rightarrow> string \<Rightarrow> 'h \<Rightarrow>
   data_error option \<times> 'h" where
  "deleteDaemonsets api_is A namespace dsName h =
     (case api_List A namespace (names_selector [dsName]) h of
        Inl e \<Rightarrow> (Some (ListObjects e), h)
      | Inr items \<Rightarrow>
          (if length items = 0 then (Some (NoObjects namespace), h)
           else delete_ds_loop api_is A namespace items h))"

text \<open>The group of a match of \<^verbatim>\<open>^(.*)-\d+$\<close>: the digits at the end cannot contain the minus sign, so
  the match is unique; the dot does not match a newline.\<close>

definition ds_match :: "string \<Rightarrow> string option" where
  "ds_match name =
     (case dropWhile is_digit (rev name) of
        [] \<Rightarrow> None
      | c # p \<Rightarrow>
          (if c = CHR ''-'' \<and> takeWhile is_digit (rev name) \<noteq> [] \<and> CHR 10 \<notin> set p
           then Some (rev p) else None))"

fun count_names :: "int gomap \<Rightarrow> DaemonSet list \<Rightarrow> int gomap" where
  "count_names dsNames [] = dsNames"
| "count_names dsNames (d # ds) =
     (let name = (case ds_match (ds_Name d) of Some p \<Rightarrow> p | None \<Rightarrow> ds_Name d)
      in count_names (AList.update name (wrap64 (gomap_get 0 dsNames name + 1)) dsNames) ds)"

section \<open>Commands\<close>

definition daemonsetAddCommand ::
  "(api_reason \<Rightarrow> goerr \<Rightarrow> bool) \<Rightarrow> (DaemonSet, 'h) obj_api \<Rightarrow> goerr option \<Rightarrow> goerr option \<Rightarrow> Context \<Rightarrow>
   'h \<Rightarrow> data_error option \<times> 'h" where
  "daemonsetAddCommand api_is A nsClientset clientset c h =
     (case set_name c of
        Inl e \<Rightarrow> (Some e, h)
      | Inr dsName \<Rightarrow>
          (let namespace = cli_GlobalString c ''namespace''; cnt = cli_Int c ''count''
           in if cnt \<le> 0 then (Some InvalidCount, h)
              else case (if namespace \<noteq> '''' \<and> namespace \<noteq> ''default'' \<and> nsClientset \<noteq> None
                         then (map_option ClientsetError nsClientset, h)
                         else prepareNamespace api_is A namespace h) of
                (Some e, h') \<Rightarrow> (Some e, h')
              | (None, h') \<Rightarrow>
                  (case clientset of
                     Some e \<Rightarrow> (Some (ClientsetError e), h')
                   | None \<Rightarrow>
                       (case createDaemonsets A namespace dsName cnt h' of
                          (err, h2) \<Rightarrow> (map_option ApiFailure err, h2)))))"

definition daemonsetDelCommand ::
  "(api_reason \<Rightarrow> goerr \<Rightarrow> bool) \<Rightarrow> (DaemonSet, 'h) obj_api \<Rightarrow> goerr option \<Rightarrow> Context \<Rightarrow> 'h \<Rightarrow>
   data_error option \<times> 'h" where
  "daemonsetDelCommand api_is A clientset c h =
     (case set_name c of
        Inl e \<Rightarrow> (Some e, h)
      | Inr dsName \<Rightarrow>
          (case clientset of
             Some e \<Rightarrow> (Some (ClientsetError e), h)
           | None \<Rightarrow> deleteDaemonsets api_is A (cli_GlobalString c ''namespace'') dsName h))"

definition daemonsetListCommand ::
  "(DaemonSet, 'h) obj_api \<Rightarrow> goerr option \<Rightarrow> Context \<Rightarrow> 'h \<Rightarrow> data_error + int gomap" where
  "daemonsetListCommand A clientset c h =
     (case clientset of
        Some e \<Rightarrow> Inl (ClientsetError e)
      | None \<Rightarrow>
          (case api_List A (cli_GlobalString c ''namespace'')
                  (if cli_Args c = [] then ''app='' @ appLabel else names_selector (cli_Args c)) h of
             Inl e \<Rightarrow> Inl (ListObjects e)
           | Inr items \<Rightarrow> Inr (count_names [] items)))"

section \<open>Facts\<close>

lemma itoa_digits: "0 \<le> i \<Longrightarrow> list_all is_digit (itoa i)"
  by (simp add: itoa_def nat_digits_is_digit)

lemma ds_match_name [simp]:
  assumes "0 \<le> i" "CHR 10 \<notin> set n"
  shows "ds_match (ds_name n i) = Some n"
proof -
  have dig: "\<forall>c \<in> set (rev (itoa i)). is_digit c" using itoa_digits [OF assms(1)] by (simp add: list_all_iff)
  have rev: "rev (ds_name n i) = rev (itoa i) @ CHR ''-'' # rev n" by (simp add: ds_name_def)
  have "dropWhile is_digit (rev (ds_name n i)) = CHR ''-'' # rev n"
    using dig unfolding rev by (subst dropWhile_append2) auto
  moreover have "takeWhile is_digit (rev (ds_name n i)) = rev (itoa i)"
    using dig unfolding rev by (subst takeWhile_append2) auto
  ultimately show ?thesis using assms(2) by (simp add: ds_match_def)
qed

lemma ds_name_inject [simp]: "ds_name n i = ds_name n j \<longleftrightarrow> i = j"
  by (simp add: ds_name_def)

lemma create_ds_loop_ok:
  "create_ds_loop A ns n is h = (None, h') \<Longrightarrow>
   run_calls (\<lambda>i. api_Create A ns (new_ds ns n i)) is h = ([], h')"
  by (induction "is" arbitrary: h) (auto split: prod.splits option.splits)

lemma delete_ds_loop_ok:
  assumes "api_ok api_is ds_Name ds_Labels matches A st"
  shows "delete_ds_loop api_is A ns ds h = (None, h') \<Longrightarrow>
    st h' = (\<lambda>k. if k \<in> (\<lambda>d. (ns, ds_Name d)) ` set ds then None else st h k)"
proof (induction ds arbitrary: h)
  case (Cons d ds)
  obtain r h1 where del: "api_Delete A ns (ds_Name d) h = (r, h1)" by fastforce
  have rest: "delete_ds_loop api_is A ns ds h1 = (None, h')" and nf: "\<And>e. r = Some e \<Longrightarrow> api_is IsNotFound e"
    using Cons.prems del by (auto split: option.splits if_splits)
  have "st h1 = (st h)((ns, ds_Name d) := None)"
  proof (cases r)
    case (Some e)
    then have "st h (ns, ds_Name d) = None \<and> st h1 = st h"
      using assms del nf unfolding api_ok_def by blast
    then show ?thesis by (simp add: fun_upd_idem)
  qed (use assms del in \<open>unfold api_ok_def, blast\<close>)
  with Cons.IH [OF rest] show ?case by (auto simp: fun_eq_iff)
qed simp

lemma count_names_same:
  assumes "\<forall>d \<in> set ds. ds_match (ds_Name d) = Some n" "0 \<le> k" "k + int (length ds) < 2 ^ 63"
  shows "count_names [(n, k)] ds = [(n, k + int (length ds))]"
  using assms
proof (induction ds arbitrary: k)
  case (Cons d ds)
  have "wrap64 (k + 1) = k + 1"
    using Cons.prems(2,3) by (intro wrap64_id) (simp add: is_int64_def)
  then show ?case using Cons by (simp add: gomap_get_def)
qed simp

lemma count_names_all:
  assumes "\<forall>d \<in> set ds. ds_match (ds_Name d) = Some n" "ds \<noteq> []" "int (length ds) < 2 ^ 63"
  shows "count_names [] ds = [(n, int (length ds))]"
proof -
  obtain d ds' where ds: "ds = d # ds'" using assms(2) by (cases ds) auto
  then have "count_names [] ds = count_names [(n, 0)] ds" using assms(1) by (simp add: gomap_get_def)
  with count_names_same [OF assms(1), of 0] assms(3) show ?thesis by simp
qed

text \<open>The daemonsets that a list selects after they were created.\<close>

lemma created_daemonsets:
  assumes "api_ok api_is ds_Name ds_Labels matches A st"
    and "selects matches sel [(''app'', appLabel), (''dsName'', dsName)]"
    and "\<forall>n x. st h (ns, n) = Some x \<longrightarrow> \<not> matches sel (ds_Labels x)"
    and "createDaemonsets A ns dsName cnt h = (None, h')"
    and "api_List A ns sel h' = Inr items"
  shows "set items = new_ds ns dsName ` {0..<cnt}" "distinct items"
    and "\<forall>i \<in> {0..<cnt}. st h (ns, ds_name dsName i) = None"
    and "\<forall>k. k \<notin> (\<lambda>i. (ns, ds_name dsName i)) ` {0..<cnt} \<longrightarrow> st h' k = st h k"
proof -
  let ?key = "\<lambda>i. (ns, ds_name dsName i)"
  have run: "run_calls (\<lambda>i. api_Create A ns (new_ds ns dsName i)) [0..cnt - 1] h = ([], h')"
    using assms(4) by (auto simp: createDaemonsets_def intro: create_ds_loop_ok)
  have idx: "set [0..cnt - 1] = {0..<cnt}" by (rule set_upto_less)
  have dist: "distinct (map ?key [0..cnt - 1])" by (simp add: distinct_map inj_on_def)
  have step: "\<exists>x. x = new_ds ns dsName i \<and> st h (?key i) = None \<and> st h' = (st h)(?key i \<mapsto> x)"
    if "i \<in> set [0..cnt - 1]" "api_Create A ns (new_ds ns dsName i) h = (None, h')" for i h h'
  proof -
    have "ds_Name (new_ds ns dsName i) = ds_name dsName i" by (simp add: new_ds_def)
    then show ?thesis using assms(1) that(2) unfolding api_ok_def by metis
  qed
  note store = run_calls_store [OF run dist, where P = "\<lambda>i x. x = new_ds ns dsName i" and st = st, OF step,
      unfolded idx]
  from store show "\<forall>i \<in> {0..<cnt}. st h (ns, ds_name dsName i) = None" by blast
  from store show old: "\<forall>k. k \<notin> ?key ` {0..<cnt} \<longrightarrow> st h' k = st h k" by blast
  have items: "distinct (map ds_Name items)"
    "\<And>x. x \<in> set items \<longleftrightarrow> st h' (ns, ds_Name x) = Some x \<and> matches sel (ds_Labels x)"
    using assms(1,5) unfolding api_ok_def by blast+
  from items(1) show "distinct items" by (simp add: distinct_map)
  have sel: "matches sel (ds_Labels (new_ds ns dsName i))" for i
    using assms(2) by (simp add: selects_def new_ds_def ds_labels_def)
  show "set items = new_ds ns dsName ` {0..<cnt}"
  proof
    show "new_ds ns dsName ` {0..<cnt} \<subseteq> set items"
      using store items(2) sel by (auto simp: new_ds_def)
    show "set items \<subseteq> new_ds ns dsName ` {0..<cnt}"
    proof
      fix x assume x: "x \<in> set items"
      then have "(ns, ds_Name x) \<in> ?key ` {0..<cnt}" using items(2) old assms(3) by metis
      then obtain i where i: "i \<in> {0..<cnt}" "ds_Name x = ds_name dsName i" by auto
      then have "x = new_ds ns dsName i" using store items(2) x by force
      with i show "x \<in> new_ds ns dsName ` {0..<cnt}" by blast
    qed
  qed
qed

text \<open>
  C28: the life cycle of a set of daemonsets. After they have been created, the list for their
  name shows one row with their number, whatever the order of the API server's list and
  even when the name itself ends in a number; and when deleting them succeeds, the stored
  daemonsets are those of before.
\<close>

theorem daemonset_lifecycle:
  assumes "api_ok api_is ds_Name ds_Labels matches A st"
    and "selects matches (names_selector [dsName]) [(''app'', appLabel), (''dsName'', dsName)]"
    and "\<forall>n x. st h (ns, n) = Some x \<longrightarrow> \<not> matches (names_selector [dsName]) (ds_Labels x)"
    and "createDaemonsets A ns dsName cnt h = (None, h1)" "0 < cnt" "cnt < 2 ^ 63" "CHR 10 \<notin> set dsName"
    and "cli_Args c = [dsName]" "cli_GlobalString c ''namespace'' = ns"
  shows "(\<forall>rows. daemonsetListCommand A None c h1 = Inr rows \<longrightarrow> rows = [(dsName, cnt)]) \<and>
    (\<forall>h2. deleteDaemonsets api_is A ns dsName h1 = (None, h2) \<longrightarrow> st h2 = st h)"
proof (intro conjI allI impI)
  fix rows assume "daemonsetListCommand A None c h1 = Inr rows"
  then obtain items where items: "api_List A ns (names_selector [dsName]) h1 = Inr items"
    and rows: "rows = count_names [] items"
    using assms(8,9) by (auto simp: daemonsetListCommand_def split: sum.splits)
  note created = created_daemonsets [OF assms(1-4) items]
  have inj: "inj_on (new_ds ns dsName) {0..<cnt}" by (auto simp: inj_on_def new_ds_def)
  have "int (length items) = cnt"
    using distinct_card [OF created(2)] card_image [OF inj] assms(5) unfolding created(1) by simp
  moreover have "\<forall>d \<in> set items. ds_match (ds_Name d) = Some dsName"
    unfolding created(1) using assms(7) by (auto simp: new_ds_def)
  ultimately show "rows = [(dsName, cnt)]"
    unfolding rows using count_names_all [of items dsName] assms(5,6) by auto
next
  fix h2 assume "deleteDaemonsets api_is A ns dsName h1 = (None, h2)"
  then obtain items where items: "api_List A ns (names_selector [dsName]) h1 = Inr items"
    and del: "delete_ds_loop api_is A ns items h1 = (None, h2)"
    by (auto simp: deleteDaemonsets_def split: sum.splits if_splits)
  note created = created_daemonsets [OF assms(1-4) items]
  have "(\<lambda>d. (ns, ds_Name d)) ` set items = (\<lambda>i. (ns, ds_name dsName i)) ` {0..<cnt}"
    unfolding created(1) image_image by (simp add: new_ds_def)
  with delete_ds_loop_ok [OF assms(1) del] created(3,4) show "st h2 = st h" by (auto simp: fun_eq_iff)
qed

text \<open>Two daemonsets for a set whose name ends in a number.\<close>

definition sample_ds_matches :: "string \<Rightarrow> string gomap \<Rightarrow> bool" where
  "sample_ds_matches sel ls \<longleftrightarrow>
     list_all (\<lambda>(k, v). map_of ls k = Some v) [(''app'', appLabel), (''dsName'', ''ds-7'')]"

definition sample_ds_api :: "(DaemonSet, DaemonSet obj_store) obj_api" where
  "sample_ds_api = store_api ds_Name ds_Labels sample_ds_matches rev"

definition ds_flags :: Context where
  "ds_flags = \<lparr>cli_IsSet = (\<lambda>_. False), cli_Int = (\<lambda>_. 0), cli_Float64 = (\<lambda>_. Fin 0), cli_String = (\<lambda>f. f),
     cli_Bool = (\<lambda>_. False), cli_StringSlice = (\<lambda>_. []), cli_GlobalString = (\<lambda>_. ''ns''),
     cli_GlobalBool = (\<lambda>_. False), cli_Args = [''ds-7'']\<rparr>"

theorem daemonset_lifecycle_witness:
  "\<exists>h1 h2. createDaemonsets sample_ds_api ''ns'' ''ds-7'' 2 [] = (None, h1) \<and>
     daemonsetListCommand sample_ds_api None ds_flags h1 = Inr [(''ds-7'', 2)] \<and>
     deleteDaemonsets (\<lambda>_ _. False) sample_ds_api ''ns'' ''ds-7'' h1 = (None, h2) \<and> map_of h2 = Map.empty"
proof -
  have ok: "api_ok (\<lambda>_ _. False) ds_Name ds_Labels sample_ds_matches sample_ds_api map_of"
    unfolding sample_ds_api_def by (rule store_api_ok) simp
  have sel: "selects sample_ds_matches (names_selector [''ds-7'']) [(''app'', appLabel), (''dsName'', ''ds-7'')]"
    by (simp add: selects_def sample_ds_matches_def)
  let ?run = "createDaemonsets sample_ds_api ''ns'' ''ds-7'' 2 []"
  let ?del = "deleteDaemonsets (\<lambda>_ _. False) sample_ds_api ''ns'' ''ds-7''"
  have "fst ?run = None \<and> fst (?del (snd ?run)) = None" by code_simp
  then obtain h1 h2 where run: "?run = (None, h1)" and del: "?del h1 = (None, h2)"
    by (metis prod.collapse)
  obtain rows where rows: "daemonsetListCommand sample_ds_api None ds_flags h1 = Inr rows"
    by (simp add: daemonsetListCommand_def sample_ds_api_def store_api_def)
  have "cli_Args ds_flags = [''ds-7'']" "cli_GlobalString ds_flags ''namespace'' = ''ns''"
    by (simp_all add: ds_flags_def)
  from daemonset_lifecycle [OF ok sel _ run _ _ _ this] run del rows show ?thesis by auto
qed

end
