(* ===== verification/Spec2Isabelle.thy ===== *)
theory Spec2Isabelle
  imports Post_Delete Server_Run Runner_Cmd Runnergroup_Cmd Configmaps Daemonsets
begin

text \<open>
  A verification development for kperf, a load generator for kube-apiserver. File names below are
  relative to \<^verbatim>\<open>src/\<close>.

  \<^bold>\<open>The program.\<close> A \<^emph>\<open>runner\<close> (\<^verbatim>\<open>kperf runner run\<close>) reads a load profile, builds a weighted
  random generator of REST requests per spec, lets a pool of workers send them under a rate limit, and prints
  a report with latencies, percentiles and errors. A \<^emph>\<open>runner group\<close> is a Kubernetes job of runners;
  a \<^emph>\<open>server\<close> (\<^verbatim>\<open>kperf runnergroup server\<close>) deploys the groups, stores the reports that the runners
  upload, waits for the jobs and serves a summary. The server itself, and virtual nodes to load the
  cluster with, are deployed as Helm releases by \<^verbatim>\<open>kperf runnergroup run\<close> and \<^verbatim>\<open>kperf virtualcluster
  nodepool\<close>. The tool \<^verbatim>\<open>runkperf\<close> (under \<^verbatim>\<open>contrib/\<close>) adds commands that create data in a cluster.

  \<^bold>\<open>Conventions.\<close> Go strings are byte lists (\<^typ>\<open>string\<close>), structs are records, maps are
  association lists with distinct keys (\<open>gomap\<close>), pointers and nil maps are options. An \<^verbatim>\<open>int\<close> is an
  \<^typ>\<open>int\<close> with \<open>wrap64\<close> or \<open>wrap32\<close> wherever the code computes; \<^verbatim>\<open>float64\<close> is a datatype with rounding to 53
  bits. Errors are datatypes, results are sums, and a computation that can panic or block has the type
  \<open>outcome\<close>. Code that is not in the repository is an argument: Helm, client-go, the API server, the
  YAML and JSON codecs, \<^verbatim>\<open>strvals\<close>, \<^verbatim>\<open>errgroup\<close>, the operating system, the random source.
  What is assumed of it is a named predicate (\<open>helm_ok\<close>, \<open>strvals_ok\<close>, \<open>yaml_ok\<close>, \<open>api_ok\<close>, \<open>selects\<close>, \<open>errgroup_ok\<close>),
  and each has an instance that satisfies it. Concurrency is a step relation between states, or, where the
  calls are independent, an arbitrary order of the calls.

  \<^bold>\<open>Theories.\<close>

  \<^item> \<open>Prelude\<close>, \<open>Float64\<close>, \<open>Json\<close>, \<open>Go_Errors\<close>, \<open>Go_Path\<close>, \<open>Go_Time\<close>, \<open>Go_Net\<close>: what the code uses of the Go
    language and its standard library (integers, \<^verbatim>\<open>strconv\<close>, \<^verbatim>\<open>strings\<close>, \<^verbatim>\<open>json.Valid\<close>, wrapped errors, \<^verbatim>\<open>path\<close>,
    \<^verbatim>\<open>time.Duration\<close>, addresses), with the shared lemmas.

  \<^item> \<open>Types\<close> (\<^verbatim>\<open>api/types/load_traffic.go\<close>): the load profile and all \<^verbatim>\<open>Validate\<close> methods. Acceptance is
    characterised and validation is idempotent.

  \<^item> \<open>Cache\<close> (\<^verbatim>\<open>request/cache.go\<close>): the queue of created names; the locale \<open>fifo_queue\<close> is its contract.

  \<^item> \<open>Metrics\<close> (\<^verbatim>\<open>metrics/\<close>): percentiles are the nearest ranks, computed with rounding; error statistics
    count; what is gathered is what was observed (locale \<open>response_metric\<close>).

  \<^item> \<open>Requests\<close> (\<^verbatim>\<open>request/random.go\<close>, \<^verbatim>\<open>request/requester.go\<close>): the generator and the nine kinds of requests. Each
    builder is picked in proportion to its shares; building and picking panic exactly in the stated cases.

  \<^item> \<open>Post_Delete\<close>: all interleavings of creating and deleting objects by one builder; the cache has exactly
    the objects that exist and are not in flight.

  \<^item> \<open>Schedule\<close> (\<^verbatim>\<open>request/schedule.go\<close>): generator, channel, workers and context as the step relation
    \<open>sched_step\<close>. A run sends the requested number, accounts for every request, cannot deadlock, and ends.

  \<^item> \<open>Cli_Utils\<close>, \<open>Runner_Cmd\<close> (\<^verbatim>\<open>cmd/kperf/commands/utils\<close>, \<^verbatim>\<open>cmd/kperf/commands/runner\<close>, \<^verbatim>\<open>request/client.go\<close>): flags,
    the profile with its overrides, the clients, the run of all specs and the report. The
    properties combine the scheduler, the metrics and the server's summary.

  \<^item> \<open>Local_Store\<close> (\<^verbatim>\<open>runner/localstore\<close>): the blob store over an explicit file system refines an abstract
    store (locale \<open>blob_store\<close>); a committed blob never changes.

  \<^item> \<open>Group_Handler\<close> (\<^verbatim>\<open>runner/group\<close>): the job of a group, its deployment, and waiting for it through watches.

  \<^item> \<open>Runner_Server\<close>, \<open>Server_Run\<close> (\<^verbatim>\<open>runner/server.go\<close>, \<^verbatim>\<open>runner/server_runnergroup.go\<close>, \<^verbatim>\<open>runner/utils.go\<close>): the handlers, the merge of the
    reports, and parallel uploads as the step relation \<open>serve_step\<close>. A runner's report is stored once, and
    the summary merges exactly the acknowledged reports.

  \<^item> \<open>Helm_Values\<close>, \<open>Helm_Cli\<close> (\<^verbatim>\<open>helmcli/\<close>, \<^verbatim>\<open>manifests/helm.go\<close>): copying and merging of chart values, the
    clients for releases, and loading of charts.

  \<^item> \<open>Nodepool\<close> (\<^verbatim>\<open>virtualcluster/\<close>, \<^verbatim>\<open>cmd/kperf/commands/virtualcluster\<close>): creating a node pool is all or nothing and
    configures it as asked; deleting and listing it; the split of \<^verbatim>\<open>batch-add\<close>.

  \<^item> \<open>Runnergroup_Cmd\<close> (\<^verbatim>\<open>runner/runnergroup_*.go\<close>, \<^verbatim>\<open>cmd/kperf/commands/runnergroup\<close>, \<^verbatim>\<open>portforward/\<close>): the release of
    the server, the handlers it starts with, and the clients behind a port forward.

  \<^item> \<open>Object_Sets\<close>, \<open>Configmaps\<close>, \<open>Daemonsets\<close> (\<^verbatim>\<open>contrib/cmd/runkperf/commands/data\<close>): sets of objects that are created
    in parallel batches, listed and deleted.

  \<^bold>\<open>Bounds and loops.\<close> Totals, batch sizes and counters are assumed below 2^63 where the code adds
  to them, as 64-bit addition wraps; the percentiles are exact for fewer than 2^40 latencies, where
  the 53 bits of a \<^verbatim>\<open>float64\<close> suffice. The loops of \<^verbatim>\<open>batch-add\<close> and of the batches are
  \<^theory_text>\<open>partial_function\<close>s, and the properties show that they return. No definition uses
  fuel; the inputs that a blocking loop takes are a list, and \<open>Pending\<close> says that it waits for more.

  \<^bold>\<open>Not modelled.\<close> The declaration of commands and flags (\<^verbatim>\<open>cmd/kperf/main.go\<close>, \<^verbatim>\<open>*/root.go\<close>), tables and
  logs, as they have no behaviour to specify; \<^verbatim>\<open>request/unstructuredscheme\<close>, which only adapts
  codecs of a library; the durations of timers and of the rate limiter, of which only the effect
  (a wait that may fail, an expired timer) is kept; and the benchmark scripts of \<^verbatim>\<open>contrib/\<close>
  (\<^verbatim>\<open>bench\<close>, \<^verbatim>\<open>warmup\<close>, \<^verbatim>\<open>contrib/utils\<close> apart from \<^verbatim>\<open>RenderTemplate\<close>), which run the binaries
  \<^verbatim>\<open>kperf\<close>, \<^verbatim>\<open>runkperf\<close> and \<^verbatim>\<open>kubectl\<close> one after the other and whose effect is that of these processes.
\<close>

end
